(* ===== verification/Prelude.thy ===== *)
theory Prelude
  imports Complex_Main "HOL-Library.Sublist" "HOL-Library.Finite_Map" "HOL-Library.Char_ord"
    "HOL-Library.List_Lexorder"
begin

text \<open>
  Shared ground of the development: the exceptions the Python code raises and catches, the
  state-and-exception actions in which every effectful routine is written (an action takes a
  state and returns either an exception or a value, together with the state it leaves behind),
  redis-py's non-transactional pipeline over such actions, the simulation relation that carries
  facts from a concrete state to an abstract one, and string and list lemmas.
\<close>

named_theorems action_simps \<open>unfolding rules for actions\<close>
named_theorems sim_intros \<open>actions that simulate each other\<close>
named_theorems kv_simps \<open>effects of Redis commands\<close>
named_theorems key_defs \<open>Redis key builders\<close>

subsection \<open>Exceptions\<close>

text \<open>
  The exception classes the sources name. The first five are \<open>TRANSIENT_EXCEPTIONS\<close> of
  \<open>common/consumer_loop.py\<close>; \<open>ResponseError\<close> is any other error reply of the Redis server
  (for example WRONGTYPE), \<open>OtherError\<close> any other Python exception.
\<close>

datatype exn =
    ConnectionError
  | TimeoutError
  | BusyLoadingError
  | OutOfMemoryError
  | ReadOnlyError
  | ResponseError string
  | WatchError
  | TransientError
  | KafkaError
  | ShutdownRequested
  | ValidationError string
  | ValueError string
  | HTTPException nat string
  | OtherError string

text \<open>
  Error replies of the server, which redis-py collects while it reads the remaining replies of a
  pipeline; every other Redis exception interrupts the pipeline where it happens.
\<close>

fun response_error :: "exn \<Rightarrow> bool" where
  "response_error OutOfMemoryError = True"
| "response_error ReadOnlyError = True"
| "response_error (ResponseError _) = True"
| "response_error _ = False"

subsection \<open>Actions\<close>

type_synonym ('s, 'a) action = "'s \<Rightarrow> (exn + 'a) \<times> 's"

definition ret :: "'a \<Rightarrow> ('s, 'a) action" where
  "ret x s = (Inr x, s)"

definition raise_exn :: "exn \<Rightarrow> ('s, 'a) action" where
  "raise_exn e s = (Inl e, s)"

definition bindE :: "('s, 'a) action \<Rightarrow> ('a \<Rightarrow> ('s, 'b) action) \<Rightarrow> ('s, 'b) action" where
  "bindE m f s = (case m s of (r, s') \<Rightarrow> (case r of Inl e \<Rightarrow> (Inl e, s') | Inr x \<Rightarrow> f x s'))"

text \<open>A Python \<open>for\<close> loop that collects one result per element.\<close>

fun mapE :: "('a \<Rightarrow> ('s, 'b) action) \<Rightarrow> 'a list \<Rightarrow> ('s, 'b list) action" where
  "mapE f [] = ret []"
| "mapE f (x # xs) = bindE (f x) (\<lambda>y. bindE (mapE f xs) (\<lambda>ys. ret (y # ys)))"

text \<open>
  redis-py's \<open>pipeline(transaction=False).execute()\<close>: the queued calls run in order; an error
  reply is kept among the results and the first one is raised once all replies are read; a
  connection failure is raised at once.
\<close>

fun run_commands :: "('s, 'a) action list \<Rightarrow> ('s, (exn + 'a) list) action" where
  "run_commands [] = ret []"
| "run_commands (a # as) = (\<lambda>s.
     (case a s of (r, s') \<Rightarrow>
        (case r of
           Inl e \<Rightarrow> (if response_error e
                   then bindE (run_commands as) (\<lambda>rs. ret (r # rs)) s'
                   else (Inl e, s'))
         | Inr _ \<Rightarrow> bindE (run_commands as) (\<lambda>rs. ret (r # rs)) s')))"

fun raise_first :: "(exn + 'a) list \<Rightarrow> exn + 'a list" where
  "raise_first [] = Inr []"
| "raise_first (Inl e # rs) = Inl e"
| "raise_first (Inr x # rs) =
     (case raise_first rs of Inl e \<Rightarrow> Inl e | Inr xs \<Rightarrow> Inr (x # xs))"

definition pipe_execute :: "('s, 'a) action list \<Rightarrow> ('s, 'a list) action" where
  "pipe_execute as = bindE (run_commands as) (\<lambda>rs s. (raise_first rs, s))"

declare ret_def [action_simps] raise_exn_def [action_simps] bindE_def [action_simps]

lemma bindE_ret [simp]: "bindE (ret x) f = f x"
  by (rule ext) (simp add: action_simps)

lemma bindE_ret_right [simp]: "bindE m ret = m"
  by (rule ext) (auto simp: action_simps split: prod.splits sum.splits)

lemma bindE_raise [simp]: "bindE (raise_exn e) f = raise_exn e"
  by (rule ext) (simp add: action_simps)

lemma bindE_assoc: "bindE (bindE m f) g = bindE m (\<lambda>x. bindE (f x) g)"
  by (rule ext) (auto simp: action_simps split: prod.splits sum.splits)

lemma bindE_Inr_iff:
  "bindE m f s = (Inr y, t) \<longleftrightarrow> (\<exists>x s'. m s = (Inr x, s') \<and> f x s' = (Inr y, t))"
  by (auto simp: bindE_def split: prod.splits sum.splits)

lemma bindE_Inl_iff:
  "bindE m f s = (Inl e, t) \<longleftrightarrow>
     m s = (Inl e, t) \<or> (\<exists>x s'. m s = (Inr x, s') \<and> f x s' = (Inl e, t))"
  by (auto simp: bindE_def split: prod.splits sum.splits)

lemma bindE_step: "m s = (Inr x, s') \<Longrightarrow> bindE m f s = f x s'"
  by (simp add: bindE_def)

lemma mapE_length: "mapE f xs s = (Inr ys, t) \<Longrightarrow> length ys = length xs"
  by (induction xs arbitrary: s ys) (auto simp: ret_def bindE_Inr_iff)

text \<open>Where nothing fails, a pipeline is the plain loop over its calls.\<close>

lemma run_commands_ok:
  "mapE (\<lambda>a. a) as s = (Inr ys, t) \<Longrightarrow> run_commands as s = (Inr (map Inr ys), t)"
proof (induction as arbitrary: s ys)
  case Nil
  then show ?case by (simp add: ret_def)
next
  case (Cons a as)
  then obtain y s' ys' where a: "a s = (Inr y, s')"
    and r: "mapE (\<lambda>a. a) as s' = (Inr ys', t)" and ys: "ys = y # ys'"
    by (auto simp: bindE_Inr_iff ret_def)
  from Cons.IH [OF r] a ys show ?case
    by (simp add: bindE_def ret_def)
qed

lemma raise_first_ok [simp]: "raise_first (map Inr ys) = Inr ys"
  by (induction ys) auto

lemma pipe_execute_ok:
  "mapE (\<lambda>a. a) as s = (Inr ys, t) \<Longrightarrow> pipe_execute as s = (Inr ys, t)"
  by (simp add: pipe_execute_def bindE_def run_commands_ok)

lemma mapE_map: "mapE f (map g xs) = mapE (\<lambda>x. f (g x)) xs"
  by (induction xs) simp_all

lemma pipe_execute_map_ok:
  "mapE f xs s = (Inr ys, t) \<Longrightarrow> pipe_execute (map f xs) s = (Inr ys, t)"
  by (rule pipe_execute_ok) (simp add: mapE_map)

lemma pipe_execute_Nil [simp]: "pipe_execute [] = ret []"
  by (rule ext) (simp add: pipe_execute_def action_simps)

text \<open>A loop of actions each of which returns what a function says and keeps the state.\<close>

lemma mapE_const:
  "(\<And>x. x \<in> set xs \<Longrightarrow> f x s = (Inr (g x), s)) \<Longrightarrow> mapE f xs s = (Inr (map g xs), s)"
  by (induction xs) (auto simp: action_simps)

lemma mapE_append:
  "mapE f (xs @ ys) = bindE (mapE f xs) (\<lambda>us. bindE (mapE f ys) (\<lambda>vs. ret (us @ vs)))"
  by (induction xs) (auto simp: bindE_assoc)

subsection \<open>Simulation\<close>

text \<open>
  \<open>sim h m m'\<close>: through the abstraction \<open>h\<close> of the state, the action \<open>m\<close> gives the same result
  as \<open>m'\<close> and leaves the same abstract state. It is closed under the combinators above, so a
  routine written with a client that simulates another simulates the routine written with it.
\<close>

definition sim :: "('s \<Rightarrow> 't) \<Rightarrow> ('s, 'a) action \<Rightarrow> ('t, 'a) action \<Rightarrow> bool" where
  "sim h m m' \<longleftrightarrow> (\<forall>s. fst (m s) = fst (m' (h s)) \<and> h (snd (m s)) = snd (m' (h s)))"

lemma simI: "(\<And>s. fst (m s) = fst (m' (h s))) \<Longrightarrow> (\<And>s. h (snd (m s)) = snd (m' (h s))) \<Longrightarrow> sim h m m'"
  by (simp add: sim_def)

lemma sim_run: "sim h m m' \<Longrightarrow> m' (h s) = (r, t') \<Longrightarrow> \<exists>t. m s = (r, t) \<and> h t = t'"
  unfolding sim_def by (metis fst_conv prod.collapse snd_conv)

lemma simD:
  assumes "sim h m m'"
  shows "fst (m s) = fst (m' (h s))" and "h (snd (m s)) = snd (m' (h s))"
  using assms by (simp_all add: sim_def)

lemma sim_ret [sim_intros]: "sim h (ret x) (ret x)"
  by (simp add: sim_def ret_def)

lemma sim_raise [sim_intros]: "sim h (raise_exn e) (raise_exn e)"
  by (simp add: sim_def raise_exn_def)

lemma sim_bindE [sim_intros]:
  assumes m: "sim h m m'" and f: "\<And>x. sim h (f x) (f' x)"
  shows "sim h (bindE m f) (bindE m' f')"
proof (rule simI)
  fix s
  obtain r t where mt: "m s = (r, t)" by (cases "m s")
  obtain r' t' where mt': "m' (h s) = (r', t')" by (cases "m' (h s)")
  have rr: "r' = r" and tt: "t' = h t"
    using simD [OF m, of s] mt mt' by simp_all
  show "fst (bindE m f s) = fst (bindE m' f' (h s))"
    using simD(1) [OF f, of _ t] mt mt' rr tt by (simp add: bindE_def split: sum.splits)
  show "h (snd (bindE m f s)) = snd (bindE m' f' (h s))"
    using simD(2) [OF f, of _ t] mt mt' rr tt by (simp add: bindE_def split: sum.splits)
qed

lemma sim_if [sim_intros]:
  "(b \<Longrightarrow> sim h m m') \<Longrightarrow> (\<not> b \<Longrightarrow> sim h n n') \<Longrightarrow> sim h (if b then m else n) (if b then m' else n')"
  by simp

lemma sim_case_option [sim_intros]:
  "sim h m m' \<Longrightarrow> (\<And>x. sim h (f x) (f' x)) \<Longrightarrow>
   sim h (case x of None \<Rightarrow> m | Some y \<Rightarrow> f y) (case x of None \<Rightarrow> m' | Some y \<Rightarrow> f' y)"
  by (cases x) simp_all

lemma sim_case_prod [sim_intros]:
  "(\<And>x y. sim h (f x y) (f' x y)) \<Longrightarrow> sim h (case p of (x, y) \<Rightarrow> f x y) (case p of (x, y) \<Rightarrow> f' x y)"
  by (cases p) simp

lemma sim_let [sim_intros]: "(\<And>x. sim h (f x) (f' x)) \<Longrightarrow> sim h (let x = y in f x) (let x = y in f' x)"
  by simp

lemma sim_mapE [sim_intros]:
  "(\<And>x. sim h (f x) (f' x)) \<Longrightarrow> sim h (mapE f xs) (mapE f' xs)"
  by (induction xs) (auto intro!: sim_intros)

lemma sim_run_commands:
  "list_all2 (sim h) as as' \<Longrightarrow> sim h (run_commands as) (run_commands as')"
proof (induction rule: list_all2_induct)
  case Nil
  show ?case by (simp add: sim_ret)
next
  case (Cons a as a' as')
  have rest: "sim h (bindE (run_commands as) (\<lambda>rs. ret (r # rs)))
      (bindE (run_commands as') (\<lambda>rs. ret (r # rs)))" for r
    by (intro sim_intros Cons)
  show ?case
  proof (rule simI)
    fix s
    obtain r t where at: "a s = (r, t)" by (cases "a s")
    obtain r' t' where at': "a' (h s) = (r', t')" by (cases "a' (h s)")
    have rr: "r' = r" and tt: "t' = h t"
      using simD [OF \<open>sim h a a'\<close>, of s] at at' by simp_all
    show "fst (run_commands (a # as) s) = fst (run_commands (a' # as') (h s))"
      using simD(1) [OF rest, of r t] at at' rr tt by (auto split: sum.splits)
    show "h (snd (run_commands (a # as) s)) = snd (run_commands (a' # as') (h s))"
      using simD(2) [OF rest, of r t] at at' rr tt by (auto split: sum.splits)
  qed
qed

lemma sim_pipe_execute [sim_intros]:
  "list_all2 (sim h) as as' \<Longrightarrow> sim h (pipe_execute as) (pipe_execute as')"
  unfolding pipe_execute_def
  by (intro sim_bindE sim_run_commands) (simp_all add: sim_def)

lemma sim_pipe_map [sim_intros]:
  "(\<And>x. sim h (f x) (f' x)) \<Longrightarrow> sim h (pipe_execute (map f xs)) (pipe_execute (map f' xs))"
  by (rule sim_pipe_execute) (simp add: list.rel_map list_all2_same)

text \<open>Running an action leaves the state untouched.\<close>

definition reads :: "('s, 'a) action \<Rightarrow> bool" where
  "reads m \<longleftrightarrow> (\<forall>s. snd (m s) = s)"

subsection \<open>Strings\<close>

text \<open>Python's \<open>str.replace\<close> with single characters, and \<open>str.join\<close>.\<close>

definition replace_char :: "char \<Rightarrow> char \<Rightarrow> string \<Rightarrow> string" where
  "replace_char a b = map (\<lambda>c. if c = a then b else c)"

fun join_with :: "string \<Rightarrow> string list \<Rightarrow> string" where
  "join_with sep [] = []"
| "join_with sep [x] = x"
| "join_with sep (x # y # xs) = x @ sep @ join_with sep (y # xs)"

lemma length_replace_char [simp]: "length (replace_char a b xs) = length xs"
  by (simp add: replace_char_def)

lemma replace_char_absent: "a \<notin> set xs \<Longrightarrow> replace_char a b xs = xs"
  by (induction xs) (auto simp: replace_char_def)

lemma replace_char_back: "b \<notin> set xs \<Longrightarrow> replace_char b a (replace_char a b xs) = xs"
  by (induction xs) (auto simp: replace_char_def)

lemma replace_char_inj:
  "b \<notin> set xs \<Longrightarrow> b \<notin> set ys \<Longrightarrow> replace_char a b xs = replace_char a b ys \<longleftrightarrow> xs = ys"
  by (metis replace_char_back)

text \<open>Two texts with one separator and no separator before it split the same way.\<close>

lemma split_unique:
  "c \<notin> set xs \<Longrightarrow> c \<notin> set xs' \<Longrightarrow> xs @ c # ys = xs' @ c # ys' \<longleftrightarrow> xs = xs' \<and> ys = ys'"
proof (induction xs arbitrary: xs')
  case Nil
  then show ?case by (cases xs') auto
next
  case (Cons x xs)
  then show ?case by (cases xs') auto
qed

text \<open>The same with no separator after it.\<close>

lemma split_unique_last:
  assumes "c \<notin> set ys" "c \<notin> set ys'"
  shows "xs @ c # ys = xs' @ c # ys' \<longleftrightarrow> xs = xs' \<and> ys = ys'"
proof -
  have "xs @ c # ys = xs' @ c # ys' \<longleftrightarrow> rev ys @ c # rev xs = rev ys' @ c # rev xs'"
    by (metis append.assoc append_Cons append_Nil rev.simps(2) rev_append rev_rev_ident)
  also have "\<dots> \<longleftrightarrow> rev ys = rev ys' \<and> rev xs = rev xs'"
    using assms by (intro split_unique) simp_all
  finally show ?thesis by auto
qed

end
