(* ===== verification/Redis.thy ===== *)
theory Redis
  imports Prelude
begin

text \<open>
  The Redis server as the sources see it. The server itself is not part of the repository: every
  routine of the model takes a client \<open>rc\<close>, a function from a command and a server state to a
  reply and a new server state, as an argument. What the sources rely on is stated as two locales
  over such a client and an observation \<open>obs\<close> of the server state:
  \<^item> \<open>redis_client\<close>: a reply is the documented one for the command and leaves the documented key
    space; a failure of the connection leaves the key space as it was or as the command leaves it;
  \<^item> \<open>redis_up\<close>: in addition no call fails for want of a server.
  The documented effect of the commands the sources send is \<open>kv_step\<close> (one command on the key
  space) and \<open>redis_step\<close> (one command of a connection, with WATCH and MULTI/EXEC).

  The observation holds what Redis shows of a key: its value and, where it has one, its time to
  live in seconds at this moment. Time does not pass inside a command; statements about later
  moments quantify over the states in which a key still lives. Scores and hash fields, which Redis
  keeps as decimal texts of Python floats, are represented by the numbers they denote.
\<close>

subsection \<open>Commands, replies, key space\<close>

datatype cmd =
    PING
  | GET string
  | EXISTS string
  | TTL string
  | SET_NX_EX string string int
  | SET_EX string string int
  | SET string string
  | DEL "string list"
  | SCAN string
  | ZREMRANGEBYSCORE string real
  | ZADD string real string
  | ZCARD string
  | EXPIRE string int
  | HMGET string "string list"
  | HSET string "(string \<times> real) list"
  | WATCH "string list"
  | UNWATCH
  | EXEC "cmd list"

datatype reply =
    RNil
  | ROk
  | RInt int
  | RBulk string
  | RNums "real option list"
  | RKeys "string list"
  | RMulti "reply list"

datatype rval =
    RStr string
  | RZSet "(string, real) fmap"
  | RHash "(string, real) fmap"

record entry =
  e_val :: rval
  e_ttl :: "int option"

type_synonym keyspace = "(string, entry) fmap"

abbreviation live :: "keyspace \<Rightarrow> string \<Rightarrow> bool" where
  "live m k \<equiv> fmlookup m k \<noteq> None"

abbreviation mk_entry :: "rval \<Rightarrow> int option \<Rightarrow> entry" where
  "mk_entry v t \<equiv> \<lparr>e_val = v, e_ttl = t\<rparr>"

definition wrongtype :: exn where
  "wrongtype = ResponseError ''WRONGTYPE''"

definition bad_expire :: exn where
  "bad_expire = ResponseError ''invalid expire time''"

text \<open>The members of a sorted set (none when the key is absent) and what is left above a score.\<close>

fun zset_of :: "entry option \<Rightarrow> (string, real) fmap option" where
  "zset_of None = Some fmempty"
| "zset_of (Some e) = (case e_val e of RZSet z \<Rightarrow> Some z | _ \<Rightarrow> None)"

fun hash_of :: "entry option \<Rightarrow> (string, real) fmap option" where
  "hash_of None = Some fmempty"
| "hash_of (Some e) = (case e_val e of RHash h \<Rightarrow> Some h | _ \<Rightarrow> None)"

definition ttl_of :: "entry option \<Rightarrow> int option" where
  "ttl_of e = (case e of None \<Rightarrow> None | Some x \<Rightarrow> e_ttl x)"

definition above :: "real \<Rightarrow> (string, real) fmap \<Rightarrow> (string, real) fmap" where
  "above c z = fmfilter (\<lambda>m. case fmlookup z m of None \<Rightarrow> False | Some sc \<Rightarrow> c < sc) z"

text \<open>One command on the key space, connection commands apart.\<close>

fun kv_step :: "cmd \<Rightarrow> keyspace \<Rightarrow> (exn + reply) \<times> keyspace" where
  "kv_step PING m = (Inr ROk, m)"
| "kv_step (GET k) m =
     (case fmlookup m k of
        None \<Rightarrow> (Inr RNil, m)
      | Some e \<Rightarrow> (case e_val e of RStr v \<Rightarrow> (Inr (RBulk v), m) | _ \<Rightarrow> (Inl wrongtype, m)))"
| "kv_step (EXISTS k) m = (Inr (RInt (if live m k then 1 else 0)), m)"
| "kv_step (TTL k) m =
     (Inr (RInt (case fmlookup m k of
                   None \<Rightarrow> -2
                 | Some e \<Rightarrow> (case e_ttl e of None \<Rightarrow> -1 | Some t \<Rightarrow> t))), m)"
| "kv_step (SET_NX_EX k v t) m =
     (if t \<le> 0 then (Inl bad_expire, m)
      else if live m k then (Inr RNil, m)
      else (Inr ROk, fmupd k (mk_entry (RStr v) (Some t)) m))"
| "kv_step (SET_EX k v t) m =
     (if t \<le> 0 then (Inl bad_expire, m)
      else (Inr ROk, fmupd k (mk_entry (RStr v) (Some t)) m))"
| "kv_step (SET k v) m = (Inr ROk, fmupd k (mk_entry (RStr v) None) m)"
| "kv_step (DEL ks) m =
     (Inr (RInt (int (length (filter (live m) (remdups ks))))), fmdrop_set (set ks) m)"
| "kv_step (SCAN p) m =
     (Inr (RKeys (sorted_list_of_fset (ffilter (prefix p) (fmdom m)))), m)"
| "kv_step (ZREMRANGEBYSCORE k c) m =
     (case fmlookup m k of
        None \<Rightarrow> (Inr (RInt 0), m)
      | Some e \<Rightarrow>
          (case zset_of (Some e) of
             None \<Rightarrow> (Inl wrongtype, m)
           | Some z \<Rightarrow>
               (Inr (RInt (int (fcard (fmdom z)) - int (fcard (fmdom (above c z))))),
                if above c z = fmempty then fmdrop k m
                else fmupd k (mk_entry (RZSet (above c z)) (e_ttl e)) m)))"
| "kv_step (ZADD k sc x) m =
     (case zset_of (fmlookup m k) of
        None \<Rightarrow> (Inl wrongtype, m)
      | Some z \<Rightarrow>
          (Inr (RInt (if fmlookup z x = None then 1 else 0)),
           fmupd k (mk_entry (RZSet (fmupd x sc z)) (ttl_of (fmlookup m k))) m))"
| "kv_step (ZCARD k) m =
     (case zset_of (fmlookup m k) of
        None \<Rightarrow> (Inl wrongtype, m)
      | Some z \<Rightarrow> (Inr (RInt (int (fcard (fmdom z)))), m))"
| "kv_step (EXPIRE k t) m =
     (case fmlookup m k of
        None \<Rightarrow> (Inr (RInt 0), m)
      | Some e \<Rightarrow> (Inr (RInt 1), if t \<le> 0 then fmdrop k m
                                 else fmupd k (e\<lparr>e_ttl := Some t\<rparr>) m))"
| "kv_step (HMGET k fs) m =
     (case hash_of (fmlookup m k) of
        None \<Rightarrow> (Inl wrongtype, m)
      | Some h \<Rightarrow> (Inr (RNums (map (fmlookup h) fs)), m))"
| "kv_step (HSET k fvs) m =
     (case hash_of (fmlookup m k) of
        None \<Rightarrow> (Inl wrongtype, m)
      | Some h \<Rightarrow>
          (Inr (RInt (int (length (filter (\<lambda>f. fmlookup h f = None) (remdups (map fst fvs)))))),
           fmupd k (mk_entry (RHash (fold (\<lambda>(f, v). fmupd f v) fvs h)) (ttl_of (fmlookup m k))) m))"
| "kv_step (WATCH ks) m = (Inr ROk, m)"
| "kv_step UNWATCH m = (Inr ROk, m)"
| "kv_step (EXEC cs) m = (Inl (ResponseError ''EXEC without MULTI''), m)"

text \<open>
  A connection watches keys; a watched key that changes marks the connection, and EXEC of a marked
  connection answers nil, which redis-py raises as \<open>WatchError\<close>. \<open>unchanged\<close> compares a key's value
  and existence: the countdown of its time to live is no change.
\<close>

record conn =
  ks :: keyspace
  watched :: "string list"
  touched :: bool

definition unchanged :: "keyspace \<Rightarrow> keyspace \<Rightarrow> string \<Rightarrow> bool" where
  "unchanged m m' k \<longleftrightarrow> map_option e_val (fmlookup m k) = map_option e_val (fmlookup m' k)"

fun redis_step :: "cmd \<Rightarrow> conn \<Rightarrow> (exn + reply) \<times> conn" where
  "redis_step (WATCH keys) s = (Inr ROk, s\<lparr>watched := watched s @ keys\<rparr>)"
| "redis_step UNWATCH s = (Inr ROk, s\<lparr>watched := [], touched := False\<rparr>)"
| "redis_step (EXEC cs) s =
     (if touched s then (Inl WatchError, s\<lparr>watched := [], touched := False\<rparr>)
      else (case pipe_execute (map kv_step cs) (ks s) of
              (r, m) \<Rightarrow> (map_sum id RMulti r, s\<lparr>ks := m, watched := [], touched := False\<rparr>)))"
| "redis_step c s =
     (case kv_step c (ks s) of
        (r, m) \<Rightarrow> (r, s\<lparr>ks := m,
                        touched := touched s \<or> (\<exists>k\<in>set (watched s). \<not> unchanged (ks s) m k)\<rparr>))"

text \<open>SCAN may return the keys in any order and any of them more than once.\<close>

definition redis_replies :: "cmd \<Rightarrow> conn \<Rightarrow> exn + reply \<Rightarrow> conn \<Rightarrow> bool" where
  "redis_replies c s r s' \<longleftrightarrow>
     (case c of
        SCAN p \<Rightarrow> s' = s \<and> (\<exists>kl. r = Inr (RKeys kl) \<and> set kl = {k \<in> fmdom' (ks s). prefix p k})
      | _ \<Rightarrow> redis_step c s = (r, s'))"

text \<open>The failures \<open>common/consumer_loop.py\<close> treats as an outage of Redis.\<close>

fun outage :: "exn \<Rightarrow> bool" where
  "outage ConnectionError = True"
| "outage TimeoutError = True"
| "outage BusyLoadingError = True"
| "outage OutOfMemoryError = True"
| "outage ReadOnlyError = True"
| "outage _ = False"

type_synonym 'r redis = "cmd \<Rightarrow> ('r, reply) action"

declare kv_step.simps [simp del, kv_simps] redis_step.simps [simp del]

subsection \<open>The contracts\<close>

locale redis_client =
  fixes rc :: "cmd \<Rightarrow> 'r \<Rightarrow> (exn + reply) \<times> 'r"
    and obs :: "'r \<Rightarrow> conn"
  assumes answered: "rc c s = (Inr r, s') \<Longrightarrow> redis_replies c (obs s) (Inr r) (obs s')"
    and failed: "rc c s = (Inl e, s') \<Longrightarrow>
      redis_replies c (obs s) (Inl e) (obs s') \<or>
      outage e \<and> (obs s' = obs s \<or> (\<exists>r. redis_replies c (obs s) r (obs s')))"

locale redis_up =
  fixes rc :: "cmd \<Rightarrow> 'r \<Rightarrow> (exn + reply) \<times> 'r"
    and obs :: "'r \<Rightarrow> conn"
  assumes up: "redis_replies c (obs s) (fst (rc c s)) (obs (snd (rc c s)))"

sublocale redis_up \<subseteq> redis_client
proof unfold_locales
  fix c s r s'
  assume "rc c s = (Inr r, s')"
  then show "redis_replies c (obs s) (Inr r) (obs s')"
    using up [of c s] by simp
next
  fix c s e s'
  assume "rc c s = (Inl e, s')"
  then show "redis_replies c (obs s) (Inl e) (obs s') \<or>
      outage e \<and> (obs s' = obs s \<or> (\<exists>r. redis_replies c (obs s) r (obs s')))"
    using up [of c s] by simp
qed

subsection \<open>The key space under the documented commands\<close>

text \<open>Every command but SCAN has one documented outcome.\<close>

fun is_scan :: "cmd \<Rightarrow> bool" where
  "is_scan (SCAN _) = True"
| "is_scan _ = False"

lemma redis_replies_det: "\<not> is_scan c \<Longrightarrow> redis_replies c s r s' \<longleftrightarrow> redis_step c s = (r, s')"
  by (cases c) (simp_all add: redis_replies_def)

context redis_up
begin

lemma sim_rc [sim_intros]: "\<not> is_scan c \<Longrightarrow> sim obs (rc c) (redis_step c)"
  using up [of c] by (simp add: sim_def redis_replies_det)

end

text \<open>The in-memory server itself meets the contract.\<close>

lemma redis_step_scan: "redis_replies c s (fst (redis_step c s)) (snd (redis_step c s))"
proof (cases "is_scan c")
  case True
  then obtain p where "c = SCAN p" by (cases c) auto
  then show ?thesis
    by (auto simp: redis_replies_def redis_step.simps kv_simps unchanged_def fmdom'_alt_def)
qed (simp add: redis_replies_det)

interpretation mem: redis_up redis_step "\<lambda>s. s"
  by unfold_locales (rule redis_step_scan)

text \<open>
  A server whose calls fail as a list of outages says: the \<open>n\<close>-th call is answered when the
  \<open>n\<close>-th element is \<open>None\<close>, and otherwise fails with that exception, either before the command
  took effect or after it.
\<close>

type_synonym flaky = "conn \<times> (exn \<times> bool) option list"

fun flaky_step :: "cmd \<Rightarrow> flaky \<Rightarrow> (exn + reply) \<times> flaky" where
  "flaky_step c (s, []) = (case redis_step c s of (r, s') \<Rightarrow> (r, (s', [])))"
| "flaky_step c (s, None # fs) = (case redis_step c s of (r, s') \<Rightarrow> (r, (s', fs)))"
| "flaky_step c (s, Some (e, done) # fs) =
     (if outage e then (Inl e, (if done then snd (redis_step c s) else s, fs))
      else (case redis_step c s of (r, s') \<Rightarrow> (r, (s', fs))))"

lemma flaky_step_cases:
  "redis_replies c (fst s) (fst (flaky_step c s)) (fst (snd (flaky_step c s))) \<or>
   (\<exists>e. fst (flaky_step c s) = Inl e \<and> outage e \<and>
      (fst (snd (flaky_step c s)) = fst s \<or> (\<exists>r. redis_replies c (fst s) r (fst (snd (flaky_step c s))))))"
  using redis_step_scan [of c "fst s"]
  by (cases "(c, s)" rule: flaky_step.cases) (auto split: prod.splits)

interpretation flaky: redis_client flaky_step fst
proof unfold_locales
  fix c s r s'
  assume "flaky_step c s = (Inr r, s')"
  then show "redis_replies c (fst s) (Inr r) (fst s')"
    using flaky_step_cases [of c s] by auto
next
  fix c s e s'
  assume "flaky_step c s = (Inl e, s')"
  then show "redis_replies c (fst s) (Inl e) (fst s') \<or>
      outage e \<and> (fst s' = fst s \<or> (\<exists>r. redis_replies c (fst s) r (fst s')))"
    using flaky_step_cases [of c s] by auto
qed

text \<open>Key-space facts used by the components.\<close>

lemma above_lookup [simp]:
  "fmlookup (above c z) m =
     (case fmlookup z m of None \<Rightarrow> None | Some sc \<Rightarrow> if c < sc then Some sc else None)"
  by (auto simp: above_def split: option.splits)

lemma above_empty [simp]: "above c fmempty = fmempty"
  by (rule fmap_ext) simp

lemma above_upd:
  "above c (fmupd x sc z) = (if c < sc then fmupd x sc (above c z) else fmdrop x (above c z))"
  by (rule fmap_ext) (auto split: option.splits)

lemma above_idem [simp]: "above c (above c z) = above c z"
  by (rule fmap_ext) (auto split: option.splits)

lemma above_mono_le: "c \<le> c' \<Longrightarrow> above c' (above c z) = above c' z"
  by (rule fmap_ext) (auto split: option.splits)

lemma fmupd_not_empty [simp]: "fmupd x y z \<noteq> fmempty"
  by (metis fmempty_lookup fmupd_lookup option.distinct(1))

lemma fmupd_same: "fmlookup m k = Some v \<Longrightarrow> fmupd k v m = m"
  by (rule fmap_ext) auto

lemma unchanged_refl [simp]: "unchanged m m k"
  by (simp add: unchanged_def)

lemma unchanged_live: "unchanged m m' k \<Longrightarrow> live m k \<longleftrightarrow> live m' k"
  by (metis option.map_disc_iff unchanged_def)

text \<open>A connection that watches nothing is never marked, and ordinary commands are \<open>kv_step\<close>.\<close>

fun is_conn_cmd :: "cmd \<Rightarrow> bool" where
  "is_conn_cmd (WATCH _) = True"
| "is_conn_cmd UNWATCH = True"
| "is_conn_cmd (EXEC _) = True"
| "is_conn_cmd _ = False"

lemma redis_step_plain:
  "\<not> is_conn_cmd c \<Longrightarrow> redis_step c s =
     (fst (kv_step c (ks s)),
      s\<lparr>ks := snd (kv_step c (ks s)),
        touched := touched s \<or> (\<exists>k\<in>set (watched s). \<not> unchanged (ks s) (snd (kv_step c (ks s))) k)\<rparr>)"
  by (cases c) (simp_all add: redis_step.simps split_beta)

lemma sim_ks: "\<not> is_conn_cmd c \<Longrightarrow> sim ks (redis_step c) (kv_step c)"
  by (simp add: sim_def redis_step_plain)

lemma sim_comp: "sim h m m' \<Longrightarrow> sim h' m' m'' \<Longrightarrow> sim (\<lambda>s. h' (h s)) m m''"
  by (simp add: sim_def)

text \<open>
  A client of a server that is up, seen through the key space: an ordinary command is \<open>kv_step\<close>.
  By the closure of \<open>sim\<close> every routine that sends ordinary commands is the same routine on
  key spaces.
\<close>

context redis_up
begin

lemma sim_kv [sim_intros]:
  "\<not> is_conn_cmd c \<Longrightarrow> \<not> is_scan c \<Longrightarrow> sim (\<lambda>s. ks (obs s)) (rc c) (kv_step c)"
  by (rule sim_comp [OF sim_rc sim_ks])

end

end
