(* ===== verification/Json.thy ===== *)
theory Json
  imports Prelude
begin

text \<open>
  Python's \<open>json\<close> module as far as the sources use it: the values \<open>json.loads\<close> returns, the parser
  itself (texts are UTF-8 byte strings), dictionary access, and \<open>json.dumps\<close> of a list of plain
  texts, which is how containment receipts are written. The parser recurses on a fuel that bounds
  the nesting; \<open>json_loads\<close> gives it more than the length of the text, and every nested call comes
  after at least one consumed character.
\<close>

datatype json =
    JNull
  | JBool bool
  | JInt int
  | JFloat real
  | JSpecial string
  | JStr string
  | JArr "json list"
  | JObj "(string \<times> json) list"

text \<open>\<open>d.get(k)\<close> and \<open>d.get(k, default)\<close>; a repeated key has its last value.\<close>

definition dict_get :: "(string \<times> json) list \<Rightarrow> string \<Rightarrow> json option" where
  "dict_get d k = map_of (rev d) k"

definition dict_get_default :: "(string \<times> json) list \<Rightarrow> string \<Rightarrow> json \<Rightarrow> json" where
  "dict_get_default d k x = (case dict_get d k of None \<Rightarrow> x | Some v \<Rightarrow> v)"

subsection \<open>Lexical parts\<close>

definition is_ws :: "char \<Rightarrow> bool" where
  "is_ws c \<longleftrightarrow> of_char c \<in> {32, 9, 10, 13 :: nat}"

definition skip_ws :: "string \<Rightarrow> string" where
  "skip_ws = dropWhile is_ws"

definition digit_of :: "char \<Rightarrow> nat option" where
  "digit_of c = (let n = of_char c :: nat in if 48 \<le> n \<and> n \<le> 57 then Some (n - 48) else None)"

definition hex_of :: "char \<Rightarrow> nat option" where
  "hex_of c = (let n = of_char c :: nat in
     if 48 \<le> n \<and> n \<le> 57 then Some (n - 48)
     else if 97 \<le> n \<and> n \<le> 102 then Some (n - 87)
     else if 65 \<le> n \<and> n \<le> 70 then Some (n - 55)
     else None)"

fun take_digits :: "string \<Rightarrow> nat list \<times> string" where
  "take_digits [] = ([], [])"
| "take_digits (c # cs) =
     (case digit_of c of
        None \<Rightarrow> ([], c # cs)
      | Some d \<Rightarrow> (let (ds, r) = take_digits cs in (d # ds, r)))"

definition nat_of_digits :: "nat list \<Rightarrow> nat" where
  "nat_of_digits = foldl (\<lambda>a d. 10 * a + d) 0"

text \<open>A number: sign, integer part without leading zeros, optional fraction and exponent.\<close>

definition parse_fraction :: "string \<Rightarrow> (nat list \<times> string) option" where
  "parse_fraction cs =
     (case cs of
        c # r \<Rightarrow> (if c = CHR ''.''
                 then (case take_digits r of ([], _) \<Rightarrow> None | (ds, r') \<Rightarrow> Some (ds, r'))
                 else None)
      | [] \<Rightarrow> None)"

definition parse_exponent :: "string \<Rightarrow> (int \<times> string) option" where
  "parse_exponent cs =
     (case cs of
        c # r \<Rightarrow>
          (if c = CHR ''e'' \<or> c = CHR ''E'' then
             (let (neg, r1) = (case r of
                                 d # r' \<Rightarrow> if d = CHR ''-'' then (True, r')
                                          else if d = CHR ''+'' then (False, r') else (False, r)
                               | [] \<Rightarrow> (False, r))
              in (case take_digits r1 of
                    ([], _) \<Rightarrow> None
                  | (ds, r2) \<Rightarrow> Some ((if neg then - 1 else 1) * int (nat_of_digits ds), r2)))
           else None)
      | [] \<Rightarrow> None)"

definition parse_number :: "string \<Rightarrow> (json \<times> string) option" where
  "parse_number cs =
     (let (sg, r0) = (case cs of c # r \<Rightarrow> if c = CHR ''-'' then (- 1, r) else (1, cs) | [] \<Rightarrow> (1, cs))
      in (case take_digits r0 of
            ([], _) \<Rightarrow> None
          | (d # ds, r1) \<Rightarrow>
              (let (ip, r2) = (if d = 0 then ([0], drop 1 r0) else (d # ds, r1));
                   n = int (nat_of_digits ip)
               in (case parse_fraction r2 of
                     None \<Rightarrow>
                       (case parse_exponent r2 of
                          None \<Rightarrow> Some (JInt (sg * n), r2)
                        | Some (x, r4) \<Rightarrow> Some (JFloat (of_int (sg * n) * 10 powi x), r4))
                   | Some (fs, r3) \<Rightarrow>
                       (let f = of_int (sg * (n * 10 ^ length fs + int (nat_of_digits fs))) / 10 ^ length fs
                        in (case parse_exponent r3 of
                              None \<Rightarrow> Some (JFloat f, r3)
                            | Some (x, r4) \<Rightarrow> Some (JFloat (f * 10 powi x), r4)))))))"

text \<open>A code point in UTF-8.\<close>

definition utf8 :: "nat \<Rightarrow> string" where
  "utf8 n =
     (if n < 128 then [char_of n]
      else if n < 2048 then [char_of (192 + n div 64), char_of (128 + n mod 64)]
      else if n < 65536 then
        [char_of (224 + n div 4096), char_of (128 + n div 64 mod 64), char_of (128 + n mod 64)]
      else [char_of (240 + n div 262144), char_of (128 + n div 4096 mod 64),
            char_of (128 + n div 64 mod 64), char_of (128 + n mod 64)])"

definition hex4 :: "string \<Rightarrow> (nat \<times> string) option" where
  "hex4 cs =
     (case cs of
        a # b # c # d # r \<Rightarrow>
          (case (hex_of a, hex_of b, hex_of c, hex_of d) of
             (Some i, Some j, Some k, Some l) \<Rightarrow> Some (((i * 16 + j) * 16 + k) * 16 + l, r)
           | _ \<Rightarrow> None)
      | _ \<Rightarrow> None)"

text \<open>The escapes of one character; \<open>parse_string\<close> reads up to the closing quote.\<close>

definition simple_escape :: "char \<Rightarrow> char option" where
  "simple_escape c =
     (if c = CHR 0x22 then Some (CHR 0x22)
      else if c = CHR 0x5C then Some (CHR 0x5C)
      else if c = CHR ''/'' then Some (CHR ''/'')
      else if c = CHR ''b'' then Some (CHR 0x08)
      else if c = CHR ''f'' then Some (CHR 0x0C)
      else if c = CHR ''n'' then Some (CHR 0x0A)
      else if c = CHR ''r'' then Some (CHR 0x0D)
      else if c = CHR ''t'' then Some (CHR 0x09)
      else None)"

fun parse_string :: "nat \<Rightarrow> string \<Rightarrow> (string \<times> string) option" where
  "parse_string 0 cs = None"
| "parse_string (Suc n) [] = None"
| "parse_string (Suc n) (c # cs) =
     (if c = CHR 0x22 then Some ([], cs)
      else if c = CHR 0x5C then
        (case cs of
           [] \<Rightarrow> None
         | e # r \<Rightarrow>
             (case simple_escape e of
                Some x \<Rightarrow> map_option (\<lambda>(s, r'). (x # s, r')) (parse_string n r)
              | None \<Rightarrow>
                  (if e = CHR ''u'' then
                     (case hex4 r of
                        None \<Rightarrow> None
                      | Some (h, r1) \<Rightarrow>
                          (case r1 of
                             a # b # r2 \<Rightarrow>
                               (case hex4 r2 of
                                  Some (l, r3) \<Rightarrow>
                                    (if a = CHR 0x5C \<and> b = CHR ''u'' \<and> 55296 \<le> h \<and> h < 56320
                                        \<and> 56320 \<le> l \<and> l < 57344
                                     then map_option (\<lambda>(s, r'). (utf8 (65536 + (h - 55296) * 1024 + (l - 56320)) @ s, r'))
                                            (parse_string n r3)
                                     else map_option (\<lambda>(s, r'). (utf8 h @ s, r')) (parse_string n r1))
                                | None \<Rightarrow> map_option (\<lambda>(s, r'). (utf8 h @ s, r')) (parse_string n r1))
                           | _ \<Rightarrow> map_option (\<lambda>(s, r'). (utf8 h @ s, r')) (parse_string n r1)))
                   else None)))
      else if of_char c < (32 :: nat) then None
      else map_option (\<lambda>(s, r'). (c # s, r')) (parse_string n cs))"

subsection \<open>Values\<close>

definition literals :: "(string \<times> json) list" where
  "literals = [(''null'', JNull), (''true'', JBool True), (''false'', JBool False),
     (''NaN'', JSpecial ''NaN''), (''Infinity'', JSpecial ''Infinity''),
     (''-Infinity'', JSpecial ''-Infinity'')]"

definition parse_literal :: "string \<Rightarrow> (json \<times> string) option" where
  "parse_literal cs =
     (case find (\<lambda>(w, _). prefix w cs) literals of
        None \<Rightarrow> None
      | Some (w, v) \<Rightarrow> Some (v, drop (length w) cs))"

fun parse_value :: "nat \<Rightarrow> string \<Rightarrow> (json \<times> string) option"
  and parse_elems :: "nat \<Rightarrow> string \<Rightarrow> (json list \<times> string) option"
  and parse_members :: "nat \<Rightarrow> string \<Rightarrow> ((string \<times> json) list \<times> string) option" where
  "parse_value 0 cs = None"
| "parse_value (Suc n) cs =
     (case cs of
        [] \<Rightarrow> None
      | c # r \<Rightarrow>
          (if c = CHR 0x22 then map_option (\<lambda>(s, r'). (JStr s, r')) (parse_string (Suc (length r)) r)
           else if c = CHR ''['' then
             (case skip_ws r of
                [] \<Rightarrow> None
              | d # r' \<Rightarrow> if d = CHR '']'' then Some (JArr [], r')
                         else map_option (\<lambda>(xs, r''). (JArr xs, r'')) (parse_elems n (d # r')))
           else if c = CHR ''{'' then
             (case skip_ws r of
                [] \<Rightarrow> None
              | d # r' \<Rightarrow> if d = CHR ''}'' then Some (JObj [], r')
                         else map_option (\<lambda>(xs, r''). (JObj xs, r'')) (parse_members n (d # r')))
           else (case parse_literal cs of Some v \<Rightarrow> Some v | None \<Rightarrow> parse_number cs)))"
| "parse_elems 0 cs = None"
| "parse_elems (Suc n) cs =
     (case parse_value n cs of
        None \<Rightarrow> None
      | Some (v, r) \<Rightarrow>
          (case skip_ws r of
             [] \<Rightarrow> None
           | c # r' \<Rightarrow>
               (if c = CHR '']'' then Some ([v], r')
                else if c = CHR '','' then
                  map_option (\<lambda>(vs, r''). (v # vs, r'')) (parse_elems n (skip_ws r'))
                else None)))"
| "parse_members 0 cs = None"
| "parse_members (Suc n) cs =
     (case cs of
        [] \<Rightarrow> None
      | q # r0 \<Rightarrow>
          (if q \<noteq> CHR 0x22 then None
           else (case parse_string (Suc (length r0)) r0 of
                   None \<Rightarrow> None
                 | Some (k, r1) \<Rightarrow>
                     (case skip_ws r1 of
                        [] \<Rightarrow> None
                      | c # r2 \<Rightarrow>
                          (if c \<noteq> CHR '':'' then None
                           else (case parse_value n (skip_ws r2) of
                                   None \<Rightarrow> None
                                 | Some (v, r3) \<Rightarrow>
                                     (case skip_ws r3 of
                                        [] \<Rightarrow> None
                                      | d # r4 \<Rightarrow>
                                          (if d = CHR ''}'' then Some ([(k, v)], r4)
                                           else if d = CHR '','' then
                                             map_option (\<lambda>(m, r5). ((k, v) # m, r5))
                                               (parse_members n (skip_ws r4))
                                           else None))))))))"

text \<open>\<open>json.loads\<close>; \<open>None\<close> is \<open>JSONDecodeError\<close>.\<close>

definition json_loads :: "string \<Rightarrow> json option" where
  "json_loads cs =
     (case parse_value (Suc (2 * length cs)) (skip_ws cs) of
        None \<Rightarrow> None
      | Some (v, r) \<Rightarrow> if skip_ws r = [] then Some v else None)"

text \<open>\<open>json.dumps\<close> of a list of plain texts (printable ASCII, no quote, no backslash).\<close>

definition plain_char :: "char \<Rightarrow> bool" where
  "plain_char c \<longleftrightarrow> 32 \<le> (of_char c :: nat) \<and> (of_char c :: nat) < 127 \<and> c \<noteq> CHR 0x22 \<and> c \<noteq> CHR 0x5C"

definition quoted :: "string \<Rightarrow> string" where
  "quoted s = CHR 0x22 # s @ [CHR 0x22]"

definition json_dumps_strs :: "string list \<Rightarrow> string" where
  "json_dumps_strs xs = ''['' @ join_with '', '' (map quoted xs) @ '']''"

subsection \<open>What was dumped is loaded back\<close>

lemma parse_string_plain:
  "\<forall>c\<in>set s. plain_char c \<Longrightarrow> length s < n \<Longrightarrow> parse_string n (s @ CHR 0x22 # r) = Some (s, r)"
proof (induction s arbitrary: n)
  case Nil
  then show ?case by (cases n) auto
next
  case (Cons c s)
  then obtain k where "n = Suc k" by (cases n) auto
  with Cons show ?case by (auto simp: plain_char_def)
qed

lemma parse_value_quoted:
  assumes "\<forall>c\<in>set s. plain_char c" and "0 < n"
  shows "parse_value n (quoted s @ r) = Some (JStr s, r)"
proof -
  obtain k where n: "n = Suc k" using assms(2) by (cases n) auto
  have "parse_string (Suc (length (s @ CHR 0x22 # r))) (s @ CHR 0x22 # r) = Some (s, r)"
    using assms(1) by (intro parse_string_plain) auto
  then show ?thesis by (simp add: n quoted_def)
qed

lemma skip_ws_quoted [simp]: "skip_ws (quoted s @ r) = quoted s @ r"
  by (simp add: skip_ws_def quoted_def is_ws_def)

lemma skip_ws_punct [simp]:
  "skip_ws (CHR '']'' # r) = CHR '']'' # r" "skip_ws (CHR '','' # r) = CHR '','' # r"
  "skip_ws (CHR '' '' # r) = skip_ws r" "skip_ws (CHR ''['' # r) = CHR ''['' # r" "skip_ws [] = []"
  by (simp_all add: skip_ws_def is_ws_def)

lemma parse_elems_quoted:
  "xs \<noteq> [] \<Longrightarrow> \<forall>s\<in>set xs. \<forall>c\<in>set s. plain_char c \<Longrightarrow> length xs < n \<Longrightarrow>
   parse_elems n (join_with '', '' (map quoted xs) @ CHR '']'' # r) = Some (map JStr xs, r)"
proof (induction xs arbitrary: n rule: induct_list012)
  case (2 s)
  then obtain k where n: "n = Suc k" and k: "0 < k" by (cases n) auto
  with 2 show ?case by (simp add: parse_value_quoted)
next
  case (3 s s' xs)
  then obtain k where n: "n = Suc k" and k: "0 < k" "length (s' # xs) < k" by (cases n) auto
  have IH: "parse_elems k (join_with '', '' (map quoted (s' # xs)) @ CHR '']'' # r) =
      Some (map JStr (s' # xs), r)"
    using 3 k by (intro "3.IH"(2)) auto
  have ws: "skip_ws (join_with '', '' (map quoted (s' # xs)) @ t) =
      join_with '', '' (map quoted (s' # xs)) @ t" for t
    by (cases xs) simp_all
  show ?case
    using 3 k IH ws by (simp add: n parse_value_quoted del: parse_value.simps)
qed simp

theorem json_loads_dumps_strs:
  assumes "\<forall>s\<in>set xs. \<forall>c\<in>set s. plain_char c"
  shows "json_loads (json_dumps_strs xs) = Some (JArr (map JStr xs))"
proof (cases xs)
  case Nil
  then show ?thesis by (simp add: json_loads_def json_dumps_strs_def eval_nat_numeral)
next
  case (Cons y ys)
  let ?body = "join_with '', '' (map quoted xs)"
  have len: "length zs \<le> length (join_with '', '' (map quoted zs))" for zs
    by (induction zs rule: induct_list012) (simp_all add: quoted_def)
  have body: "skip_ws (?body @ t) = ?body @ t" "\<exists>c r. ?body @ t = c # r \<and> c \<noteq> CHR '']''" for t
    using Cons by (cases ys; simp add: quoted_def skip_ws_def is_ws_def)+
  have "parse_elems (2 * length (json_dumps_strs xs)) (?body @ CHR '']'' # []) = Some (map JStr xs, [])"
    using assms Cons len [of xs] by (intro parse_elems_quoted) (auto simp: json_dumps_strs_def)
  with body(1) [of "'']''"] body(2) [of "'']''"] show ?thesis
    by (auto simp: json_loads_def json_dumps_strs_def simp del: parse_elems.simps)
qed

end
