(* ===== verification/Config.thy ===== *)
theory Config
  imports Prelude
begin

text \<open>
  The configuration dataclasses of \<open>configs/kafka_config.py\<close> and \<open>configs/redis_config.py\<close>, with
  the values \<open>from_env\<close> gives them when no variable is set.
\<close>

record KafkaConfig =
  bootstrap_servers :: string
  tx_events_topic :: string
  auth_events_topic :: string
  detections_topic :: string
  audit_log_topic :: string
  dlq_topic :: string
  fetch_min_bytes :: int
  fetch_max_wait_ms :: int
  max_poll_records :: int
  poll_timeout_ms :: int

record RedisConfig =
  host :: string
  port :: int
  db :: int
  replay_ttl_hours :: int
  quarantine_ttl_seconds :: int
  session_ttl_days :: int
  geo_max_velocity_kmh :: real
  burst_window_seconds :: int
  burst_threshold :: int
  burst_key_ttl_seconds :: int
  auth_fail_window_seconds :: int
  auth_fail_user_threshold :: int
  auth_fail_ip_threshold :: int
  auth_fail_key_ttl_seconds :: int
  ip_block_ttl_seconds :: int
  step_up_ttl_seconds :: int
  containment_receipt_ttl_seconds :: int
  detection_cooldown_seconds :: int

definition default_kafka_config :: KafkaConfig where
  "default_kafka_config = \<lparr>
     bootstrap_servers = ''localhost:9092'',
     tx_events_topic = ''tx-events'',
     auth_events_topic = ''auth-events'',
     detections_topic = ''detections'',
     audit_log_topic = ''audit-log'',
     dlq_topic = ''rtace-dlq'',
     fetch_min_bytes = 1,
     fetch_max_wait_ms = 100,
     max_poll_records = 500,
     poll_timeout_ms = 1000\<rparr>"

definition default_redis_config :: RedisConfig where
  "default_redis_config = \<lparr>
     host = ''localhost'',
     port = 6379,
     db = 0,
     replay_ttl_hours = 24,
     quarantine_ttl_seconds = 3600,
     session_ttl_days = 7,
     geo_max_velocity_kmh = 900,
     burst_window_seconds = 60,
     burst_threshold = 20,
     burst_key_ttl_seconds = 120,
     auth_fail_window_seconds = 60,
     auth_fail_user_threshold = 10,
     auth_fail_ip_threshold = 50,
     auth_fail_key_ttl_seconds = 120,
     ip_block_ttl_seconds = 3600,
     step_up_ttl_seconds = 900,
     containment_receipt_ttl_seconds = 8 * 24 * 3600,
     detection_cooldown_seconds = 60\<rparr>"

text \<open>
  Every time to live is positive, every window is, and the speed limit is not negative: the
  settings under which no Redis call is refused.
\<close>

definition config_ok :: "RedisConfig \<Rightarrow> bool" where
  "config_ok cfg \<longleftrightarrow>
     0 < replay_ttl_hours cfg \<and> 0 < quarantine_ttl_seconds cfg \<and> 0 < session_ttl_days cfg \<and>
     0 \<le> geo_max_velocity_kmh cfg \<and> 0 < burst_window_seconds cfg \<and> 0 < burst_key_ttl_seconds cfg \<and>
     0 < auth_fail_window_seconds cfg \<and> 0 < auth_fail_key_ttl_seconds cfg \<and>
     0 < ip_block_ttl_seconds cfg \<and> 0 < step_up_ttl_seconds cfg \<and>
     0 < containment_receipt_ttl_seconds cfg"

lemma default_config_ok [simp]: "config_ok default_redis_config"
  by (simp add: config_ok_def default_redis_config_def)

end
