(* ===== verification/Models.thy ===== *)
theory Models
  imports Json Config
begin

text \<open>
  The Pydantic models of \<open>common/models.py\<close>. Field names shared by several models carry the
  model's initials. A \<open>datetime\<close> is what the sources read of it: its \<open>isoformat()\<close> text and its
  \<open>timestamp()\<close>, seconds since the epoch. Floats are real numbers. \<open>hashlib.sha256\<close> and
  \<open>uuid.uuid5\<close> are arguments; what the sources need of them is that they do not collide.
\<close>

record datetime =
  isoformat :: string
  timestamp :: real

record TransactionEvent =
  tx_event_id :: string
  tx_user_id :: string
  tx_amount :: real
  tx_merchant :: string
  tx_timestamp :: datetime
  tx_location :: string
  tx_latitude :: real
  tx_longitude :: real

record AuthEvent =
  au_event_id :: string
  au_user_id :: string
  au_ip_address :: string
  au_success :: bool
  au_timestamp :: datetime

record DetectionEvent =
  detection_id :: string
  detection_type :: string
  severity :: string
  de_user_id :: string
  transaction_id :: string
  de_timestamp :: datetime
  de_ip_address :: "string option"
  details :: "(string \<times> json) list"

subsection \<open>Number formatting\<close>

text \<open>
  The \<open>:.2f\<close> format of a float: round to the nearest multiple, ties to the even one, and print
  with that many decimals.
\<close>

definition round_half_even :: "real \<Rightarrow> int" where
  "round_half_even x =
     (let f = \<lfloor>x\<rfloor>; d = x - of_int f
      in if d < 1 / 2 then f else if 1 / 2 < d then f + 1 else if even f then f else f + 1)"

fun show_nat :: "nat \<Rightarrow> string" where
  "show_nat n = (if n < 10 then [char_of (48 + n)]
                 else show_nat (n div 10) @ [char_of (48 + n mod 10)])"

declare show_nat.simps [simp del]

fun show_padded :: "nat \<Rightarrow> nat \<Rightarrow> string" where
  "show_padded 0 n = []"
| "show_padded (Suc w) n = show_padded w (n div 10) @ [char_of (48 + n mod 10)]"

definition show_int :: "int \<Rightarrow> string" where
  "show_int i = (if i < 0 then CHR ''-'' # show_nat (nat (- i)) else show_nat (nat i))"

definition format_fixed :: "nat \<Rightarrow> real \<Rightarrow> string" where
  "format_fixed w x =
     (let k = nat \<bar>round_half_even (x * 10 ^ w)\<bar>
      in (if x < 0 then ''-'' else []) @ show_nat (k div 10 ^ w) @ ''.'' @ show_padded w (k mod 10 ^ w))"

subsection \<open>Identities\<close>

definition replay_payload :: "TransactionEvent \<Rightarrow> string" where
  "replay_payload tx =
     tx_user_id tx @ ''|'' @ format_fixed 2 (tx_amount tx) @ ''|'' @ tx_merchant tx @ ''|'' @
     isoformat (tx_timestamp tx) @ ''|'' @ tx_location tx"

definition replay_hash :: "(string \<Rightarrow> string) \<Rightarrow> TransactionEvent \<Rightarrow> string" where
  "replay_hash sha256 tx = sha256 (replay_payload tx)"

definition new_detection_id :: "string \<Rightarrow> string \<Rightarrow> string" where
  "new_detection_id uuid4 pfx = ''det-'' @ pfx @ ''-'' @ uuid4"

definition DETECTION_ID_NS :: string where
  "DETECTION_ID_NS = ''6ba7b811-9dad-11d1-80b4-00c04fd430c8''"

definition detection_identity :: "string \<Rightarrow> string \<Rightarrow> string \<Rightarrow> string" where
  "detection_identity ref dtype scope = ref @ '':'' @ dtype @ '':'' @ scope"

definition stable_detection_id ::
  "(string \<Rightarrow> string \<Rightarrow> string) \<Rightarrow> string \<Rightarrow> string \<Rightarrow> string \<Rightarrow> string \<Rightarrow> string" where
  "stable_detection_id uuid5 pfx ref dtype scope =
     ''det-'' @ pfx @ ''-'' @ uuid5 DETECTION_ID_NS (detection_identity ref dtype scope)"

subsection \<open>Digits\<close>

lemma digit_of_char: "n < 10 \<Longrightarrow> digit_of (char_of (48 + n)) = Some n"
  by (simp add: digit_of_def)

lemma show_nat_chars: "c \<in> set (show_nat n) \<Longrightarrow> digit_of c \<noteq> None"
proof (induction n rule: show_nat.induct)
  case (1 n)
  then show ?case
    by (cases "n < 10") (auto simp: show_nat.simps [of n] digit_of_char)
qed

lemma show_padded_chars: "c \<in> set (show_padded w n) \<Longrightarrow> digit_of c \<noteq> None"
  by (induction w arbitrary: n) (auto simp: digit_of_char)

lemma digits_no_bar: "CHR ''|'' \<notin> set (show_nat n)" "CHR ''|'' \<notin> set (show_padded w n)"
  using show_nat_chars [of "CHR ''|''"] show_padded_chars [of "CHR ''|''"] by (auto simp: digit_of_def)

lemma digits_no_dot: "CHR ''.'' \<notin> set (show_nat n)"
  using show_nat_chars [of "CHR ''.''"] by (auto simp: digit_of_def)

lemma minus_not_digit: "CHR ''-'' \<notin> set (show_nat n)"
  using show_nat_chars [of "CHR ''-''"] by (auto simp: digit_of_def)

lemma format_fixed_no_bar: "CHR ''|'' \<notin> set (format_fixed w x)"
  by (auto simp: format_fixed_def Let_def digits_no_bar)

definition digits_value :: "string \<Rightarrow> nat" where
  "digits_value s = nat_of_digits (map (\<lambda>c. the (digit_of c)) s)"

lemma digits_value_snoc: "n < 10 \<Longrightarrow> digits_value (s @ [char_of (48 + n)]) = 10 * digits_value s + n"
  by (simp add: digits_value_def nat_of_digits_def digit_of_char)

lemma digits_value_show: "digits_value (show_nat n) = n"
proof (induction n rule: show_nat.induct)
  case (1 n)
  show ?case
  proof (cases "n < 10")
    case True
    then show ?thesis
      using digits_value_snoc [of n "[]"]
      by (simp add: show_nat.simps [of n]) (simp add: digits_value_def nat_of_digits_def)
  next
    case False
    with 1 show ?thesis
      by (simp add: show_nat.simps [of n] digits_value_snoc)
  qed
qed

lemma digits_value_padded: "digits_value (show_padded w n) = n mod 10 ^ w"
proof (induction w arbitrary: n)
  case 0
  then show ?case by (simp add: digits_value_def nat_of_digits_def)
next
  case (Suc w)
  have "n mod (10 * 10 ^ w) = 10 * (n div 10 mod 10 ^ w) + n mod 10"
    by (rule mod_mult2_eq)
  with Suc show ?case by (simp add: digits_value_snoc)
qed

lemma length_show_padded [simp]: "length (show_padded w n) = w"
  by (induction w arbitrary: n) simp_all

lemma show_nat_head: "show_nat n \<noteq> [] \<and> hd (show_nat n) \<noteq> CHR ''-''"
proof -
  have "show_nat n \<noteq> []" by (subst show_nat.simps) simp
  then show ?thesis using hd_in_set minus_not_digit by fastforce
qed

lemma show_nat_inj: "show_nat m = show_nat n \<longleftrightarrow> m = n"
  by (metis digits_value_show)

text \<open>Equal printed amounts are equal to the last printed digit.\<close>

lemma unsigned_fixed_inj:
  assumes "show_nat (k div 10 ^ w) @ ''.'' @ show_padded w (k mod 10 ^ w) =
           show_nat (l div 10 ^ w) @ ''.'' @ show_padded w (l mod 10 ^ w)"
  shows "k = l"
proof -
  have "show_nat (k div 10 ^ w) @ CHR ''.'' # show_padded w (k mod 10 ^ w) =
        show_nat (l div 10 ^ w) @ CHR ''.'' # show_padded w (l mod 10 ^ w)"
    using assms by simp
  then have n: "show_nat (k div 10 ^ w) = show_nat (l div 10 ^ w)"
    and p: "show_padded w (k mod 10 ^ w) = show_padded w (l mod 10 ^ w)"
    unfolding split_unique [OF digits_no_dot digits_no_dot] by blast+
  have "k div 10 ^ w = l div 10 ^ w"
    using n by (simp only: show_nat_inj)
  moreover have "k mod 10 ^ w = l mod 10 ^ w"
    using arg_cong [OF p, of digits_value] by (simp add: digits_value_padded)
  ultimately show ?thesis by (metis div_mult_mod_eq)
qed

lemma round_half_even_sign:
  "0 \<le> x \<Longrightarrow> 0 \<le> round_half_even x" "x < 0 \<Longrightarrow> round_half_even x \<le> 0"
proof -
  assume "0 \<le> x"
  then show "0 \<le> round_half_even x" by (simp add: round_half_even_def Let_def)
next
  assume "x < 0"
  then have "\<lfloor>x\<rfloor> \<le> -1" by linarith
  then show "round_half_even x \<le> 0" by (auto simp: round_half_even_def Let_def)
qed

lemma format_fixed_inj:
  assumes "format_fixed w x = format_fixed w y"
  shows "round_half_even (x * 10 ^ w) = round_half_even (y * 10 ^ w)"
proof -
  have head: "show_nat n @ r \<noteq> CHR ''-'' # r'" for n r r'
    using show_nat_head [of n] by (cases "show_nat n") auto
  have sign: "x < 0 \<longleftrightarrow> y < 0"
    using assms head head [symmetric] by (auto simp: format_fixed_def Let_def split: if_splits)
  with assms have "nat \<bar>round_half_even (x * 10 ^ w)\<bar> = nat \<bar>round_half_even (y * 10 ^ w)\<bar>"
    by (intro unsigned_fixed_inj [of _ w]) (auto simp: format_fixed_def Let_def split: if_splits)
  then have abs: "\<bar>round_half_even (x * 10 ^ w)\<bar> = \<bar>round_half_even (y * 10 ^ w)\<bar>" by simp
  have p: "(0::real) < 10 ^ w" by simp
  show ?thesis
  proof (cases "x < 0")
    case True
    with sign have "x * 10 ^ w < 0" "y * 10 ^ w < 0" using p by (simp_all add: mult_neg_pos)
    then show ?thesis using abs round_half_even_sign(2) by fastforce
  next
    case False
    with sign have "0 \<le> x * 10 ^ w" "0 \<le> y * 10 ^ w" using p by simp_all
    then show ?thesis using abs round_half_even_sign(1) by fastforce
  qed
qed

subsection \<open>What the identities identify\<close>

lemma replay_payload_inj:
  assumes "CHR ''|'' \<notin> set (tx_user_id a)" "CHR ''|'' \<notin> set (tx_user_id b)"
    and "CHR ''|'' \<notin> set (tx_merchant a)" "CHR ''|'' \<notin> set (tx_merchant b)"
    and "CHR ''|'' \<notin> set (isoformat (tx_timestamp a))" "CHR ''|'' \<notin> set (isoformat (tx_timestamp b))"
  shows "replay_payload a = replay_payload b \<longleftrightarrow>
    tx_user_id a = tx_user_id b \<and> format_fixed 2 (tx_amount a) = format_fixed 2 (tx_amount b) \<and>
    tx_merchant a = tx_merchant b \<and> isoformat (tx_timestamp a) = isoformat (tx_timestamp b) \<and>
    tx_location a = tx_location b"
  using assms by (simp add: replay_payload_def split_unique format_fixed_no_bar)

lemma detection_identity_inj:
  assumes "CHR '':'' \<notin> set dtype" "CHR '':'' \<notin> set dtype'"
    and "CHR '':'' \<notin> set scope" "CHR '':'' \<notin> set scope'"
  shows "detection_identity ref dtype scope = detection_identity ref' dtype' scope' \<longleftrightarrow>
    ref = ref' \<and> dtype = dtype' \<and> scope = scope'"
proof -
  have "detection_identity ref dtype scope = detection_identity ref' dtype' scope' \<longleftrightarrow>
      (ref @ CHR '':'' # dtype) @ CHR '':'' # scope = (ref' @ CHR '':'' # dtype') @ CHR '':'' # scope'"
    by (simp add: detection_identity_def)
  also have "\<dots> \<longleftrightarrow> ref @ CHR '':'' # dtype = ref' @ CHR '':'' # dtype' \<and> scope = scope'"
    using assms by (intro split_unique_last)
  also have "ref @ CHR '':'' # dtype = ref' @ CHR '':'' # dtype' \<longleftrightarrow> ref = ref' \<and> dtype = dtype'"
    using assms by (intro split_unique_last)
  finally show ?thesis by blast
qed

definition sample_time :: datetime where
  "sample_time = \<lparr>isoformat = ''2026-01-01T00:00:00+00:00'', timestamp = 1767225600\<rparr>"

definition sample_tx :: TransactionEvent where
  "sample_tx = \<lparr>tx_event_id = ''evt-1'', tx_user_id = ''user_1'', tx_amount = 10,
     tx_merchant = ''Amazon'', tx_timestamp = sample_time, tx_location = ''US-CA'',
     tx_latitude = 37, tx_longitude = -122\<rparr>"

text \<open>A stand-in for UUIDv5: 36 characters, the name padded or cut.\<close>

definition sample_uuid5 :: "string \<Rightarrow> string \<Rightarrow> string" where
  "sample_uuid5 ns x = take 36 (x @ replicate 36 (CHR ''0''))"

lemma length_sample_uuid5 [simp]: "length (sample_uuid5 ns x) = 36"
  by (simp add: sample_uuid5_def)

text \<open>
  The replay hash identifies a request: where SHA-256 does not collide on the two payloads and
  neither user id, merchant nor timestamp text contains the separator \<open>|\<close>, two transactions have
  the same hash exactly when they agree on user, printed amount, merchant, timestamp and location;
  in particular they agree to the cent.
\<close>

theorem replay_hash_identifies:
  assumes "inj_on sha256 {replay_payload a, replay_payload b}"
    and "\<forall>tx\<in>{a, b}. \<forall>s\<in>{tx_user_id tx, tx_merchant tx, isoformat (tx_timestamp tx)}. CHR ''|'' \<notin> set s"
  shows "(replay_hash sha256 a = replay_hash sha256 b \<longleftrightarrow>
      tx_user_id a = tx_user_id b \<and> format_fixed 2 (tx_amount a) = format_fixed 2 (tx_amount b) \<and>
      tx_merchant a = tx_merchant b \<and> isoformat (tx_timestamp a) = isoformat (tx_timestamp b) \<and>
      tx_location a = tx_location b) \<and>
    (replay_hash sha256 a = replay_hash sha256 b \<longrightarrow>
      round_half_even (tx_amount a * 10 ^ 2) = round_half_even (tx_amount b * 10 ^ 2))"
    (is "(_ \<longleftrightarrow> ?same) \<and> _")
proof -
  have "replay_hash sha256 a = replay_hash sha256 b \<longleftrightarrow> replay_payload a = replay_payload b"
    unfolding replay_hash_def by (rule inj_on_eq_iff [OF assms(1)]) simp_all
  also have "\<dots> \<longleftrightarrow> ?same"
    using assms(2) by (intro replay_payload_inj) simp_all
  finally show ?thesis using format_fixed_inj by blast
qed

theorem replay_hash_identifies_witness:
  "replay_hash (\<lambda>x. x) sample_tx \<noteq> replay_hash (\<lambda>x. x) (sample_tx\<lparr>tx_merchant := ''Stripe''\<rparr>)"
proof -
  have "replay_hash (\<lambda>x. x) sample_tx = replay_hash (\<lambda>x. x) (sample_tx\<lparr>tx_merchant := ''Stripe''\<rparr>) \<longleftrightarrow>
      tx_merchant sample_tx = ''Stripe'' \<and> True"
    by (subst replay_hash_identifies [THEN conjunct1]) (simp_all add: sample_tx_def sample_time_def)
  then show ?thesis by (simp add: sample_tx_def)
qed

text \<open>
  Without that condition the hash is ambiguous: two transactions of different users, with
  different amounts and merchants, have the same payload, so the second is reported as a replay of
  the first whatever the hash function.
\<close>

theorem replay_payload_ambiguous:
  "\<exists>a b. tx_user_id a \<noteq> tx_user_id b \<and> tx_amount a \<noteq> tx_amount b \<and> tx_merchant a \<noteq> tx_merchant b \<and>
     (\<forall>sha256. replay_hash sha256 a = replay_hash sha256 b)"
proof (intro exI conjI allI)
  let ?a = "sample_tx\<lparr>tx_user_id := ''u'', tx_amount := 1, tx_merchant := ''5.00|m''\<rparr>"
  let ?b = "sample_tx\<lparr>tx_user_id := ''u|1.00'', tx_amount := 5, tx_merchant := ''m''\<rparr>"
  have r: "round_half_even 100 = 100" "round_half_even 500 = 500"
    by (simp_all add: round_half_even_def)
  have d: "show_nat 1 = ''1''" "show_nat 5 = ''5''" "show_padded 2 0 = ''00''"
    by code_simp+
  show "replay_hash sha256 ?a = replay_hash sha256 ?b" for sha256
    using r d by (simp add: replay_hash_def replay_payload_def format_fixed_def)
qed (simp_all add: sample_tx_def)

text \<open>
  Stable detection ids identify detections: where the UUIDs have one length and UUIDv5 does not
  collide on the two names, two detections of colon-free type and scope have the same id only when
  they come from the same delivery, the same detector and the same scope.
\<close>

theorem stable_detection_id_identifies:
  assumes "\<forall>x. length (uuid5 DETECTION_ID_NS x) = 36"
    and "inj_on (uuid5 DETECTION_ID_NS)
      {detection_identity ref dtype scope, detection_identity ref' dtype' scope'}"
    and "\<forall>s\<in>{dtype, dtype', scope, scope'}. CHR '':'' \<notin> set s"
    and "stable_detection_id uuid5 pfx ref dtype scope = stable_detection_id uuid5 pfx' ref' dtype' scope'"
  shows "ref = ref' \<and> dtype = dtype' \<and> scope = scope'"
proof -
  have "uuid5 DETECTION_ID_NS (detection_identity ref dtype scope) =
      uuid5 DETECTION_ID_NS (detection_identity ref' dtype' scope')"
    using assms(1,4) append_eq_append_conv [of "uuid5 DETECTION_ID_NS _" "uuid5 DETECTION_ID_NS _"
        "''det-'' @ pfx @ ''-''" "''det-'' @ pfx' @ ''-''"]
    by (simp add: stable_detection_id_def)
  then have "detection_identity ref dtype scope = detection_identity ref' dtype' scope'"
    by (rule inj_onD [OF assms(2)]) simp_all
  then show ?thesis
    by (rule detection_identity_inj [THEN iffD1, rotated 4]) (use assms(3) in simp_all)
qed

theorem stable_detection_id_identifies_witness:
  "stable_detection_id sample_uuid5 ''replay'' ''t:0:1'' ''replay_attack'' [] \<noteq>
   stable_detection_id sample_uuid5 ''replay'' ''t:0:2'' ''replay_attack'' []"
proof
  assume eq: "stable_detection_id sample_uuid5 ''replay'' ''t:0:1'' ''replay_attack'' [] =
         stable_detection_id sample_uuid5 ''replay'' ''t:0:2'' ''replay_attack'' []"
  have "''t:0:1'' = ''t:0:2'' \<and> ''replay_attack'' = ''replay_attack'' \<and> [] = ([] :: string)"
    by (rule stable_detection_id_identifies [OF _ _ _ eq])
      (simp_all add: length_sample_uuid5, simp_all add: sample_uuid5_def inj_on_def detection_identity_def)
  then show False by simp
qed

end
