(* ===== verification/Enforcement.thy ===== *)
theory Enforcement
  imports Redis Models
begin

text \<open>
  \<open>common/enforcement.py\<close>: the key layout of the enforcement rules, the reads the detection engine
  and the API make of them, and \<open>list_rules\<close>. A family of keys is an interface of its own
  (locale \<open>key_family\<close>): a rule written under the key of one subject is seen under that subject's
  key and under no other key of the family, and keys outside the family are not affected.
\<close>

definition QUARANTINE_KEY_PREFIX :: string where
  "QUARANTINE_KEY_PREFIX = ''enforce:quarantine:user:''"

definition STEP_UP_KEY_PREFIX :: string where
  "STEP_UP_KEY_PREFIX = ''enforce:step_up:user:''"

definition IP_BLOCK_KEY_PREFIX :: string where
  "IP_BLOCK_KEY_PREFIX = ''block:ip:''"

definition sanitize_ip_for_key :: "string \<Rightarrow> string" where
  "sanitize_ip_for_key ip = replace_char (CHR '':'') (CHR ''-'') ip"

definition quarantine_key :: "string \<Rightarrow> string" where
  "quarantine_key user_id = QUARANTINE_KEY_PREFIX @ user_id"

definition step_up_key :: "string \<Rightarrow> string" where
  "step_up_key user_id = STEP_UP_KEY_PREFIX @ user_id"

definition ip_block_key :: "string \<Rightarrow> string" where
  "ip_block_key ip = IP_BLOCK_KEY_PREFIX @ sanitize_ip_for_key ip"

text \<open>Python's truth value of a reply.\<close>

fun truthy :: "reply \<Rightarrow> bool" where
  "truthy RNil = False"
| "truthy ROk = True"
| "truthy (RInt i) = (i \<noteq> 0)"
| "truthy (RBulk s) = (s \<noteq> [])"
| "truthy (RNums xs) = (xs \<noteq> [])"
| "truthy (RKeys xs) = (xs \<noteq> [])"
| "truthy (RMulti xs) = (xs \<noteq> [])"

definition is_user_quarantined :: "'r redis \<Rightarrow> string \<Rightarrow> ('r, bool) action" where
  "is_user_quarantined rc user_id = bindE (rc (EXISTS (quarantine_key user_id))) (\<lambda>r. ret (truthy r))"

definition is_ip_blocked :: "'r redis \<Rightarrow> string \<Rightarrow> ('r, bool) action" where
  "is_ip_blocked rc ip = bindE (rc (EXISTS (ip_block_key ip))) (\<lambda>r. ret (truthy r))"

definition is_step_up_pending :: "'r redis \<Rightarrow> string \<Rightarrow> ('r, bool) action" where
  "is_step_up_pending rc user_id = bindE (rc (EXISTS (step_up_key user_id))) (\<lambda>r. ret (truthy r))"

subsection \<open>Listing the rules\<close>

record rule =
  subject_field :: string
  rule_subject :: string
  rule_key :: string
  ttl_seconds :: reply
  set_by :: reply

record rules_report =
  rule_groups :: "(string \<times> rule list) list"
  rule_count :: nat

definition RULE_GROUPS :: "(string \<times> string \<times> string) list" where
  "RULE_GROUPS =
     [(''quarantines'', QUARANTINE_KEY_PREFIX, ''user_id''),
      (''step_ups'', STEP_UP_KEY_PREFIX, ''user_id''),
      (''ip_blocks'', IP_BLOCK_KEY_PREFIX, ''ip'')]"

fun keys_of :: "reply \<Rightarrow> string list" where
  "keys_of (RKeys xs) = xs"
| "keys_of _ = []"

definition subject_of_key :: "string \<Rightarrow> string \<Rightarrow> string \<Rightarrow> string" where
  "subject_of_key pfx sf key =
     (let subject = drop (length pfx) key
      in if sf = ''ip'' \<and> CHR ''-'' \<in> set subject
         then replace_char (CHR ''-'') (CHR '':'') subject else subject)"

definition rule_of_key :: "string \<Rightarrow> string \<Rightarrow> reply list \<Rightarrow> nat \<times> string \<Rightarrow> rule" where
  "rule_of_key pfx sf flat ik = (case ik of (i, key) \<Rightarrow>
     \<lparr>subject_field = sf, rule_subject = subject_of_key pfx sf key, rule_key = key,
      ttl_seconds = flat ! (2 * i), set_by = flat ! (2 * i + 1)\<rparr>)"

definition list_group :: "'r redis \<Rightarrow> string \<times> string \<times> string \<Rightarrow> ('r, string \<times> rule list) action" where
  "list_group rc g = (case g of (name, pfx, sf) \<Rightarrow>
     bindE (rc (SCAN pfx)) (\<lambda>r. let keys = keys_of r in
     bindE (pipe_execute (concat (map (\<lambda>key. [rc (TTL key), rc (GET key)]) keys))) (\<lambda>flat.
     ret (name, map (rule_of_key pfx sf flat) (List.enumerate 0 keys)))))"

definition list_rules :: "'r redis \<Rightarrow> ('r, rules_report) action" where
  "list_rules rc =
     bindE (mapE (list_group rc) RULE_GROUPS) (\<lambda>gs.
     ret \<lparr>rule_groups = gs, rule_count = sum_list (map (\<lambda>(_, rs). length rs) gs)\<rparr>)"

declare QUARANTINE_KEY_PREFIX_def [key_defs] STEP_UP_KEY_PREFIX_def [key_defs]
  IP_BLOCK_KEY_PREFIX_def [key_defs] quarantine_key_def [key_defs] step_up_key_def [key_defs]
  ip_block_key_def [key_defs]

subsection \<open>Key families\<close>

locale key_family =
  fixes key :: "'a \<Rightarrow> string"
    and pfx :: string
    and admissible :: "'a \<Rightarrow> bool"
  assumes key_prefix: "prefix pfx (key x)"
    and key_inj: "admissible x \<Longrightarrow> admissible y \<Longrightarrow> key x = key y \<Longrightarrow> x = y"
begin

lemma set_seen:
  "0 < t \<Longrightarrow> admissible x \<Longrightarrow> admissible y \<Longrightarrow>
   live (snd (kv_step (SET_EX (key x) v t) m)) (key y) \<longleftrightarrow> x = y \<or> live m (key y)"
  using key_inj by (auto simp: kv_simps)

lemma del_seen:
  "admissible x \<Longrightarrow> admissible y \<Longrightarrow>
   live (snd (kv_step (DEL [key x]) m)) (key y) \<longleftrightarrow> x \<noteq> y \<and> live m (key y)"
  using key_inj by (auto simp: kv_simps)

lemma del_reply:
  "fst (kv_step (DEL [key x]) m) = Inr (RInt (if live m (key x) then 1 else 0))"
  by (simp add: kv_simps)

lemma outside: "\<not> prefix pfx k \<Longrightarrow> key x \<noteq> k"
  using key_prefix by blast

lemma disjoint:
  assumes "\<not> prefix pfx q" "\<not> prefix q pfx" "prefix q k"
  shows "key x \<noteq> k"
  using assms key_prefix [of x] prefix_same_cases by blast

end

interpretation quarantine: key_family quarantine_key QUARANTINE_KEY_PREFIX "\<lambda>_. True"
  by unfold_locales (auto simp: quarantine_key_def)

interpretation step_up: key_family step_up_key STEP_UP_KEY_PREFIX "\<lambda>_. True"
  by unfold_locales (auto simp: step_up_key_def)

interpretation ip_block: key_family ip_block_key IP_BLOCK_KEY_PREFIX "\<lambda>ip. CHR ''-'' \<notin> set ip"
  by unfold_locales (auto simp: ip_block_key_def sanitize_ip_for_key_def replace_char_inj)

lemma rule_keys_distinct [simp]:
  "quarantine_key u \<noteq> step_up_key v" "step_up_key v \<noteq> quarantine_key u"
  "quarantine_key u \<noteq> ip_block_key i" "ip_block_key i \<noteq> quarantine_key u"
  "step_up_key u \<noteq> ip_block_key i" "ip_block_key i \<noteq> step_up_key u"
  by (simp_all add: key_defs)

lemma rule_keys_inj [simp]:
  "quarantine_key u = quarantine_key v \<longleftrightarrow> u = v" "step_up_key u = step_up_key v \<longleftrightarrow> u = v"
  by (simp_all add: key_defs)

subsection \<open>Reading the rules\<close>

text \<open>The three reads answer whether the rule's key lives, and change nothing.\<close>

lemma is_live_kv:
  "is_user_quarantined kv_step u m = (Inr (live m (quarantine_key u)), m)"
  "is_ip_blocked kv_step i m = (Inr (live m (ip_block_key i)), m)"
  "is_step_up_pending kv_step u m = (Inr (live m (step_up_key u)), m)"
  by (simp_all add: is_user_quarantined_def is_ip_blocked_def is_step_up_pending_def action_simps kv_simps)

context redis_up
begin

lemma sim_reads:
  "sim (\<lambda>s. ks (obs s)) (is_user_quarantined rc u) (is_user_quarantined kv_step u)"
  "sim (\<lambda>s. ks (obs s)) (is_ip_blocked rc i) (is_ip_blocked kv_step i)"
  "sim (\<lambda>s. ks (obs s)) (is_step_up_pending rc u) (is_step_up_pending kv_step u)"
  unfolding is_user_quarantined_def is_ip_blocked_def is_step_up_pending_def
  by (intro sim_intros; simp)+

lemma rules_read:
  "fst (is_user_quarantined rc u s) = Inr (live (ks (obs s)) (quarantine_key u))"
  "fst (is_ip_blocked rc i s) = Inr (live (ks (obs s)) (ip_block_key i))"
  "fst (is_step_up_pending rc u s) = Inr (live (ks (obs s)) (step_up_key u))"
  using sim_reads [THEN simD(1)] by (simp_all add: is_live_kv)

end

lemma subject_of_rule_key:
  "subject_of_key QUARANTINE_KEY_PREFIX ''user_id'' (quarantine_key u) = u"
  "subject_of_key STEP_UP_KEY_PREFIX ''user_id'' (step_up_key u) = u"
  "CHR ''-'' \<notin> set ip \<Longrightarrow> subject_of_key IP_BLOCK_KEY_PREFIX ''ip'' (ip_block_key ip) = ip"
proof -
  assume ip: "CHR ''-'' \<notin> set ip"
  show "subject_of_key IP_BLOCK_KEY_PREFIX ''ip'' (ip_block_key ip) = ip"
  proof (cases "CHR '':'' \<in> set ip")
    case True
    then have "CHR ''-'' \<in> set (sanitize_ip_for_key ip)"
      by (force simp: sanitize_ip_for_key_def replace_char_def)
    with ip show ?thesis
      by (simp add: subject_of_key_def ip_block_key_def Let_def sanitize_ip_for_key_def replace_char_back)
  next
    case False
    with ip show ?thesis
      by (simp add: subject_of_key_def ip_block_key_def Let_def sanitize_ip_for_key_def replace_char_absent)
  qed
qed (simp_all add: subject_of_key_def quarantine_key_def step_up_key_def Let_def)

subsection \<open>The listing is complete and exact\<close>

text \<open>What Redis shows of a rule, and the report entry it stands for.\<close>

definition rule_value :: "keyspace \<Rightarrow> string \<Rightarrow> string" where
  "rule_value m k = (case fmlookup m k of
     Some e \<Rightarrow> (case e_val e of RStr v \<Rightarrow> v | _ \<Rightarrow> []) | None \<Rightarrow> [])"

definition remaining :: "keyspace \<Rightarrow> string \<Rightarrow> int" where
  "remaining m k = (case fmlookup m k of
     Some e \<Rightarrow> (case e_ttl e of None \<Rightarrow> -1 | Some t \<Rightarrow> t) | None \<Rightarrow> -2)"

definition rule_view :: "keyspace \<Rightarrow> string \<Rightarrow> string \<Rightarrow> string \<Rightarrow> rule" where
  "rule_view m pfx sf k =
     \<lparr>subject_field = sf, rule_subject = subject_of_key pfx sf k, rule_key = k,
      ttl_seconds = RInt (remaining m k), set_by = RBulk (rule_value m k)\<rparr>"

definition texts_under :: "keyspace \<Rightarrow> string \<Rightarrow> bool" where
  "texts_under m pfx \<longleftrightarrow> (\<forall>k e. fmlookup m k = Some e \<longrightarrow> prefix pfx k \<longrightarrow> (\<exists>v. e_val e = RStr v))"

lemma nth_concat_pairs:
  "i < length xs \<Longrightarrow> concat (map (\<lambda>x. [f x, g x]) xs) ! (2 * i) = f (xs ! i)"
  "i < length xs \<Longrightarrow> concat (map (\<lambda>x. [f x, g x]) xs) ! (2 * i + 1) = g (xs ! i)"
proof (induction xs arbitrary: i)
  case (Cons x xs)
  { case 1 with Cons.IH show ?case by (cases i) auto
  next case 2 with Cons.IH show ?case by (cases i) auto }
qed simp_all

lemma mapE_ttl_get:
  assumes "texts_under m pfx" and "\<forall>k\<in>set keys. k \<in> fmdom' m \<and> prefix pfx k"
  shows "pipe_execute (concat (map (\<lambda>k. [kv_step (TTL k), kv_step (GET k)]) keys)) m =
    (Inr (concat (map (\<lambda>k. [RInt (remaining m k), RBulk (rule_value m k)]) keys)), m)"
proof (rule pipe_execute_ok, use assms(2) in \<open>induction keys\<close>)
  case (Cons k keys)
  then obtain e v where e: "fmlookup m k = Some e" "e_val e = RStr v"
    using assms(1) by (fastforce simp: texts_under_def fmlookup_dom'_iff)
  with Cons show ?case
    by (simp add: action_simps kv_simps remaining_def rule_value_def)
qed (simp add: ret_def)

lemma rules_of_flat:
  assumes "flat = concat (map (\<lambda>k. [RInt (remaining m k), RBulk (rule_value m k)]) keys)"
  shows "map (rule_of_key pfx sf flat) (List.enumerate 0 keys) = map (rule_view m pfx sf) keys"
proof (rule nth_equalityI)
  fix i
  assume "i < length (map (rule_of_key pfx sf flat) (List.enumerate 0 keys))"
  then have i: "i < length keys" by simp
  show "map (rule_of_key pfx sf flat) (List.enumerate 0 keys) ! i = map (rule_view m pfx sf) keys ! i"
    using i nth_concat_pairs [OF i, of "\<lambda>k. RInt (remaining m k)" "\<lambda>k. RBulk (rule_value m k)"]
    by (simp add: nth_enumerate_eq rule_of_key_def rule_view_def assms)
qed simp

context redis_up
begin

lemma list_group_view:
  assumes "texts_under (ks (obs s)) pfx"
  shows "\<exists>keys s'. list_group rc (name, pfx, sf) s =
      (Inr (name, map (rule_view (ks (obs s)) pfx sf) keys), s') \<and> ks (obs s') = ks (obs s) \<and>
      set keys = {k. live (ks (obs s)) k \<and> prefix pfx k}"
proof -
  obtain r t where rt: "rc (SCAN pfx) s = (r, t)" by (cases "rc (SCAN pfx) s")
  with up [of "SCAN pfx" s] obtain keys where r: "r = Inr (RKeys keys)" and t: "obs t = obs s"
    and keys: "set keys = {k \<in> fmdom' (ks (obs s)). prefix pfx k}"
    by (auto simp: redis_replies_def)
  let ?cmds = "\<lambda>c. concat (map (\<lambda>k. [c (TTL k), c (GET k)]) keys)"
  have "list_all2 (sim (\<lambda>s. ks (obs s))) (?cmds rc) (?cmds kv_step)"
    by (induction keys) (auto intro!: sim_kv)
  then have sim: "sim (\<lambda>s. ks (obs s)) (pipe_execute (?cmds rc)) (pipe_execute (?cmds kv_step))"
    by (rule sim_pipe_execute)
  have kv: "pipe_execute (?cmds kv_step) (ks (obs t)) =
      (Inr (concat (map (\<lambda>k. [RInt (remaining (ks (obs s)) k), RBulk (rule_value (ks (obs s)) k)]) keys)),
       ks (obs s))"
    using assms keys t by (subst mapE_ttl_get [of _ pfx]) auto
  obtain flat t' where ft: "pipe_execute (?cmds rc) t = (Inr flat, t')" "ks (obs t') = ks (obs s)"
    and flat: "flat = concat (map (\<lambda>k. [RInt (remaining (ks (obs s)) k), RBulk (rule_value (ks (obs s)) k)]) keys)"
    using simD [OF sim, of t] kv by (cases "pipe_execute (?cmds rc) t") auto
  have "list_group rc (name, pfx, sf) s =
      (Inr (name, map (rule_view (ks (obs s)) pfx sf) keys), t')"
    using rt r ft by (simp add: list_group_def bindE_def ret_def rules_of_flat [OF flat])
  then show ?thesis using ft(2) keys by (auto simp: fmlookup_dom'_iff)
qed

end

text \<open>
  \<open>list_rules\<close> reports exactly the enforcement rules that are active: against a server that is
  up and holds texts under the three rule prefixes it returns the three groups; the keys of a group
  are the live keys of its prefix (SCAN may repeat one), each entry carries the time to live and the
  setter Redis shows for its key, the count is the number of entries, and nothing is changed.
\<close>

theorem list_rules_reports_active:
  assumes "redis_up rc obs"
    and "\<forall>(name, pfx, sf)\<in>set RULE_GROUPS. texts_under (ks (obs s)) pfx"
  shows "\<exists>qs us is s'. list_rules rc s =
      (Inr \<lparr>rule_groups = [(''quarantines'', map (rule_view (ks (obs s)) QUARANTINE_KEY_PREFIX ''user_id'') qs),
           (''step_ups'', map (rule_view (ks (obs s)) STEP_UP_KEY_PREFIX ''user_id'') us),
           (''ip_blocks'', map (rule_view (ks (obs s)) IP_BLOCK_KEY_PREFIX ''ip'') is)],
         rule_count = length qs + length us + length is\<rparr>, s') \<and>
      ks (obs s') = ks (obs s) \<and>
      set qs = {k. live (ks (obs s)) k \<and> prefix QUARANTINE_KEY_PREFIX k} \<and>
      set us = {k. live (ks (obs s)) k \<and> prefix STEP_UP_KEY_PREFIX k} \<and>
      set is = {k. live (ks (obs s)) k \<and> prefix IP_BLOCK_KEY_PREFIX k}"
proof -
  note group = redis_up.list_group_view [OF assms(1)]
  have tx: "texts_under (ks (obs s)) QUARANTINE_KEY_PREFIX" "texts_under (ks (obs s)) STEP_UP_KEY_PREFIX"
    "texts_under (ks (obs s)) IP_BLOCK_KEY_PREFIX"
    using assms(2) by (auto simp: RULE_GROUPS_def)
  from group [OF tx(1), of "''quarantines''" "''user_id''"] obtain qs s1 where
    1: "list_group rc (''quarantines'', QUARANTINE_KEY_PREFIX, ''user_id'') s =
      (Inr (''quarantines'', map (rule_view (ks (obs s)) QUARANTINE_KEY_PREFIX ''user_id'') qs), s1)"
      "ks (obs s1) = ks (obs s)" "set qs = {k. live (ks (obs s)) k \<and> prefix QUARANTINE_KEY_PREFIX k}"
    by blast
  from group [of s1 STEP_UP_KEY_PREFIX "''step_ups''" "''user_id''"] tx(2) 1(2) obtain us s2 where
    2: "list_group rc (''step_ups'', STEP_UP_KEY_PREFIX, ''user_id'') s1 =
      (Inr (''step_ups'', map (rule_view (ks (obs s)) STEP_UP_KEY_PREFIX ''user_id'') us), s2)"
      "ks (obs s2) = ks (obs s)" "set us = {k. live (ks (obs s)) k \<and> prefix STEP_UP_KEY_PREFIX k}"
    by auto
  from group [of s2 IP_BLOCK_KEY_PREFIX "''ip_blocks''" "''ip''"] tx(3) 2(2) obtain ips s3 where
    3: "list_group rc (''ip_blocks'', IP_BLOCK_KEY_PREFIX, ''ip'') s2 =
      (Inr (''ip_blocks'', map (rule_view (ks (obs s)) IP_BLOCK_KEY_PREFIX ''ip'') ips), s3)"
      "ks (obs s3) = ks (obs s)" "set ips = {k. live (ks (obs s)) k \<and> prefix IP_BLOCK_KEY_PREFIX k}"
    by auto
  have "list_rules rc s = (Inr \<lparr>rule_groups =
        [(''quarantines'', map (rule_view (ks (obs s)) QUARANTINE_KEY_PREFIX ''user_id'') qs),
         (''step_ups'', map (rule_view (ks (obs s)) STEP_UP_KEY_PREFIX ''user_id'') us),
         (''ip_blocks'', map (rule_view (ks (obs s)) IP_BLOCK_KEY_PREFIX ''ip'') ips)],
       rule_count = length qs + length us + length ips\<rparr>, s3)"
    using 1(1) 2(1) 3(1) by (simp add: list_rules_def RULE_GROUPS_def bindE_def ret_def)
  with 1(3) 2(3) 3(2,3) show ?thesis by blast
qed

definition sample_rules :: keyspace where
  "sample_rules =
     fmupd (quarantine_key ''user_1'') (mk_entry (RStr ''det-replay-1'') (Some 3600))
       (fmupd (ip_block_key ''2001:db8::1'') (mk_entry (RStr ''api:manual'') (Some 60)) fmempty)"

lemma rule_prefixes:
  "prefix QUARANTINE_KEY_PREFIX (quarantine_key u)" "\<not> prefix STEP_UP_KEY_PREFIX (quarantine_key u)"
  "\<not> prefix IP_BLOCK_KEY_PREFIX (quarantine_key u)"
  "prefix IP_BLOCK_KEY_PREFIX (ip_block_key i)" "\<not> prefix STEP_UP_KEY_PREFIX (ip_block_key i)"
  "\<not> prefix QUARANTINE_KEY_PREFIX (ip_block_key i)"
  by (simp_all add: key_defs)

lemma sample_rules_texts: "texts_under sample_rules p"
  by (auto simp: texts_under_def sample_rules_def split: if_splits)

lemma sample_rules_live:
  "{k. live sample_rules k \<and> prefix QUARANTINE_KEY_PREFIX k} = {quarantine_key ''user_1''}"
  "{k. live sample_rules k \<and> prefix STEP_UP_KEY_PREFIX k} = {}"
  "{k. live sample_rules k \<and> prefix IP_BLOCK_KEY_PREFIX k} = {ip_block_key ''2001:db8::1''}"
proof -
  have live: "live sample_rules k \<longleftrightarrow> k = quarantine_key ''user_1'' \<or> k = ip_block_key ''2001:db8::1''" for k
    by (auto simp: sample_rules_def)
  show "{k. live sample_rules k \<and> prefix QUARANTINE_KEY_PREFIX k} = {quarantine_key ''user_1''}"
    "{k. live sample_rules k \<and> prefix STEP_UP_KEY_PREFIX k} = {}"
    "{k. live sample_rules k \<and> prefix IP_BLOCK_KEY_PREFIX k} = {ip_block_key ''2001:db8::1''}"
    unfolding live by (auto simp: rule_prefixes)
qed

theorem list_rules_reports_active_witness:
  "\<exists>qs us is s'. list_rules redis_step \<lparr>ks = sample_rules, watched = [], touched = False\<rparr> =
      (Inr \<lparr>rule_groups = [(''quarantines'', map (rule_view sample_rules QUARANTINE_KEY_PREFIX ''user_id'') qs),
           (''step_ups'', map (rule_view sample_rules STEP_UP_KEY_PREFIX ''user_id'') us),
           (''ip_blocks'', map (rule_view sample_rules IP_BLOCK_KEY_PREFIX ''ip'') is)],
         rule_count = length qs + length us + length is\<rparr>, s') \<and>
      ks s' = sample_rules \<and>
      set qs = {quarantine_key ''user_1''} \<and> set us = {} \<and> set is = {ip_block_key ''2001:db8::1''}"
proof -
  let ?s = "\<lparr>ks = sample_rules, watched = [], touched = False\<rparr>"
  have "\<forall>(name, pfx, sf)\<in>set RULE_GROUPS. texts_under (ks ?s) pfx"
    by (auto simp: sample_rules_texts)
  from list_rules_reports_active [OF mem.redis_up_axioms this] show ?thesis
    by (simp only: conn.select_convs sample_rules_live)
qed

end
