(* ===== verification/LuaScripts.thy ===== *)
theory LuaScripts
  imports Enforcement
begin

text \<open>
  The two scripts the detection engine runs inside Redis, \<open>lua/tx_check.lua\<close> and
  \<open>lua/auth_check.lua\<close>, with the Haversine distance both languages compute. A script is a
  sequence of Redis commands of one client. Numbers in script arguments and results, which travel
  as decimal texts, are represented by the numbers they denote; \<open>fmt\<close> is the value left by the
  \<open>%.3f\<close> format. An absent previous location is the empty text in Lua and \<open>None\<close> here.
\<close>

subsection \<open>Distance\<close>

definition EARTH_RADIUS_KM :: real where
  "EARTH_RADIUS_KM = 6371"

text \<open>\<open>haversine_km\<close> of \<open>lua/tx_check.lua\<close>.\<close>

definition haversine_km_lua :: "real \<Rightarrow> real \<Rightarrow> real \<Rightarrow> real \<Rightarrow> real" where
  "haversine_km_lua lat1 lon1 lat2 lon2 =
     (let rad = pi / 180;
          dphi = (lat2 - lat1) * rad;
          dl = (lon2 - lon1) * rad;
          a = sin (dphi / 2) ^ 2 + cos (lat1 * rad) * cos (lat2 * rad) * sin (dl / 2) ^ 2;
          a' = (if 1 < a then 1 else a)
      in 2 * EARTH_RADIUS_KM * arcsin (sqrt a'))"

text \<open>\<open>haversine_km\<close> of \<open>detection_engine/geo_velocity_detector.py\<close>.\<close>

definition radians :: "real \<Rightarrow> real" where
  "radians x = x * (pi / 180)"

definition haversine_arg :: "real \<Rightarrow> real \<Rightarrow> real \<Rightarrow> real \<Rightarrow> real" where
  "haversine_arg lat1 lon1 lat2 lon2 =
     (let phi1 = radians lat1; phi2 = radians lat2;
          dphi = radians (lat2 - lat1); dlambda = radians (lon2 - lon1)
      in sin (dphi / 2) ^ 2 + cos phi1 * cos phi2 * sin (dlambda / 2) ^ 2)"

definition haversine_km :: "real \<Rightarrow> real \<Rightarrow> real \<Rightarrow> real \<Rightarrow> real" where
  "haversine_km lat1 lon1 lat2 lon2 =
     2 * EARTH_RADIUS_KM * arcsin (sqrt (min (haversine_arg lat1 lon1 lat2 lon2) 1))"

subsection \<open>Windows\<close>

fun as_int :: "reply \<Rightarrow> int" where
  "as_int (RInt i) = i"
| "as_int _ = 0"

text \<open>Trim, add, count, refresh: the window maintenance both scripts do on a sorted set.\<close>

definition window_step :: "'r redis \<Rightarrow> string \<Rightarrow> real \<Rightarrow> real \<Rightarrow> string \<Rightarrow> int \<Rightarrow> ('r, int) action" where
  "window_step rc key cutoff now event_id ttl =
     bindE (rc (ZREMRANGEBYSCORE key cutoff)) (\<lambda>_.
     bindE (rc (ZADD key now event_id)) (\<lambda>_.
     bindE (rc (ZCARD key)) (\<lambda>n.
     bindE (rc (EXPIRE key ttl)) (\<lambda>_.
     ret (as_int n)))))"

text \<open>\<open>lua/auth_check.lua\<close>: the user's window, then the address's.\<close>

definition auth_check ::
  "'r redis \<Rightarrow> string \<times> string \<Rightarrow> string \<Rightarrow> real \<Rightarrow> real \<Rightarrow> int \<Rightarrow> ('r, int \<times> int) action" where
  "auth_check rc keys event_id now_ts cutoff key_ttl_s =
     bindE (window_step rc (fst keys) cutoff now_ts event_id key_ttl_s) (\<lambda>count_user.
     bindE (window_step rc (snd keys) cutoff now_ts event_id key_ttl_s) (\<lambda>count_ip.
     ret (count_user, count_ip)))"

subsection \<open>The transaction check\<close>

record tx_keys =
  k_replay :: string
  k_burst :: string
  k_session :: string

record tx_args =
  a_record_ref :: string
  a_replay_ttl_s :: int
  a_event_id :: string
  a_now_ts :: real
  a_burst_cutoff :: real
  a_burst_key_ttl_s :: int
  a_latitude :: real
  a_longitude :: real
  a_session_ttl_s :: int
  a_max_velocity_kmh :: real
  a_min_time_s :: real

record tx_result =
  replay_status :: string
  stored_ref :: string
  burst_count :: int
  geo_status :: string
  distance_km :: real
  elapsed_s :: real
  velocity_kmh :: real
  prev_lat :: "real option"
  prev_lon :: "real option"

definition fmt :: "real \<Rightarrow> real" where
  "fmt x = of_int (round_half_even (x * 1000)) / 1000"

definition DECISION_REF_PREFIX :: string where
  "DECISION_REF_PREFIX = ''decision:''"

definition replay_status_of :: "string \<Rightarrow> string \<Rightarrow> string \<Rightarrow> string" where
  "replay_status_of stored record_ref event_id =
     (if stored = record_ref then ''redelivery''
      else if stored = DECISION_REF_PREFIX @ event_id then ''prescored''
      else ''replay'')"

text \<open>Part 1 of the script: the replay key.\<close>

definition replay_check :: "'r redis \<Rightarrow> string \<Rightarrow> tx_args \<Rightarrow> ('r, string \<times> string) action" where
  "replay_check rc key a =
     bindE (rc (SET_NX_EX key (a_record_ref a) (a_replay_ttl_s a))) (\<lambda>set_ok.
     if truthy set_ok then ret (''first'', a_record_ref a)
     else bindE (rc (GET key)) (\<lambda>g.
          let stored = (case g of RBulk v \<Rightarrow> v | _ \<Rightarrow> [])
          in ret (replay_status_of stored (a_record_ref a) (a_event_id a), stored)))"

text \<open>
  Part 3 of the script, the arithmetic: status, distance, elapsed time, velocity and previous
  location, given the stored session fields.
\<close>

definition geo_check :: "tx_args \<Rightarrow> real option list \<Rightarrow>
    string \<times> real \<times> real \<times> real \<times> real option \<times> real option" where
  "geo_check a s =
     (case s of
        [Some slat, Some slon, Some sts] \<Rightarrow>
          (let elapsed = a_now_ts a - sts
           in if elapsed < 0 then (''out_of_order'', 0, elapsed, 0, Some slat, Some slon)
              else (let km = haversine_km_lua slat slon (a_latitude a) (a_longitude a);
                        hours = max elapsed (a_min_time_s a) / 3600;
                        vel = km / hours
                    in (if a_max_velocity_kmh a < vel then ''anomaly'' else ''ok'',
                        km, elapsed, vel, Some slat, Some slon)))
      | _ \<Rightarrow> (''baseline'', 0, 0, 0, None, None))"

fun as_nums :: "reply \<Rightarrow> real option list" where
  "as_nums (RNums xs) = xs"
| "as_nums _ = []"

definition session_write :: "'r redis \<Rightarrow> string \<Rightarrow> tx_args \<Rightarrow> ('r, unit) action" where
  "session_write rc key a =
     bindE (rc (HSET key [(''lat'', a_latitude a), (''lon'', a_longitude a), (''ts'', a_now_ts a)])) (\<lambda>_.
     bindE (rc (EXPIRE key (a_session_ttl_s a))) (\<lambda>_. ret ()))"

definition prescored_result :: "string \<Rightarrow> tx_result" where
  "prescored_result stored = \<lparr>replay_status = ''prescored'', stored_ref = stored, burst_count = 0,
     geo_status = ''skipped'', distance_km = 0, elapsed_s = 0, velocity_kmh = 0,
     prev_lat = None, prev_lon = None\<rparr>"

definition tx_check :: "'r redis \<Rightarrow> tx_keys \<Rightarrow> tx_args \<Rightarrow> ('r, tx_result) action" where
  "tx_check rc k a =
     bindE (replay_check rc (k_replay k) a) (\<lambda>(status, stored).
     if status = ''prescored'' then ret (prescored_result stored)
     else
       bindE (window_step rc (k_burst k) (a_burst_cutoff a) (a_now_ts a) (a_event_id a)
                (a_burst_key_ttl_s a)) (\<lambda>count.
       bindE (rc (HMGET (k_session k) [''lat'', ''lon'', ''ts''])) (\<lambda>s.
       case geo_check a (as_nums s) of (geo, km, elapsed, vel, plat, plon) \<Rightarrow>
       bindE (if geo = ''baseline'' \<or> geo = ''ok'' then session_write rc (k_session k) a else ret ()) (\<lambda>_.
       ret \<lparr>replay_status = status, stored_ref = stored, burst_count = count, geo_status = geo,
            distance_km = fmt km, elapsed_s = fmt elapsed, velocity_kmh = fmt vel,
            prev_lat = plat, prev_lon = plon\<rparr>))))"

subsection \<open>The distance is the great-circle distance\<close>

text \<open>The cosine of the central angle, by the spherical law of cosines.\<close>

definition central_cos :: "real \<Rightarrow> real \<Rightarrow> real \<Rightarrow> real \<Rightarrow> real" where
  "central_cos lat1 lon1 lat2 lon2 =
     sin (radians lat1) * sin (radians lat2) +
     cos (radians lat1) * cos (radians lat2) * cos (radians (lon2 - lon1))"

lemma radians_diff: "radians (x - y) = radians x - radians y"
  by (simp add: radians_def left_diff_distrib diff_divide_distrib)

lemma haversine_arg_cos:
  "haversine_arg lat1 lon1 lat2 lon2 = (1 - central_cos lat1 lon1 lat2 lon2) / 2"
proof -
  have half: "sin (x / 2) ^ 2 = (1 - cos x) / 2" for x :: real
    using cos_double_sin [of "x / 2"] by simp
  have ring: "(1 - (c2 * c1 + s2 * s1)) / 2 + c1 * c2 * ((1 - e) / 2) = (1 - (s1 * s2 + c1 * c2 * e)) / 2"
    for c1 c2 s1 s2 e :: real by (simp add: field_simps)
  show ?thesis
    unfolding haversine_arg_def central_cos_def Let_def half radians_diff [of lat2 lat1] cos_diff
    by (rule ring)
qed

lemma central_cos_bound: "\<bar>central_cos lat1 lon1 lat2 lon2\<bar> \<le> 1"
proof -
  define a b c d e where "a = sin (radians lat1)" and "b = sin (radians lat2)"
    and "c = cos (radians lat1)" and "d = cos (radians lat2)" and "e = cos (radians (lon2 - lon1))"
  have norm: "a\<^sup>2 + c\<^sup>2 = 1" "b\<^sup>2 + d\<^sup>2 = 1"
    by (simp_all add: a_def b_def c_def d_def)
  have am: "2 * \<bar>a * b\<bar> \<le> a\<^sup>2 + b\<^sup>2" "2 * \<bar>c * d\<bar> \<le> c\<^sup>2 + d\<^sup>2"
    using sum_squares_bound [of "\<bar>a\<bar>" "\<bar>b\<bar>"] sum_squares_bound [of "\<bar>c\<bar>" "\<bar>d\<bar>"]
    by (simp_all add: abs_mult mult.assoc)
  have "\<bar>c * d * e\<bar> \<le> \<bar>c * d\<bar>"
    using abs_cos_le_one [of "radians (lon2 - lon1)"]
    by (simp add: e_def abs_mult mult_left_le)
  then have "\<bar>a * b + c * d * e\<bar> \<le> 1"
    using norm am by linarith
  then show ?thesis by (simp add: central_cos_def a_def b_def c_def d_def e_def)
qed

lemma haversine_arg_range: "0 \<le> haversine_arg lat1 lon1 lat2 lon2" "haversine_arg lat1 lon1 lat2 lon2 \<le> 1"
  using central_cos_bound [of lat1 lon1 lat2 lon2] by (simp_all add: haversine_arg_cos abs_le_iff)

lemma haversine_km_arccos:
  "haversine_km lat1 lon1 lat2 lon2 = EARTH_RADIUS_KM * arccos (central_cos lat1 lon1 lat2 lon2)"
proof -
  define u where "u = central_cos lat1 lon1 lat2 lon2"
  define t where "t = arccos u / 2"
  have u: "-1 \<le> u" "u \<le> 1"
    using central_cos_bound [of lat1 lon1 lat2 lon2] by (simp_all add: u_def abs_le_iff)
  have t: "0 \<le> t" "t \<le> pi / 2"
    using arccos_lbound [OF u] arccos_ubound [OF u] by (simp_all add: t_def)
  have "cos (2 * t) = u" using u by (simp add: t_def)
  then have "sin t ^ 2 = (1 - u) / 2" using cos_double_sin [of t] by simp
  moreover have "0 \<le> sin t" using t by (intro sin_ge_zero) auto
  ultimately have root: "sqrt ((1 - u) / 2) = sin t" by (metis real_sqrt_abs abs_of_nonneg)
  have inverse: "arcsin (sin t) = t" using t by (intro arcsin_sin) auto
  have arg: "min (haversine_arg lat1 lon1 lat2 lon2) 1 = (1 - u) / 2"
    using haversine_arg_range(2) [of lat1 lon1 lat2 lon2] by (simp add: haversine_arg_cos u_def)
  have "haversine_km lat1 lon1 lat2 lon2 = 2 * EARTH_RADIUS_KM * t"
    unfolding haversine_km_def arg root inverse ..
  then show ?thesis by (simp add: t_def u_def)
qed

lemma haversine_lua_python: "haversine_km_lua lat1 lon1 lat2 lon2 = haversine_km lat1 lon1 lat2 lon2"
  by (simp add: haversine_km_lua_def haversine_km_def haversine_arg_def radians_def Let_def min_def)

lemma central_cos_same: "central_cos lat lon lat lon = 1"
  by (simp add: central_cos_def radians_def flip: power2_eq_square)

lemma central_cos_commute: "central_cos lat1 lon1 lat2 lon2 = central_cos lat2 lon2 lat1 lon1"
proof -
  have "radians (lon2 - lon1) = - radians (lon1 - lon2)" by (simp add: radians_diff)
  then show ?thesis by (simp add: central_cos_def mult.commute)
qed

lemma haversine_same [simp]: "haversine_km_lua lat lon lat lon = 0"
  by (simp add: haversine_lua_python haversine_km_arccos central_cos_same)

text \<open>
  (C37) Both \<open>haversine_km\<close> functions, the one the Lua script runs and the Python cross-check,
  compute the same number, and it is the great-circle distance of the two points on a sphere of
  6371 km: it lies between 0 and half the circumference, is symmetric, is 0 from a point to itself,
  and its square root is never taken of a number outside \<open>[0, 1]\<close>, whatever the coordinates.
\<close>

theorem haversine_is_great_circle:
  "haversine_km_lua lat1 lon1 lat2 lon2 = haversine_km lat1 lon1 lat2 lon2 \<and>
   haversine_km lat1 lon1 lat2 lon2 = 6371 * arccos (central_cos lat1 lon1 lat2 lon2) \<and>
   0 \<le> haversine_km lat1 lon1 lat2 lon2 \<and> haversine_km lat1 lon1 lat2 lon2 \<le> 6371 * pi \<and>
   haversine_km lat1 lon1 lat2 lon2 = haversine_km lat2 lon2 lat1 lon1 \<and>
   haversine_km lat1 lon1 lat1 lon1 = 0 \<and>
   0 \<le> haversine_arg lat1 lon1 lat2 lon2 \<and> haversine_arg lat1 lon1 lat2 lon2 \<le> 1"
proof -
  have u: "-1 \<le> central_cos lat1 lon1 lat2 lon2" "central_cos lat1 lon1 lat2 lon2 \<le> 1"
    using central_cos_bound [of lat1 lon1 lat2 lon2] by (simp_all add: abs_le_iff)
  show ?thesis
    using arccos_lbound [OF u] arccos_ubound [OF u] central_cos_commute [of lat1 lon1 lat2 lon2]
      haversine_arg_range
    by (simp add: haversine_lua_python haversine_km_arccos EARTH_RADIUS_KM_def central_cos_same)
qed

subsection \<open>The scripts on the key space\<close>

definition zset_at :: "keyspace \<Rightarrow> string \<Rightarrow> (string, real) fmap" where
  "zset_at m k = (case zset_of (fmlookup m k) of Some z \<Rightarrow> z | None \<Rightarrow> fmempty)"

definition hash_at :: "keyspace \<Rightarrow> string \<Rightarrow> (string, real) fmap" where
  "hash_at m k = (case hash_of (fmlookup m k) of Some h \<Rightarrow> h | None \<Rightarrow> fmempty)"

definition is_zset :: "keyspace \<Rightarrow> string \<Rightarrow> bool" where
  "is_zset m k \<longleftrightarrow> zset_of (fmlookup m k) \<noteq> None"

definition is_hash :: "keyspace \<Rightarrow> string \<Rightarrow> bool" where
  "is_hash m k \<longleftrightarrow> hash_of (fmlookup m k) \<noteq> None"

definition is_text :: "keyspace \<Rightarrow> string \<Rightarrow> bool" where
  "is_text m k \<longleftrightarrow> (\<forall>e. fmlookup m k = Some e \<longrightarrow> (\<exists>v. e_val e = RStr v))"

text \<open>The window a check leaves behind.\<close>

definition window_after :: "keyspace \<Rightarrow> string \<Rightarrow> real \<Rightarrow> real \<Rightarrow> string \<Rightarrow> (string, real) fmap" where
  "window_after m key cutoff now event_id = fmupd event_id now (above cutoff (zset_at m key))"

lemma fmupd_fmdrop [simp]: "fmupd k v (fmdrop k m) = fmupd k v m"
  by (rule fmap_ext) auto

lemma window_step_kv:
  assumes "is_zset m key" and "0 < ttl"
  shows "window_step kv_step key cutoff now event_id ttl m =
    (Inr (int (fcard (fmdom (window_after m key cutoff now event_id)))),
     fmupd key (mk_entry (RZSet (window_after m key cutoff now event_id)) (Some ttl)) m)"
proof (cases "fmlookup m key")
  case None
  with assms(2) show ?thesis
    by (simp add: window_step_def action_simps kv_simps window_after_def zset_at_def ttl_of_def)
next
  case (Some e)
  with assms(1) obtain z where z: "e_val e = RZSet z"
    by (auto simp: is_zset_def split: rval.splits)
  show ?thesis
    using Some z assms(2)
    by (cases "above cutoff z = fmempty")
      (simp_all add: window_step_def action_simps kv_simps window_after_def zset_at_def ttl_of_def)
qed

definition session_after :: "tx_args \<Rightarrow> (string, real) fmap \<Rightarrow> (string, real) fmap" where
  "session_after a h =
     fmupd ''ts'' (a_now_ts a) (fmupd ''lon'' (a_longitude a) (fmupd ''lat'' (a_latitude a) h))"

lemma session_write_kv:
  assumes "is_hash m key" and "0 < a_session_ttl_s a"
  shows "session_write kv_step key a m =
    (Inr (), fmupd key (mk_entry (RHash (session_after a (hash_at m key))) (Some (a_session_ttl_s a))) m)"
  using assms
  by (auto simp: session_write_def action_simps kv_simps session_after_def hash_at_def is_hash_def)

definition replay_outcome :: "keyspace \<Rightarrow> string \<Rightarrow> tx_args \<Rightarrow> string \<times> string" where
  "replay_outcome m key a =
     (case fmlookup m key of
        None \<Rightarrow> (''first'', a_record_ref a)
      | Some e \<Rightarrow> (let v = rule_value m key in (replay_status_of v (a_record_ref a) (a_event_id a), v)))"

definition replay_state :: "keyspace \<Rightarrow> string \<Rightarrow> tx_args \<Rightarrow> keyspace" where
  "replay_state m key a =
     (if live m key then m
      else fmupd key (mk_entry (RStr (a_record_ref a)) (Some (a_replay_ttl_s a))) m)"

lemma replay_check_kv:
  assumes "is_text m key" and "0 < a_replay_ttl_s a"
  shows "replay_check kv_step key a m = (Inr (replay_outcome m key a), replay_state m key a)"
proof (cases "fmlookup m key")
  case None
  with assms(2) show ?thesis
    by (simp add: replay_check_def action_simps kv_simps replay_outcome_def replay_state_def)
next
  case (Some e)
  with assms show ?thesis
    by (auto simp: replay_check_def action_simps kv_simps replay_outcome_def replay_state_def
        is_text_def rule_value_def Let_def)
qed

text \<open>Keys of the types the script expects, and positive times to live.\<close>

definition tx_typed :: "keyspace \<Rightarrow> tx_keys \<Rightarrow> bool" where
  "tx_typed m k \<longleftrightarrow> is_text m (k_replay k) \<and> is_zset m (k_burst k) \<and> is_hash m (k_session k) \<and>
     distinct [k_replay k, k_burst k, k_session k]"

definition args_ok :: "tx_args \<Rightarrow> bool" where
  "args_ok a \<longleftrightarrow> 0 < a_replay_ttl_s a \<and> 0 < a_burst_key_ttl_s a \<and> 0 < a_session_ttl_s a \<and>
     a_burst_cutoff a < a_now_ts a \<and> 0 \<le> a_max_velocity_kmh a"

definition session_fields :: "keyspace \<Rightarrow> string \<Rightarrow> real option list" where
  "session_fields m key = map (fmlookup (hash_at m key)) [''lat'', ''lon'', ''ts'']"

definition burst_state :: "keyspace \<Rightarrow> tx_keys \<Rightarrow> tx_args \<Rightarrow> keyspace" where
  "burst_state m k a =
     fmupd (k_burst k)
       (mk_entry (RZSet (window_after m (k_burst k) (a_burst_cutoff a) (a_now_ts a) (a_event_id a)))
                 (Some (a_burst_key_ttl_s a)))
       (replay_state m (k_replay k) a)"

definition geo_of :: "keyspace \<Rightarrow> tx_keys \<Rightarrow> tx_args \<Rightarrow>
    string \<times> real \<times> real \<times> real \<times> real option \<times> real option" where
  "geo_of m k a = geo_check a (session_fields m (k_session k))"

definition clean_geo :: "string \<Rightarrow> bool" where
  "clean_geo g \<longleftrightarrow> g = ''baseline'' \<or> g = ''ok''"

definition tx_state :: "keyspace \<Rightarrow> tx_keys \<Rightarrow> tx_args \<Rightarrow> keyspace" where
  "tx_state m k a =
     (if fst (replay_outcome m (k_replay k) a) = ''prescored'' then m
      else if clean_geo (fst (geo_of m k a))
      then fmupd (k_session k)
             (mk_entry (RHash (session_after a (hash_at m (k_session k)))) (Some (a_session_ttl_s a)))
             (burst_state m k a)
      else burst_state m k a)"

definition tx_outcome :: "keyspace \<Rightarrow> tx_keys \<Rightarrow> tx_args \<Rightarrow> tx_result" where
  "tx_outcome m k a =
     (let (status, stored) = replay_outcome m (k_replay k) a
      in if status = ''prescored'' then prescored_result stored
         else (case geo_of m k a of (geo, km, elapsed, vel, plat, plon) \<Rightarrow>
           \<lparr>replay_status = status, stored_ref = stored,
            burst_count = int (fcard (fmdom (window_after m (k_burst k) (a_burst_cutoff a) (a_now_ts a) (a_event_id a)))),
            geo_status = geo, distance_km = fmt km, elapsed_s = fmt elapsed, velocity_kmh = fmt vel,
            prev_lat = plat, prev_lon = plon\<rparr>))"

lemma tx_check_kv:
  assumes typed: "tx_typed m k" and ok: "args_ok a"
  shows "tx_check kv_step k a m = (Inr (tx_outcome m k a), tx_state m k a)"
proof -
  obtain status stored where out: "replay_outcome m (k_replay k) a = (status, stored)"
    by fastforce
  obtain geo km el vel plat plon where geo: "geo_of m k a = (geo, km, el, vel, plat, plon)"
    by (metis prod.exhaust)
  let ?m1 = "replay_state m (k_replay k) a"
  have keys: "k_burst k \<noteq> k_replay k" "k_session k \<noteq> k_replay k" "k_session k \<noteq> k_burst k"
    using typed by (auto simp: tx_typed_def)
  have r: "replay_check kv_step (k_replay k) a m = (Inr (status, stored), ?m1)"
    using typed ok out by (simp add: replay_check_kv tx_typed_def args_ok_def)
  have pre: "?m1 = m" if "status = ''prescored''"
    using that out by (auto simp: replay_outcome_def replay_state_def split: option.splits)
  have look: "fmlookup ?m1 (k_burst k) = fmlookup m (k_burst k)"
    "fmlookup ?m1 (k_session k) = fmlookup m (k_session k)"
    using keys by (simp_all add: replay_state_def)
  have w: "window_step kv_step (k_burst k) (a_burst_cutoff a) (a_now_ts a) (a_event_id a) (a_burst_key_ttl_s a) ?m1 =
    (Inr (int (fcard (fmdom (window_after m (k_burst k) (a_burst_cutoff a) (a_now_ts a) (a_event_id a))))), burst_state m k a)"
    using typed ok look
    by (simp add: window_step_kv is_zset_def tx_typed_def args_ok_def burst_state_def window_after_def zset_at_def)
  have hb: "fmlookup (burst_state m k a) (k_session k) = fmlookup m (k_session k)"
    using keys look by (simp add: burst_state_def)
  have h: "kv_step (HMGET (k_session k) [''lat'', ''lon'', ''ts'']) (burst_state m k a) =
      (Inr (RNums (session_fields m (k_session k))), burst_state m k a)"
    using typed hb by (auto simp: kv_simps tx_typed_def is_hash_def session_fields_def hash_at_def split: option.splits)
  have sw: "session_write kv_step (k_session k) a (burst_state m k a) =
      (Inr (), fmupd (k_session k) (mk_entry (RHash (session_after a (hash_at m (k_session k)))) (Some (a_session_ttl_s a)))
         (burst_state m k a))"
    using typed ok hb by (simp add: session_write_kv is_hash_def tx_typed_def args_ok_def hash_at_def)
  show ?thesis
  proof (cases "status = ''prescored''")
    case True
    with out r pre show ?thesis
      by (simp add: tx_check_def bindE_def ret_def tx_outcome_def tx_state_def)
  next
    case False
    with out r w h sw geo show ?thesis
      by (simp add: tx_check_def bindE_def ret_def tx_outcome_def tx_state_def clean_geo_def geo_of_def)
  qed
qed

context redis_up
begin

lemma sim_window_step:
  "sim (\<lambda>s. ks (obs s)) (window_step rc key c now e t) (window_step kv_step key c now e t)"
  unfolding window_step_def by (intro sim_intros; simp)

lemma sim_tx_check: "sim (\<lambda>s. ks (obs s)) (tx_check rc k a) (tx_check kv_step k a)"
  unfolding tx_check_def replay_check_def session_write_def
  by (intro sim_intros sim_window_step; simp)

lemma tx_check_run:
  "tx_typed (ks (obs s)) k \<Longrightarrow> args_ok a \<Longrightarrow>
   \<exists>s'. tx_check rc k a s = (Inr (tx_outcome (ks (obs s)) k a), s') \<and> ks (obs s') = tx_state (ks (obs s)) k a"
  using sim_run [OF sim_tx_check] tx_check_kv by blast

lemma sim_auth_check:
  "sim (\<lambda>s. ks (obs s)) (auth_check rc keys e now c t) (auth_check kv_step keys e now c t)"
  unfolding auth_check_def by (intro sim_intros sim_window_step)

end

end
