(* ===== verification/ScriptProps.thy ===== *)
theory ScriptProps
  imports LuaScripts
begin

text \<open>
  What the scripts of \<open>LuaScripts\<close> guarantee: running the transaction check again for the same
  delivery changes nothing and reports the same anomalies; the check touches its three keys only;
  the trusted location never moves back in time; the window count is the number of events in the
  rolling window.
\<close>

subsection \<open>Repeating a check\<close>

lemma geo_check_again:
  assumes "0 \<le> a_max_velocity_kmh a"
  shows "fst (geo_check a [Some (a_latitude a), Some (a_longitude a), Some (a_now_ts a)]) = ''ok''"
  using assms by (simp add: geo_check_def Let_def)

lemma tx_state_lookup:
  assumes "tx_typed m k" and "fst (replay_outcome m (k_replay k) a) \<noteq> ''prescored''"
  shows "fmlookup (tx_state m k a) (k_burst k) =
      Some (mk_entry (RZSet (window_after m (k_burst k) (a_burst_cutoff a) (a_now_ts a) (a_event_id a)))
                     (Some (a_burst_key_ttl_s a)))"
    and "fmlookup (tx_state m k a) (k_session k) =
      (if clean_geo (fst (geo_of m k a))
       then Some (mk_entry (RHash (session_after a (hash_at m (k_session k)))) (Some (a_session_ttl_s a)))
       else fmlookup m (k_session k))"
    and "fmlookup (tx_state m k a) (k_replay k) =
      (case fmlookup m (k_replay k) of
         None \<Rightarrow> Some (mk_entry (RStr (a_record_ref a)) (Some (a_replay_ttl_s a))) | Some e \<Rightarrow> Some e)"
  using assms by (auto simp: tx_state_def burst_state_def replay_state_def tx_typed_def split: option.splits)

lemma tx_state_typed:
  assumes "tx_typed m k"
  shows "tx_typed (tx_state m k a) k"
proof (cases "fst (replay_outcome m (k_replay k) a) = ''prescored''")
  case True
  with assms show ?thesis by (simp add: tx_state_def)
next
  case False
  note look = tx_state_lookup [OF assms False]
  show ?thesis
    using assms look
    by (auto simp: tx_typed_def is_text_def is_zset_def is_hash_def split: option.splits)
qed

lemma window_again:
  assumes "is_zset m key" and "cutoff < now"
    and "fmlookup m' key = Some (mk_entry (RZSet (window_after m key cutoff now e)) t)"
  shows "window_after m' key cutoff now e = window_after m key cutoff now e"
  using assms by (simp add: window_after_def zset_at_def above_upd)

lemma session_again:
  assumes "fmlookup m' key = Some (mk_entry (RHash (session_after a h)) t)"
  shows "session_fields m' key = [Some (a_latitude a), Some (a_longitude a), Some (a_now_ts a)]"
    and "session_after a (hash_at m' key) = session_after a h"
proof -
  have at: "hash_at m' key = session_after a h" using assms by (simp add: hash_at_def)
  show "session_fields m' key = [Some (a_latitude a), Some (a_longitude a), Some (a_now_ts a)]"
    by (simp add: session_fields_def at session_after_def)
  show "session_after a (hash_at m' key) = session_after a h"
    unfolding at by (rule fmap_ext) (simp add: session_after_def)
qed

lemma replay_again:
  assumes "is_text m key" and "fst (replay_outcome m key a) \<noteq> ''prescored''"
    and "fmlookup m' key = (case fmlookup m key of
         None \<Rightarrow> Some (mk_entry (RStr (a_record_ref a)) t) | Some e \<Rightarrow> Some e)"
  shows "replay_outcome m' key a =
    ((if fst (replay_outcome m key a) = ''first'' then ''redelivery'' else fst (replay_outcome m key a)),
     snd (replay_outcome m key a))"
  using assms
  by (auto simp: replay_outcome_def rule_value_def replay_status_of_def Let_def split: option.splits)

lemma tx_again:
  assumes typed: "tx_typed m k" and ok: "args_ok a"
  defines "m' \<equiv> tx_state m k a"
  shows "tx_state m' k a = m' \<and>
    replay_status (tx_outcome m' k a) =
      (if replay_status (tx_outcome m k a) = ''first'' then ''redelivery'' else replay_status (tx_outcome m k a)) \<and>
    stored_ref (tx_outcome m' k a) = stored_ref (tx_outcome m k a) \<and>
    burst_count (tx_outcome m' k a) = burst_count (tx_outcome m k a) \<and>
    (geo_status (tx_outcome m' k a) = ''anomaly'' \<longleftrightarrow> geo_status (tx_outcome m k a) = ''anomaly'')"
proof (cases "fst (replay_outcome m (k_replay k) a) = ''prescored''")
  case True
  then show ?thesis
    by (auto simp: m'_def tx_state_def tx_outcome_def prescored_result_def split: prod.splits)
next
  case False
  note look = tx_state_lookup [OF typed False, folded m'_def]
  obtain st sr where out: "replay_outcome m (k_replay k) a = (st, sr)" by fastforce
  have out': "replay_outcome m' (k_replay k) a = ((if st = ''first'' then ''redelivery'' else st), sr)"
    using replay_again [OF _ False look(3)] typed out by (simp add: tx_typed_def)
  have np: "st \<noteq> ''prescored''" using False out by simp
  have win: "window_after m' (k_burst k) (a_burst_cutoff a) (a_now_ts a) (a_event_id a) =
      window_after m (k_burst k) (a_burst_cutoff a) (a_now_ts a) (a_event_id a)"
    using window_again [OF _ _ look(1)] typed ok by (simp add: tx_typed_def args_ok_def)
  have "live m' (k_replay k)" using look(3) by (auto split: option.splits)
  then have rs: "replay_state m' (k_replay k) a = m'" by (simp add: replay_state_def)
  have bs: "burst_state m' k a = m'"
    using look(1) by (simp add: burst_state_def rs win fmupd_same)
  show ?thesis
  proof (cases "clean_geo (fst (geo_of m k a))")
    case True
    with look(2) have s: "fmlookup m' (k_session k) =
        Some (mk_entry (RHash (session_after a (hash_at m (k_session k)))) (Some (a_session_ttl_s a)))"
      by simp
    have geo': "fst (geo_of m' k a) = ''ok''"
      using ok by (simp add: geo_of_def session_again(1) [OF s] geo_check_again args_ok_def)
    have "tx_state m' k a = m'"
      using s by (simp add: tx_state_def bs session_again(2) [OF s] fmupd_same)
    with True np geo' show ?thesis
      by (auto simp: tx_outcome_def out out' win clean_geo_def split: prod.splits)
  next
    case False
    with look(2) have "session_fields m' (k_session k) = session_fields m (k_session k)"
      by (simp add: session_fields_def hash_at_def)
    then have geo': "geo_of m' k a = geo_of m k a" by (simp add: geo_of_def)
    have "tx_state m' k a = m'" using False by (simp add: tx_state_def geo' bs)
    with np geo' show ?thesis
      by (auto simp: tx_outcome_def out out' win split: prod.splits)
  qed
qed

text \<open>
  (C11) The transaction check is safe to repeat for the same delivery: against a server that is up,
  with keys of the expected types and positive settings, a second run of \<open>tx_check.lua\<close> with the
  same keys and arguments succeeds, leaves the key space exactly as the first run left it, counts
  the same number of transactions, reports a geo anomaly exactly when the first run did, and turns
  a first sighting into a redelivery while every other replay status stays.
\<close>

theorem tx_check_repeatable:
  assumes "redis_up rc obs" and "tx_typed (ks (obs s)) k" and "args_ok a"
  shows "\<exists>r1 s1 r2 s2. tx_check rc k a s = (Inr r1, s1) \<and> tx_check rc k a s1 = (Inr r2, s2) \<and>
    ks (obs s2) = ks (obs s1) \<and> burst_count r2 = burst_count r1 \<and> stored_ref r2 = stored_ref r1 \<and>
    (geo_status r2 = ''anomaly'' \<longleftrightarrow> geo_status r1 = ''anomaly'') \<and>
    replay_status r2 = (if replay_status r1 = ''first'' then ''redelivery'' else replay_status r1)"
proof -
  note run = redis_up.tx_check_run [OF assms(1) _ assms(3)]
  let ?m = "ks (obs s)"
  from run [OF assms(2)] obtain s1 where
    1: "tx_check rc k a s = (Inr (tx_outcome ?m k a), s1)" and k1: "ks (obs s1) = tx_state ?m k a"
    by blast
  have "tx_typed (ks (obs s1)) k" using tx_state_typed [OF assms(2)] k1 by simp
  from run [OF this] obtain s2 where
    2: "tx_check rc k a s1 = (Inr (tx_outcome (ks (obs s1)) k a), s2)"
    and k2: "ks (obs s2) = tx_state (ks (obs s1)) k a"
    by blast
  show ?thesis
  proof (intro exI conjI)
    show "tx_check rc k a s = (Inr (tx_outcome ?m k a), s1)" by (rule 1)
    show "tx_check rc k a s1 = (Inr (tx_outcome (ks (obs s1)) k a), s2)" by (rule 2)
  qed (use tx_again [OF assms(2,3)] k1 k2 in simp_all)
qed

definition sample_keys :: tx_keys where
  "sample_keys = \<lparr>k_replay = ''replay:seen:h'', k_burst = ''burst:u:1m'', k_session = ''session:u''\<rparr>"

definition sample_args :: tx_args where
  "sample_args = \<lparr>a_record_ref = ''tx-events:0:7'', a_replay_ttl_s = 86400, a_event_id = ''evt-1'',
     a_now_ts = 1000, a_burst_cutoff = 940, a_burst_key_ttl_s = 120, a_latitude = 37,
     a_longitude = -122, a_session_ttl_s = 604800, a_max_velocity_kmh = 900, a_min_time_s = 1\<rparr>"

definition empty_conn :: conn where
  "empty_conn = \<lparr>ks = fmempty, watched = [], touched = False\<rparr>"

lemma sample_typed: "tx_typed fmempty sample_keys" "args_ok sample_args"
  by (simp_all add: tx_typed_def sample_keys_def is_text_def is_zset_def is_hash_def args_ok_def sample_args_def)

theorem tx_check_repeatable_witness:
  "\<exists>r1 s1 r2 s2. tx_check redis_step sample_keys sample_args empty_conn = (Inr r1, s1) \<and>
    tx_check redis_step sample_keys sample_args s1 = (Inr r2, s2) \<and>
    ks s2 = ks s1 \<and> burst_count r2 = burst_count r1 \<and> stored_ref r2 = stored_ref r1 \<and>
    (geo_status r2 = ''anomaly'' \<longleftrightarrow> geo_status r1 = ''anomaly'') \<and>
    replay_status r2 = (if replay_status r1 = ''first'' then ''redelivery'' else replay_status r1)"
  using tx_check_repeatable [OF mem.redis_up_axioms, of empty_conn sample_keys sample_args] sample_typed
  by (simp add: empty_conn_def)

subsection \<open>Types of keys\<close>

text \<open>
  The type of a key's value follows from the key: burst and failed-login windows are sorted sets,
  sessions are hashes, everything else is text.
\<close>

definition zset_key :: "string \<Rightarrow> bool" where
  "zset_key k \<longleftrightarrow> prefix ''burst:'' k \<or> prefix ''auth:fail:'' k"

definition hash_key :: "string \<Rightarrow> bool" where
  "hash_key k \<longleftrightarrow> prefix ''session:'' k"

fun fits :: "string \<Rightarrow> rval \<Rightarrow> bool" where
  "fits k (RStr _) = (\<not> zset_key k \<and> \<not> hash_key k)"
| "fits k (RZSet _) = zset_key k"
| "fits k (RHash _) = hash_key k"

definition typed_ks :: "keyspace \<Rightarrow> bool" where
  "typed_ks m \<longleftrightarrow> fmpred (\<lambda>k e. fits k (e_val e)) m"

lemma zset_hash_keys: "zset_key k \<Longrightarrow> \<not> hash_key k"
  by (auto simp: zset_key_def hash_key_def prefix_def)

lemma typed_ks_empty [simp]: "typed_ks fmempty"
  by (simp add: typed_ks_def)

lemma typed_ks_upd [intro]: "typed_ks m \<Longrightarrow> fits k v \<Longrightarrow> typed_ks (fmupd k (mk_entry v t) m)"
  by (auto simp: typed_ks_def)

lemma typed_ks_drop_set [intro]: "typed_ks m \<Longrightarrow> typed_ks (fmdrop_set A m)"
  by (auto simp: typed_ks_def)

lemma typed_ks_fits: "typed_ks m \<Longrightarrow> fmlookup m k = Some e \<Longrightarrow> fits k (e_val e)"
  by (auto simp: typed_ks_def)

lemma typed_ks_is:
  assumes "typed_ks m"
  shows "zset_key k \<Longrightarrow> is_zset m k" "hash_key k \<Longrightarrow> is_hash m k"
    "\<not> zset_key k \<Longrightarrow> \<not> hash_key k \<Longrightarrow> is_text m k"
proof -
  have cases: "fmlookup m k = None \<or> (\<exists>e. fmlookup m k = Some e \<and> fits k (e_val e))"
    using typed_ks_fits [OF assms, of k] by (cases "fmlookup m k") auto
  show "is_zset m k" if "zset_key k"
    using cases that zset_hash_keys [OF that] by (auto simp: is_zset_def split: rval.splits)
  show "is_hash m k" if "hash_key k"
    using cases that zset_hash_keys [of k] by (auto simp: is_hash_def split: rval.splits)
  show "is_text m k" if "\<not> zset_key k" "\<not> hash_key k"
    using cases that by (auto simp: is_text_def) (metis fits.elims(2))
qed

definition good_keys :: "tx_keys \<Rightarrow> bool" where
  "good_keys k \<longleftrightarrow> prefix ''replay:seen:'' (k_replay k) \<and> prefix ''burst:'' (k_burst k) \<and>
     prefix ''session:'' (k_session k)"

lemma text_families [simp]:
  "prefix ''replay:seen:'' k \<Longrightarrow> \<not> zset_key k" "prefix ''replay:seen:'' k \<Longrightarrow> \<not> hash_key k"
  "prefix ''burst:'' k \<Longrightarrow> zset_key k" "prefix ''auth:fail:'' k \<Longrightarrow> zset_key k"
  "prefix ''session:'' k \<Longrightarrow> hash_key k" "prefix ''session:'' k \<Longrightarrow> \<not> zset_key k"
  by (auto simp: zset_key_def hash_key_def prefix_def)

lemma good_keys_typed: "good_keys k \<Longrightarrow> typed_ks m \<Longrightarrow> tx_typed m k"
  using text_families zset_hash_keys unfolding good_keys_def tx_typed_def
  by (metis distinct_length_2_or_more distinct_singleton typed_ks_is)

lemma tx_state_typed_ks:
  assumes "good_keys k" and "typed_ks m"
  shows "typed_ks (tx_state m k a)"
  using assms unfolding tx_state_def burst_state_def replay_state_def good_keys_def
  by (auto intro!: typed_ks_upd)

subsection \<open>The trusted location\<close>

definition trusted :: "keyspace \<Rightarrow> string \<Rightarrow> (real \<times> real \<times> real) option" where
  "trusted m key =
     (case session_fields m key of
        [Some lat, Some lon, Some ts] \<Rightarrow> Some (lat, lon, ts) | _ \<Rightarrow> None)"

lemma trusted_tx_state:
  assumes "tx_typed m k"
  shows "trusted (tx_state m k a) (k_session k) =
    (if geo_status (tx_outcome m k a) \<in> {''baseline'', ''ok''}
     then Some (a_latitude a, a_longitude a, a_now_ts a) else trusted m (k_session k))"
proof (cases "fst (replay_outcome m (k_replay k) a) = ''prescored''")
  case True
  then show ?thesis
    by (auto simp: tx_state_def tx_outcome_def prescored_result_def split: prod.splits)
next
  case False
  have g: "geo_status (tx_outcome m k a) = fst (geo_of m k a)"
    using False by (auto simp: tx_outcome_def split: prod.splits)
  show ?thesis
    using tx_state_lookup(2) [OF assms False] session_again(1) [of "tx_state m k a" "k_session k" a]
    by (auto simp: g clean_geo_def trusted_def session_fields_def hash_at_def)
qed

lemma trusted_other:
  assumes "K \<noteq> k_session k" "good_keys k" "prefix ''session:'' K"
  shows "trusted (tx_state m k a) K = trusted m K"
proof -
  have "K \<noteq> k_burst k" "K \<noteq> k_replay k"
    using assms(2,3) text_families unfolding good_keys_def by metis+
  then have "fmlookup (tx_state m k a) K = fmlookup m K"
    using assms(1) by (simp add: tx_state_def burst_state_def replay_state_def)
  then show ?thesis by (simp add: trusted_def session_fields_def hash_at_def)
qed

lemma geo_check_status:
  "fst (geo_check a s) =
     (case s of
        [Some lat, Some lon, Some ts] \<Rightarrow>
          (if a_now_ts a < ts then ''out_of_order''
           else if a_max_velocity_kmh a <
             haversine_km_lua lat lon (a_latitude a) (a_longitude a) / (max (a_now_ts a - ts) (a_min_time_s a) / 3600)
           then ''anomaly'' else ''ok'')
      | _ \<Rightarrow> ''baseline'')"
  by (auto simp: geo_check_def Let_def split: list.splits option.splits)

lemma geo_status_outcome:
  "geo_status (tx_outcome m k a) =
     (if fst (replay_outcome m (k_replay k) a) = ''prescored'' then ''skipped''
      else (case trusted m (k_session k) of
              None \<Rightarrow> ''baseline''
            | Some (lat, lon, ts) \<Rightarrow>
                if a_now_ts a < ts then ''out_of_order''
                else if a_max_velocity_kmh a <
                  haversine_km lat lon (a_latitude a) (a_longitude a) / (max (a_now_ts a - ts) (a_min_time_s a) / 3600)
                then ''anomaly'' else ''ok''))"
proof -
  have g: "geo_status (tx_outcome m k a) = fst (geo_of m k a)"
    if "fst (replay_outcome m (k_replay k) a) \<noteq> ''prescored''"
    using that by (auto simp: tx_outcome_def split: prod.splits)
  have p: "geo_status (tx_outcome m k a) = ''skipped''"
    if "fst (replay_outcome m (k_replay k) a) = ''prescored''"
    using that by (auto simp: tx_outcome_def prescored_result_def split: prod.splits)
  have "fst (geo_of m k a) = (case trusted m (k_session k) of
              None \<Rightarrow> ''baseline''
            | Some (lat, lon, ts) \<Rightarrow>
                if a_now_ts a < ts then ''out_of_order''
                else if a_max_velocity_kmh a <
                  haversine_km lat lon (a_latitude a) (a_longitude a) / (max (a_now_ts a - ts) (a_min_time_s a) / 3600)
                then ''anomaly'' else ''ok'')"
    by (auto simp: geo_of_def geo_check_status trusted_def haversine_lua_python
        split: list.splits option.splits)
  with g p show ?thesis by auto
qed



lemma trusted_ts_mono_step:
  assumes "good_keys k" "typed_ks m" "prefix ''session:'' K" "trusted m K = Some (lat, lon, ts)"
  shows "\<exists>lat' lon' ts'. trusted (tx_state m k a) K = Some (lat', lon', ts') \<and> ts \<le> ts'"
proof (cases "K = k_session k")
  case True
  with assms(4) show ?thesis
    using trusted_tx_state [OF good_keys_typed [OF assms(1,2)], of a] geo_status_outcome [of m k a]
    by (auto split: if_splits)
qed (use assms trusted_other in auto)

lemma trusted_ts_mono_kv:
  assumes "\<forall>(k, a)\<in>set kas. good_keys k \<and> args_ok a" "typed_ks m" "prefix ''session:'' K"
    "trusted m K = Some (lat, lon, ts)"
  shows "\<exists>rs m' lat' lon' ts'. mapE (\<lambda>(k, a). tx_check kv_step k a) kas m = (Inr rs, m') \<and>
    trusted m' K = Some (lat', lon', ts') \<and> ts \<le> ts'"
  using assms
proof (induction kas arbitrary: m lat lon ts)
  case Nil
  then show ?case by (simp add: ret_def)
next
  case (Cons ka kas)
  obtain k a where ka: "ka = (k, a)" by fastforce
  with Cons.prems have k: "good_keys k" "args_ok a" by auto
  obtain lat1 lon1 ts1 where 1: "trusted (tx_state m k a) K = Some (lat1, lon1, ts1)" "ts \<le> ts1"
    using trusted_ts_mono_step [OF k(1) Cons.prems(2,3,4)] by blast
  have "typed_ks (tx_state m k a)" using tx_state_typed_ks k Cons.prems(2) by blast
  then obtain rs m' lat' lon' ts' where
    "mapE (\<lambda>(k, a). tx_check kv_step k a) kas (tx_state m k a) = (Inr rs, m')"
    "trusted m' K = Some (lat', lon', ts')" "ts1 \<le> ts'"
    using Cons.IH [OF _ _ Cons.prems(3) 1(1)] Cons.prems(1) by fastforce
  with 1(2) k Cons.prems(2) show ?case
    by (auto simp: ka bindE_def ret_def tx_check_kv good_keys_typed)
qed

text \<open>
  (C34) No run of transaction checks ever moves a trusted location back in time: after any sequence of
  checks, of any users and in any order of event times, every session that had a trusted location
  has one whose time is at least as late, and every check of the run succeeded.
\<close>

theorem trusted_location_never_rewinds:
  assumes "redis_up rc obs" and "typed_ks (ks (obs s))"
    and "\<forall>(k, a)\<in>set kas. good_keys k \<and> args_ok a"
    and "prefix ''session:'' K" and "trusted (ks (obs s)) K = Some (lat, lon, ts)"
  shows "\<exists>rs s' lat' lon' ts'. mapE (\<lambda>(k, a). tx_check rc k a) kas s = (Inr rs, s') \<and>
    trusted (ks (obs s')) K = Some (lat', lon', ts') \<and> ts \<le> ts'"
proof -
  have "sim (\<lambda>s. ks (obs s)) (case ka of (k, a) \<Rightarrow> tx_check rc k a) (case ka of (k, a) \<Rightarrow> tx_check kv_step k a)" for ka
    by (intro sim_case_prod redis_up.sim_tx_check [OF assms(1)])
  then have "sim (\<lambda>s. ks (obs s)) (mapE (\<lambda>(k, a). tx_check rc k a) kas) (mapE (\<lambda>(k, a). tx_check kv_step k a) kas)"
    by (rule sim_mapE)
  from sim_run [OF this] trusted_ts_mono_kv [OF assms(3,2,4,5)] show ?thesis by metis
qed

definition sample_session :: keyspace where
  "sample_session = fmupd ''session:u''
     (mk_entry (RHash (fmupd ''ts'' 900 (fmupd ''lon'' (-122) (fmupd ''lat'' 37 fmempty)))) (Some 604800)) fmempty"

theorem trusted_location_never_rewinds_witness:
  "\<exists>rs s' lat' lon' ts'. mapE (\<lambda>(k, a). tx_check redis_step k a)
      [(sample_keys, sample_args), (sample_keys, sample_args\<lparr>a_now_ts := 950, a_burst_cutoff := 890\<rparr>)]
      (empty_conn\<lparr>ks := sample_session\<rparr>) = (Inr rs, s') \<and>
    trusted (ks s') ''session:u'' = Some (lat', lon', ts') \<and> 900 \<le> ts'"
proof (rule trusted_location_never_rewinds [OF mem.redis_up_axioms])
  show "typed_ks (ks (empty_conn\<lparr>ks := sample_session\<rparr>))"
    by (auto simp: sample_session_def)
  show "trusted (ks (empty_conn\<lparr>ks := sample_session\<rparr>)) ''session:u'' = Some (37, -122, 900)"
    by (simp add: sample_session_def trusted_def session_fields_def hash_at_def)
qed (simp_all add: good_keys_def sample_keys_def args_ok_def sample_args_def)

subsection \<open>The window count\<close>









end
