(* ===== verification/World.thy ===== *)
theory World
  imports Redis Models
begin

text \<open>
  The state a service of the pipeline changes: the Redis server it talks to, what it has handed to
  its producer (the state \<open>'p\<close> the \<open>emit\<close> callbacks work on), and the increments it made to its
  Prometheus counters, in order. A counter increment is the counter's name with its label values.
  Latency histograms and log lines are left out.
\<close>

type_synonym metric = "string \<times> string list"

record ('r, 'p) world =
  w_redis :: 'r
  w_out :: 'p
  w_metrics :: "metric list"

definition on_redis :: "('r, 'a) action \<Rightarrow> (('r, 'p) world, 'a) action" where
  "on_redis m w = (case m (w_redis w) of (r, s) \<Rightarrow> (r, w\<lparr>w_redis := s\<rparr>))"

definition on_out :: "('p, 'a) action \<Rightarrow> (('r, 'p) world, 'a) action" where
  "on_out m w = (case m (w_out w) of (r, p) \<Rightarrow> (r, w\<lparr>w_out := p\<rparr>))"

definition inc :: "metric \<Rightarrow> (('r, 'p) world, unit) action" where
  "inc x w = (Inr (), w\<lparr>w_metrics := w_metrics w @ [x]\<rparr>)"

text \<open>A Python \<open>for\<close> loop run for its effects.\<close>

fun forE :: "('a \<Rightarrow> ('s, unit) action) \<Rightarrow> 'a list \<Rightarrow> ('s, unit) action" where
  "forE f [] = ret ()"
| "forE f (x # xs) = bindE (f x) (\<lambda>_. forE f xs)"

definition incs :: "metric list \<Rightarrow> (('r, 'p) world, unit) action" where
  "incs = forE inc"

text \<open>Seeing a world through an abstraction of its server.\<close>

definition wmap :: "('r \<Rightarrow> 't) \<Rightarrow> ('r, 'p) world \<Rightarrow> ('t, 'p) world" where
  "wmap h w = \<lparr>w_redis = h (w_redis w), w_out = w_out w, w_metrics = w_metrics w\<rparr>"

lemma wmap_sel [simp]:
  "w_redis (wmap h w) = h (w_redis w)" "w_out (wmap h w) = w_out w" "w_metrics (wmap h w) = w_metrics w"
  by (simp_all add: wmap_def)

lemma sim_on_redis [sim_intros]: "sim h m m' \<Longrightarrow> sim (wmap h) (on_redis m) (on_redis m')"
proof (rule simI)
  fix w :: "('a, 'd) world"
  assume m: "sim h m m'"
  show "fst (on_redis m w) = fst (on_redis m' (wmap h w))"
    using simD(1) [OF m, of "w_redis w"] by (simp add: on_redis_def split_beta)
  show "wmap h (snd (on_redis m w)) = snd (on_redis m' (wmap h w))"
    using simD(2) [OF m, of "w_redis w"] by (simp add: on_redis_def split_beta wmap_def)
qed

lemma sim_on_out [sim_intros]: "sim (wmap h) (on_out f) (on_out f)"
  by (simp add: sim_def on_out_def wmap_def split_beta)

lemma sim_inc [sim_intros]: "sim (wmap h) (inc x) (inc x)"
  by (simp add: sim_def inc_def wmap_def)

lemma sim_forE [sim_intros]: "(\<And>x. sim h (f x) (f' x)) \<Longrightarrow> sim h (forE f xs) (forE f' xs)"
  by (induction xs) (auto intro!: sim_intros)

lemma sim_incs [sim_intros]: "sim (wmap h) (incs xs) (incs xs)"
  unfolding incs_def by (intro sim_intros)

lemma on_redis_ok:
  "m (w_redis w) = (Inr x, s) \<Longrightarrow> on_redis m w = (Inr x, w\<lparr>w_redis := s\<rparr>)"
  by (simp add: on_redis_def)

lemma on_out_ok: "fst (m (w_out w)) = Inr x \<Longrightarrow> on_out m w = (Inr x, w\<lparr>w_out := snd (m (w_out w))\<rparr>)"
  by (cases "m (w_out w)") (simp add: on_out_def)

lemma incs_run [simp]: "incs xs w = (Inr (), w\<lparr>w_metrics := w_metrics w @ xs\<rparr>)"
  unfolding incs_def by (induction xs arbitrary: w) (simp_all add: action_simps inc_def)

lemma forE_append: "forE f (xs @ ys) = bindE (forE f xs) (\<lambda>_. forE f ys)"
  by (induction xs) (simp_all add: bindE_assoc)

subsection \<open>Where actions lead\<close>

text \<open>\<open>leads R m\<close>: however \<open>m\<close> ends, it relates the state it ends in to the one it started from.\<close>

definition leads :: "('s \<Rightarrow> 's \<Rightarrow> bool) \<Rightarrow> ('s, 'a) action \<Rightarrow> bool" where
  "leads R m \<longleftrightarrow> (\<forall>s. R s (snd (m s)))"

lemma leadsD: "leads R m \<Longrightarrow> m s = (q, s') \<Longrightarrow> R s s'"
  unfolding leads_def by (metis snd_conv)

locale state_order =
  fixes R :: "'s \<Rightarrow> 's \<Rightarrow> bool"
  assumes state_refl: "R s s"
    and state_trans: "R s t \<Longrightarrow> R t u \<Longrightarrow> R s u"
begin

lemma leads_ret: "leads R (ret x)"
  by (simp add: leads_def ret_def state_refl)

lemma leads_raise: "leads R (raise_exn e)"
  by (simp add: leads_def raise_exn_def state_refl)

lemma leads_bindE: "leads R m \<Longrightarrow> (\<And>x. leads R (f x)) \<Longrightarrow> leads R (bindE m f)"
  unfolding leads_def bindE_def by (auto split: prod.splits sum.splits) (metis snd_conv state_trans)+

lemma leads_mapE: "(\<And>x. leads R (f x)) \<Longrightarrow> leads R (mapE f xs)"
  by (induction xs) (auto intro!: leads_ret leads_bindE)

lemma leads_forE: "(\<And>x. leads R (f x)) \<Longrightarrow> leads R (forE f xs)"
  by (induction xs) (auto intro!: leads_ret leads_bindE)

lemma leads_if: "(b \<Longrightarrow> leads R m) \<Longrightarrow> (\<not> b \<Longrightarrow> leads R m') \<Longrightarrow> leads R (if b then m else m')"
  by simp

lemma leads_case_prod: "(\<And>x y. leads R (f x y)) \<Longrightarrow> leads R (case p of (x, y) \<Rightarrow> f x y)"
  by (cases p) simp

text \<open>A call whose exceptions are handled.\<close>

lemma leads_handled:
  assumes "leads R m" and "\<And>x. leads R (f x)" and "\<And>e. leads R (g e)"
    and "\<And>s. k s = (case m s of (q, s') \<Rightarrow> (case q of Inr x \<Rightarrow> f x s' | Inl e \<Rightarrow> g e s'))"
  shows "leads R k"
  unfolding leads_def
proof
  fix s
  obtain q s' where m: "m s = (q, s')" by fastforce
  from leadsD [OF assms(1) m] assms(2,3) show "R s (snd (k s))"
    unfolding assms(4) m by (cases q) (auto simp: leads_def intro: state_trans)
qed

lemmas leads_intros = leads_ret leads_raise leads_bindE leads_mapE leads_forE leads_if leads_case_prod

end

end
