(* ===== verification/Detectors.thy ===== *)
theory Detectors
  imports ScriptProps World
begin

text \<open>
  The four detector modules of \<open>detection_engine/\<close>: their Redis keys and their \<open>interpret\<close>
  functions, which turn script results into detections. \<open>uuid4\<close> is the random part of a fresh
  detection id (the pipeline replaces these ids) and \<open>now\<close> the clock reading. Counter increments are
  returned beside the result.
\<close>

subsection \<open>Keys\<close>

definition replay_key :: "(string \<Rightarrow> string) \<Rightarrow> TransactionEvent \<Rightarrow> string" where
  "replay_key sha256 tx = ''replay:seen:'' @ replay_hash sha256 tx"

definition session_key :: "string \<Rightarrow> string" where
  "session_key user_id = ''session:'' @ user_id"

definition burst_key :: "string \<Rightarrow> string" where
  "burst_key user_id = ''burst:'' @ user_id @ '':1m''"

definition user_key :: "AuthEvent \<Rightarrow> string" where
  "user_key auth = ''auth:fail:user:'' @ au_user_id auth @ '':1m''"

definition ip_key :: "AuthEvent \<Rightarrow> string" where
  "ip_key auth = ''auth:fail:ip:'' @ sanitize_ip_for_key (au_ip_address auth) @ '':1m''"

definition MIN_TIME_SECONDS :: real where
  "MIN_TIME_SECONDS = 1"

subsection \<open>From script results to detections\<close>

definition replay_interpret ::
  "string \<Rightarrow> datetime \<Rightarrow> TransactionEvent \<Rightarrow> string \<Rightarrow> string \<Rightarrow> metric list \<times> DetectionEvent option" where
  "replay_interpret uuid4 now tx status stored =
     (if status = ''redelivery'' then ([(''replay_redeliveries_total'', [])], None)
      else if status \<noteq> ''replay'' then ([], None)
      else ([], Some \<lparr>detection_id = new_detection_id uuid4 ''replay'',
        detection_type = ''replay_attack'', severity = ''high'', de_user_id = tx_user_id tx,
        transaction_id = tx_event_id tx, de_timestamp = now, de_ip_address = None,
        details = [(''first_seen_record'', JStr stored)]\<rparr>))"

definition geo_interpret ::
  "string \<Rightarrow> datetime \<Rightarrow> TransactionEvent \<Rightarrow> tx_result \<Rightarrow> RedisConfig \<Rightarrow> exn + DetectionEvent option" where
  "geo_interpret uuid4 now tx res cfg =
     (if geo_status res \<noteq> ''anomaly'' then Inr None
      else (case (prev_lat res, prev_lon res) of
              (Some plat, Some plon) \<Rightarrow>
                Inr (Some \<lparr>detection_id = new_detection_id uuid4 ''geo'',
                  detection_type = ''geo_velocity_anomaly'', severity = ''high'', de_user_id = tx_user_id tx,
                  transaction_id = tx_event_id tx, de_timestamp = now, de_ip_address = None,
                  details =
                    [(''distance_km'', JFloat (distance_km res)),
                     (''elapsed_seconds'', JFloat (elapsed_s res)),
                     (''velocity_kmh'', JFloat (velocity_kmh res)),
                     (''threshold_kmh'', JFloat (geo_max_velocity_kmh cfg)),
                     (''from_location'', JArr [JFloat plat, JFloat plon]),
                     (''to_location'', JArr [JFloat (tx_latitude tx), JFloat (tx_longitude tx)])]\<rparr>)
            | _ \<Rightarrow> Inl (ValueError ''could not convert string to float'')))"

definition burst_interpret ::
  "string \<Rightarrow> datetime \<Rightarrow> TransactionEvent \<Rightarrow> int \<Rightarrow> RedisConfig \<Rightarrow> DetectionEvent option" where
  "burst_interpret uuid4 now tx count cfg =
     (if count \<le> burst_threshold cfg then None
      else Some \<lparr>detection_id = new_detection_id uuid4 ''burst'',
        detection_type = ''fraud_burst'', severity = ''high'', de_user_id = tx_user_id tx,
        transaction_id = tx_event_id tx, de_timestamp = now, de_ip_address = None,
        details = [(''count_in_window'', JInt count), (''window_seconds'', JInt (burst_window_seconds cfg)),
                   (''threshold'', JInt (burst_threshold cfg))]\<rparr>)"

definition cred_detection ::
  "string \<Rightarrow> datetime \<Rightarrow> AuthEvent \<Rightarrow> RedisConfig \<Rightarrow> string \<Rightarrow> int \<Rightarrow> int \<Rightarrow> DetectionEvent" where
  "cred_detection uuid4 now auth cfg scope count threshold =
     \<lparr>detection_id = new_detection_id uuid4 (''cred-'' @ scope),
      detection_type = ''credential_stuffing'', severity = ''high'', de_user_id = au_user_id auth,
      transaction_id = au_event_id auth, de_timestamp = now, de_ip_address = Some (au_ip_address auth),
      details = [(''scope'', JStr scope), (''count_in_window'', JInt count),
                 (''window_seconds'', JInt (auth_fail_window_seconds cfg)), (''threshold'', JInt threshold)]\<rparr>"

definition cred_interpret ::
  "string \<Rightarrow> datetime \<Rightarrow> AuthEvent \<Rightarrow> int \<Rightarrow> int \<Rightarrow> RedisConfig \<Rightarrow>
   DetectionEvent option \<times> DetectionEvent option" where
  "cred_interpret uuid4 now auth count_user count_ip cfg =
     (if auth_fail_user_threshold cfg < count_user
      then Some (cred_detection uuid4 now auth cfg ''user'' count_user (auth_fail_user_threshold cfg)) else None,
      if auth_fail_ip_threshold cfg < count_ip
      then Some (cred_detection uuid4 now auth cfg ''ip'' count_ip (auth_fail_ip_threshold cfg)) else None)"

declare replay_key_def [key_defs] session_key_def [key_defs] burst_key_def [key_defs]
  user_key_def [key_defs] ip_key_def [key_defs]

subsection \<open>The keys are families\<close>

interpretation burst: key_family burst_key "''burst:''" "\<lambda>_. True"
  by unfold_locales (auto simp: burst_key_def)

interpretation session: key_family session_key "''session:''" "\<lambda>_. True"
  by unfold_locales (auto simp: session_key_def)

interpretation auth_user: key_family "\<lambda>u. user_key (auth\<lparr>au_user_id := u\<rparr>)" "''auth:fail:user:''" "\<lambda>_. True"
  by unfold_locales (auto simp: user_key_def)

interpretation auth_ip: key_family "\<lambda>i. ip_key (auth\<lparr>au_ip_address := i\<rparr>)" "''auth:fail:ip:''"
  "\<lambda>ip. CHR ''-'' \<notin> set ip"
  by unfold_locales (auto simp: ip_key_def sanitize_ip_for_key_def replace_char_inj)

lemma auth_keys [simp]:
  "zset_key (user_key auth)" "zset_key (ip_key auth)" "user_key auth \<noteq> ip_key auth'"
  by (simp_all add: zset_key_def key_defs)

lemma tx_keys_good:
  "good_keys \<lparr>k_replay = replay_key sha256 tx, k_burst = burst_key u, k_session = session_key u\<rparr>"
  by (simp add: good_keys_def key_defs)

end
