(* ===== verification/Cooldown.thy ===== *)
theory Cooldown
  imports Detectors
begin

text \<open>
  \<open>detection_engine/cooldown.py\<close>: at most one detection per type and subject goes out in a cooldown
  window. The reference definition is \<open>winners\<close>: going through the detections in order, the first one
  with a free key takes it.
\<close>

definition COOLDOWN_KEY_PREFIX :: string where
  "COOLDOWN_KEY_PREFIX = ''cooldown:''"

definition cooldown_subject :: "DetectionEvent \<Rightarrow> string" where
  "cooldown_subject d =
     (case de_ip_address d of
        Some ip \<Rightarrow>
          (if dict_get (details d) ''scope'' = Some (JStr ''ip'') \<and> ip \<noteq> []
           then ''ip:'' @ replace_char (CHR '':'') (CHR ''-'') ip
           else ''user:'' @ de_user_id d)
      | None \<Rightarrow> ''user:'' @ de_user_id d)"

definition cooldown_key :: "DetectionEvent \<Rightarrow> string" where
  "cooldown_key d = COOLDOWN_KEY_PREFIX @ detection_type d @ '':'' @ cooldown_subject d"

text \<open>The loop over the detections and the replies to their SETs.\<close>

fun split_acquired :: "(DetectionEvent \<times> reply) list \<Rightarrow>
    DetectionEvent list \<times> string list \<times> metric list" where
  "split_acquired [] = ([], [], [])"
| "split_acquired ((d, ok) # rest) =
     (case split_acquired rest of (allowed, claimed, ms) \<Rightarrow>
        if truthy ok then (d # allowed, cooldown_key d # claimed, ms)
        else (allowed, claimed, (''detections_suppressed_total'', [detection_type d]) # ms))"

definition filter_cooled_down ::
  "'r redis \<Rightarrow> RedisConfig \<Rightarrow> DetectionEvent list \<Rightarrow>
   (('r, 'p) world, DetectionEvent list \<times> string list) action" where
  "filter_cooled_down rc cfg ds =
     (if ds = [] then ret ([], [])
      else if detection_cooldown_seconds cfg \<le> 0 then ret (ds, [])
      else bindE (on_redis (pipe_execute
                    (map (\<lambda>d. rc (SET_NX_EX (cooldown_key d) (detection_id d) (detection_cooldown_seconds cfg))) ds)))
             (\<lambda>acquired.
                case split_acquired (zip ds acquired) of (allowed, claimed, ms) \<Rightarrow>
                bindE (incs ms) (\<lambda>_. ret (allowed, claimed))))"

definition release_cooldown :: "'r redis \<Rightarrow> string list \<Rightarrow> ('r, unit) action" where
  "release_cooldown rc keys =
     (if keys = [] then ret () else bindE (rc (DEL keys)) (\<lambda>_. ret ()))"

definition should_emit :: "'r redis \<Rightarrow> RedisConfig \<Rightarrow> DetectionEvent \<Rightarrow> (('r, 'p) world, bool) action" where
  "should_emit rc cfg d = bindE (filter_cooled_down rc cfg [d]) (\<lambda>(allowed, _). ret (allowed \<noteq> []))"

subsection \<open>First one wins\<close>

fun winners :: "(string \<Rightarrow> bool) \<Rightarrow> DetectionEvent list \<Rightarrow> DetectionEvent list" where
  "winners taken [] = []"
| "winners taken (d # ds) =
     (if taken (cooldown_key d) then winners taken ds
      else d # winners (taken(cooldown_key d := True)) ds)"

fun losers :: "(string \<Rightarrow> bool) \<Rightarrow> DetectionEvent list \<Rightarrow> DetectionEvent list" where
  "losers taken [] = []"
| "losers taken (d # ds) =
     (if taken (cooldown_key d) then d # losers taken ds
      else losers (taken(cooldown_key d := True)) ds)"

definition claim :: "int \<Rightarrow> DetectionEvent list \<Rightarrow> keyspace \<Rightarrow> keyspace" where
  "claim ttl ds = fold (\<lambda>d. fmupd (cooldown_key d) (mk_entry (RStr (detection_id d)) (Some ttl))) ds"

lemma winners_free: "d \<in> set (winners taken ds) \<Longrightarrow> \<not> taken (cooldown_key d) \<and> d \<in> set ds"
  by (induction taken ds rule: winners.induct) (auto split: if_splits)

lemma winners_distinct: "distinct (map cooldown_key (winners taken ds))"
proof (induction taken ds rule: winners.induct)
  case (2 taken d ds)
  have "cooldown_key d \<notin> cooldown_key ` set (winners (taken(cooldown_key d := True)) ds)"
    using winners_free by fastforce
  with 2 show ?case by (cases "taken (cooldown_key d)") (simp_all only: winners.simps if_True if_False list.map distinct.simps set_map not_False_eq_True simp_thms)
qed simp

lemma winners_covered:
  "d \<in> set ds \<Longrightarrow> taken (cooldown_key d) \<or> cooldown_key d \<in> cooldown_key ` set (winners taken ds)"
  by (induction taken ds rule: winners.induct) (auto split: if_splits)

lemma winners_all_taken: "\<forall>d\<in>set ds. taken (cooldown_key d) \<Longrightarrow> winners taken ds = []"
  by (induction ds) auto

lemma claim_lookup:
  "fmlookup (claim ttl ds m) k =
     (if k \<in> cooldown_key ` set ds
      then Some (mk_entry (RStr (detection_id (last (filter (\<lambda>d. cooldown_key d = k) ds)))) (Some ttl))
      else fmlookup m k)"
  unfolding claim_def by (induction ds rule: rev_induct) auto

lemma set_nx_run:
  assumes "0 < ttl"
  shows "\<exists>rs. mapE (\<lambda>d. kv_step (SET_NX_EX (cooldown_key d) (detection_id d) ttl)) ds m =
      (Inr rs, claim ttl (winners (live m) ds) m) \<and>
    split_acquired (zip ds rs) =
      (winners (live m) ds, map cooldown_key (winners (live m) ds),
       map (\<lambda>d. (''detections_suppressed_total'', [detection_type d])) (losers (live m) ds))"
proof (induction ds arbitrary: m)
  case Nil
  show ?case by (simp add: ret_def claim_def)
next
  case (Cons d ds)
  let ?k = "cooldown_key d"
  let ?e = "mk_entry (RStr (detection_id d)) (Some ttl)"
  show ?case
  proof (cases "live m ?k")
    case True
    with Cons.IH [of m] assms show ?thesis
      by (auto simp: action_simps kv_simps)
  next
    case False
    have live: "live (fmupd ?k ?e m) = (live m)(?k := True)" by (rule ext) simp
    obtain rs where IH: "mapE (\<lambda>d. kv_step (SET_NX_EX (cooldown_key d) (detection_id d) ttl)) ds (fmupd ?k ?e m) =
      (Inr rs, claim ttl (winners ((live m)(?k := True)) ds) (fmupd ?k ?e m))"
      "split_acquired (zip ds rs) =
      (winners ((live m)(?k := True)) ds, map cooldown_key (winners ((live m)(?k := True)) ds),
       map (\<lambda>d. (''detections_suppressed_total'', [detection_type d])) (losers ((live m)(?k := True)) ds))"
      using Cons.IH [of "fmupd ?k ?e m"] unfolding live by blast
    have step: "kv_step (SET_NX_EX ?k (detection_id d) ttl) m = (Inr ROk, fmupd ?k ?e m)"
      using False assms by (simp add: kv_simps)
    have cl: "claim ttl (d # ws) m = claim ttl ws (fmupd ?k ?e m)" for ws
      by (simp add: claim_def)
    have w: "winners (live m) (d # ds) = d # winners ((live m)(?k := True)) ds"
      "losers (live m) (d # ds) = losers ((live m)(?k := True)) ds"
      using False by simp_all
    show ?thesis
      unfolding w cl
      using IH step by (intro exI [of _ "ROk # rs"]) (simp add: action_simps)
  qed
qed

lemma filter_cooled_down_kv:
  assumes "0 < detection_cooldown_seconds cfg"
  shows "filter_cooled_down kv_step cfg ds w =
    (Inr (winners (live (w_redis w)) ds, map cooldown_key (winners (live (w_redis w)) ds)),
     w\<lparr>w_redis := claim (detection_cooldown_seconds cfg) (winners (live (w_redis w)) ds) (w_redis w),
       w_metrics := w_metrics w @
         map (\<lambda>d. (''detections_suppressed_total'', [detection_type d])) (losers (live (w_redis w)) ds)\<rparr>)"
proof (cases ds)
  case Nil
  then show ?thesis by (simp add: filter_cooled_down_def ret_def claim_def)
next
  case (Cons d ds')
  obtain rs where run: "mapE (\<lambda>d. kv_step (SET_NX_EX (cooldown_key d) (detection_id d) (detection_cooldown_seconds cfg))) ds (w_redis w) =
      (Inr rs, claim (detection_cooldown_seconds cfg) (winners (live (w_redis w)) ds) (w_redis w))"
    and split: "split_acquired (zip ds rs) =
      (winners (live (w_redis w)) ds, map cooldown_key (winners (live (w_redis w)) ds),
       map (\<lambda>d. (''detections_suppressed_total'', [detection_type d])) (losers (live (w_redis w)) ds))"
    using set_nx_run [OF assms] by blast
  from pipe_execute_map_ok [OF run] split Cons assms show ?thesis
    by (simp add: filter_cooled_down_def on_redis_def bindE_def ret_def)
qed

lemma release_claimed:
  assumes "\<forall>d\<in>set ds. \<not> live m (cooldown_key d)"
  shows "fmdrop_set (cooldown_key ` set ds) (claim ttl ds m) = m"
  using assms by (intro fmap_ext) (auto simp: claim_lookup)

lemma release_cooldown_kv:
  "release_cooldown kv_step keys m = (Inr (), fmdrop_set (set keys) m)"
  by (simp add: release_cooldown_def action_simps kv_simps)

context redis_up
begin

lemma sim_filter_cooled_down:
  "sim (wmap (\<lambda>s. ks (obs s))) (filter_cooled_down rc cfg ds) (filter_cooled_down kv_step cfg ds)"
  unfolding filter_cooled_down_def by (intro sim_intros; simp)

lemma sim_release_cooldown:
  "sim (\<lambda>s. ks (obs s)) (release_cooldown rc keys) (release_cooldown kv_step keys)"
  unfolding release_cooldown_def by (intro sim_intros; simp)

end

lemma filter_cooled_down_run:
  assumes "redis_up rc obs" and "0 < detection_cooldown_seconds cfg"
    and "m = ks (obs (w_redis w))" and "ws = winners (live m) ds"
  shows "\<exists>w'. filter_cooled_down rc cfg ds w = (Inr (ws, map cooldown_key ws), w') \<and>
    ks (obs (w_redis w')) = claim (detection_cooldown_seconds cfg) ws m \<and> w_out w' = w_out w"
proof -
  have "\<exists>w'. filter_cooled_down rc cfg ds w = (Inr (ws, map cooldown_key ws), w') \<and>
    wmap (\<lambda>s. ks (obs s)) w' =
      (wmap (\<lambda>s. ks (obs s)) w)\<lparr>w_redis := claim (detection_cooldown_seconds cfg) ws m,
         w_metrics := w_metrics w @
           map (\<lambda>d. (''detections_suppressed_total'', [detection_type d])) (losers (live m) ds)\<rparr>"
    using assms(3,4) by (intro sim_run [OF redis_up.sim_filter_cooled_down [OF assms(1)]])
      (simp add: filter_cooled_down_kv [OF assms(2)])
  then obtain w' where run: "filter_cooled_down rc cfg ds w = (Inr (ws, map cooldown_key ws), w')"
    and eq: "wmap (\<lambda>s. ks (obs s)) w' =
      (wmap (\<lambda>s. ks (obs s)) w)\<lparr>w_redis := claim (detection_cooldown_seconds cfg) ws m,
         w_metrics := w_metrics w @
           map (\<lambda>d. (''detections_suppressed_total'', [detection_type d])) (losers (live m) ds)\<rparr>"
    by blast
  from run arg_cong [OF eq, of w_redis] arg_cong [OF eq, of w_out] show ?thesis by simp
qed

lemma live_claim: "live (claim ttl ds m) k \<longleftrightarrow> live m k \<or> k \<in> cooldown_key ` set ds"
  by (simp add: claim_lookup)

lemma claim_Nil [simp]: "claim ttl [] m = m"
  by (simp add: claim_def)

lemma winners_subseq: "subseq (winners taken ds) ds"
proof (induction taken ds rule: winners.induct)
  case (2 taken d ds)
  then show ?case by (cases "taken (cooldown_key d)") (auto simp del: fun_upd_apply)
qed simp

text \<open>
  (C25) The cooldown lets the first detection of each type and subject through and no other: against
  a server that is up and with a positive window, the detections let through are those the
  first-wins reference picks; they form a subsequence of the batch with pairwise distinct keys, none
  of which was taken before; afterwards every key of the batch is taken, and filtering the batch
  again lets nothing through and changes no key.
\<close>

theorem cooldown_first_wins:
  assumes "redis_up rc obs" and "0 < detection_cooldown_seconds cfg"
  shows "\<exists>allowed w1 w2. filter_cooled_down rc cfg ds w = (Inr (allowed, map cooldown_key allowed), w1) \<and>
    allowed = winners (live (ks (obs (w_redis w)))) ds \<and> subseq allowed ds \<and>
    distinct (map cooldown_key allowed) \<and>
    (\<forall>d\<in>set allowed. \<not> live (ks (obs (w_redis w))) (cooldown_key d)) \<and>
    (\<forall>d\<in>set ds. live (ks (obs (w_redis w1))) (cooldown_key d)) \<and>
    filter_cooled_down rc cfg ds w1 = (Inr ([], []), w2) \<and>
    ks (obs (w_redis w2)) = ks (obs (w_redis w1))"
proof -
  let ?m = "ks (obs (w_redis w))"
  let ?ws = "winners (live ?m) ds"
  obtain w1 where 1: "filter_cooled_down rc cfg ds w = (Inr (?ws, map cooldown_key ?ws), w1)"
    and k1: "ks (obs (w_redis w1)) = claim (detection_cooldown_seconds cfg) ?ws ?m"
    using filter_cooled_down_run [OF assms refl refl] by blast
  have taken: "\<forall>d\<in>set ds. live (ks (obs (w_redis w1))) (cooldown_key d)"
    using winners_covered [of _ ds "live ?m"] unfolding k1 live_claim by blast
  obtain w2 where 2: "filter_cooled_down rc cfg ds w1 = (Inr ([], []), w2)"
    and k2: "ks (obs (w_redis w2)) = ks (obs (w_redis w1))"
    using filter_cooled_down_run [OF assms refl refl, where w = w1 and ds = ds] winners_all_taken [OF taken] by auto
  have free: "\<forall>d\<in>set ?ws. \<not> live ?m (cooldown_key d)" using winners_free by blast
  show ?thesis
    by (intro exI conjI, rule 1, rule refl, rule winners_subseq, rule winners_distinct, rule free,
        rule taken, rule 2, rule k2)
qed

definition sample_detection :: "string \<Rightarrow> string \<Rightarrow> DetectionEvent" where
  "sample_detection i u = \<lparr>detection_id = i, detection_type = ''fraud_burst'', severity = ''high'',
     de_user_id = u, transaction_id = ''evt-1'', de_timestamp = sample_time, de_ip_address = None,
     details = []\<rparr>"

definition empty_world :: "(conn, 'p list) world" where
  "empty_world = \<lparr>w_redis = empty_conn, w_out = [], w_metrics = []\<rparr>"

lemma sample_cooldown_key [simp]:
  "cooldown_key (sample_detection i u) = ''cooldown:fraud_burst:user:'' @ u"
  by (simp add: sample_detection_def cooldown_key_def COOLDOWN_KEY_PREFIX_def cooldown_subject_def)

lemma sample_winners:
  "winners (live fmempty) [sample_detection ''a'' ''u'', sample_detection ''b'' ''u'', sample_detection ''c'' ''v''] =
     [sample_detection ''a'' ''u'', sample_detection ''c'' ''v'']"
  by simp

theorem cooldown_first_wins_witness:
  "\<exists>w1 w2 :: (conn, nat list) world. filter_cooled_down redis_step default_redis_config
       [sample_detection ''a'' ''u'', sample_detection ''b'' ''u'', sample_detection ''c'' ''v''] empty_world =
     (Inr ([sample_detection ''a'' ''u'', sample_detection ''c'' ''v''],
           map cooldown_key [sample_detection ''a'' ''u'', sample_detection ''c'' ''v'']), w1) \<and>
   filter_cooled_down redis_step default_redis_config
       [sample_detection ''a'' ''u'', sample_detection ''b'' ''u'', sample_detection ''c'' ''v''] w1 =
     (Inr ([], []), w2)"
proof -
  have "0 < detection_cooldown_seconds default_redis_config" by (simp add: default_redis_config_def)
  from cooldown_first_wins [OF mem.redis_up_axioms this, of
      "[sample_detection ''a'' ''u'', sample_detection ''b'' ''u'', sample_detection ''c'' ''v'']"
      "empty_world :: (conn, nat list) world"]
  show ?thesis unfolding empty_world_def empty_conn_def world.simps conn.simps sample_winners by blast
qed

text \<open>
  Releasing is the inverse of claiming: against a server that is up, giving back the keys that
  a call claimed restores the key space the call found, key for key, so that a retry is allowed
  exactly the same detections.
\<close>

theorem release_undoes_claim:
  assumes "redis_up rc obs" and "0 < detection_cooldown_seconds cfg"
  shows "\<exists>allowed claimed w1 s2. filter_cooled_down rc cfg ds w = (Inr (allowed, claimed), w1) \<and>
    release_cooldown rc claimed (w_redis w1) = (Inr (), s2) \<and> ks (obs s2) = ks (obs (w_redis w)) \<and>
    fst (filter_cooled_down rc cfg ds (w1\<lparr>w_redis := s2\<rparr>)) = Inr (allowed, claimed)"
proof -
  let ?m = "ks (obs (w_redis w))"
  let ?ws = "winners (live ?m) ds"
  obtain w1 where 1: "filter_cooled_down rc cfg ds w = (Inr (?ws, map cooldown_key ?ws), w1)"
    and k1: "ks (obs (w_redis w1)) = claim (detection_cooldown_seconds cfg) ?ws ?m"
    using filter_cooled_down_run [OF assms refl refl] by blast
  have "\<forall>d\<in>set ?ws. \<not> live ?m (cooldown_key d)" using winners_free by blast
  then have restored: "fmdrop_set (set (map cooldown_key ?ws)) (ks (obs (w_redis w1))) = ?m"
    unfolding k1 set_map by (rule release_claimed)
  obtain s2 where 2: "release_cooldown rc (map cooldown_key ?ws) (w_redis w1) = (Inr (), s2)"
    and k2: "ks (obs s2) = ?m"
    using sim_run [OF redis_up.sim_release_cooldown [OF assms(1)] release_cooldown_kv] restored by metis
  have "fst (filter_cooled_down rc cfg ds (w1\<lparr>w_redis := s2\<rparr>)) = Inr (?ws, map cooldown_key ?ws)"
    using filter_cooled_down_run [OF assms refl refl, where w = "w1\<lparr>w_redis := s2\<rparr>" and ds = ds] by (auto simp: k2)
  with 1 2 k2 show ?thesis by blast
qed

theorem release_undoes_claim_witness:
  "\<exists>(w1 :: (conn, nat list) world) s2.
     filter_cooled_down redis_step default_redis_config [sample_detection ''a'' ''u''] empty_world =
       (Inr ([sample_detection ''a'' ''u''], [''cooldown:fraud_burst:user:u'']), w1) \<and>
     release_cooldown redis_step [''cooldown:fraud_burst:user:u''] (w_redis w1) = (Inr (), s2) \<and> ks s2 = fmempty"
proof -
  have pos: "0 < detection_cooldown_seconds default_redis_config" by (simp add: default_redis_config_def)
  let ?w = "empty_world :: (conn, nat list) world"
  obtain allowed claimed w1 s2 where
    run: "filter_cooled_down redis_step default_redis_config [sample_detection ''a'' ''u''] ?w = (Inr (allowed, claimed), w1)"
    and rel: "release_cooldown redis_step claimed (w_redis w1) = (Inr (), s2)" "ks s2 = ks (w_redis ?w)"
    using release_undoes_claim [OF mem.redis_up_axioms pos, of "[sample_detection ''a'' ''u'']" ?w] by blast
  have "claimed = [''cooldown:fraud_burst:user:u''] \<and> allowed = [sample_detection ''a'' ''u'']"
    using run filter_cooled_down_run [OF mem.redis_up_axioms pos refl refl, where w = ?w and
        ds = "[sample_detection ''a'' ''u'']"]
    by (auto simp: empty_world_def empty_conn_def)
  with run rel show ?thesis by (auto simp: empty_world_def empty_conn_def)
qed

end
