(* ===== verification/Pipeline.thy ===== *)
theory Pipeline
  imports Cooldown
begin

text \<open>
  \<open>detection_engine/pipeline.py\<close>: a batch of records becomes detections in four phases, each one
  pipelined round trip to Redis. Pydantic's validators, SHA-256, UUIDs, the clock and Python's
  \<open>str\<close> of a JSON value that is not a text are fields of the pipeline object. A call of a Lua script
  in a pipeline is the script's action; a batch that failed part of the way leaves what it did.
\<close>

subsection \<open>Items and results\<close>

datatype event = Tx TransactionEvent | Auth AuthEvent

datatype check_result = TxResult tx_result | AuthResult int int

record Item =
  it_index :: nat
  it_event :: event
  it_ref :: string
  it_blocked :: bool
  it_result :: "check_result option"
  it_candidates :: "DetectionEvent list"

abbreviation new_item :: "nat \<Rightarrow> event \<Rightarrow> string \<Rightarrow> Item" where
  "new_item i ev ref \<equiv> \<lparr>it_index = i, it_event = ev, it_ref = ref, it_blocked = False,
     it_result = None, it_candidates = []\<rparr>"

fun is_tx :: "event \<Rightarrow> bool" where
  "is_tx (Tx _) = True"
| "is_tx (Auth _) = False"

record BatchResult =
  emitted :: "DetectionEvent list"
  br_failures :: "(nat \<times> exn) list"
  claimed_cooldown_keys :: "string list"

record ('r, 'p) DetectionPipeline =
  dp_redis :: "'r redis"
  dp_emit :: "DetectionEvent \<Rightarrow> ('p, unit) action"
  dp_emit_audit :: "(json \<Rightarrow> ('p, unit) action) option"
  dp_kafka_config :: KafkaConfig
  dp_redis_config :: RedisConfig
  dp_validate_tx :: "json \<Rightarrow> exn + TransactionEvent"
  dp_validate_auth :: "json \<Rightarrow> exn + AuthEvent"
  dp_sha256 :: "string \<Rightarrow> string"
  dp_uuid5 :: "string \<Rightarrow> string \<Rightarrow> string"
  dp_uuid4 :: string
  dp_now :: datetime
  dp_str :: "json \<Rightarrow> string"

definition DECISION_RESULT_PREFIX :: string where
  "DECISION_RESULT_PREFIX = ''decision:result:''"

definition record_ref :: "string \<Rightarrow> int \<Rightarrow> int \<Rightarrow> string" where
  "record_ref topic part off = topic @ '':'' @ show_int part @ '':'' @ show_int off"

subsection \<open>Identities\<close>

definition ID_PREFIX :: "(string \<times> string) list" where
  "ID_PREFIX = [(''replay_attack'', ''replay''), (''geo_velocity_anomaly'', ''geo''),
     (''fraud_burst'', ''burst''), (''credential_stuffing'', ''cred'')]"

text \<open>An f-string's rendering of a JSON value, and Python's truth value of it.\<close>

fun json_text :: "(json \<Rightarrow> string) \<Rightarrow> json \<Rightarrow> string" where
  "json_text str (JStr s) = s"
| "json_text str v = str v"

fun json_truthy :: "json \<Rightarrow> bool" where
  "json_truthy JNull = False"
| "json_truthy (JBool b) = b"
| "json_truthy (JInt i) = (i \<noteq> 0)"
| "json_truthy (JFloat x) = (x \<noteq> 0)"
| "json_truthy (JSpecial s) = True"
| "json_truthy (JStr s) = (s \<noteq> [])"
| "json_truthy (JArr xs) = (xs \<noteq> [])"
| "json_truthy (JObj kvs) = (kvs \<noteq> [])"

definition assign_stable_id ::
  "('r, 'p) DetectionPipeline \<Rightarrow> string \<Rightarrow> DetectionEvent \<Rightarrow> DetectionEvent" where
  "assign_stable_id P ref d =
     (let scope = dict_get_default (details d) ''scope'' (JStr []);
          pfx = (case map_of ID_PREFIX (detection_type d) of None \<Rightarrow> ''det'' | Some p \<Rightarrow> p);
          pfx' = (if detection_type d = ''credential_stuffing'' \<and> json_truthy scope
                  then pfx @ ''-'' @ json_text (dp_str P) scope else pfx)
      in d\<lparr>detection_id := stable_detection_id (dp_uuid5 P) pfx' ref (detection_type d) (json_text (dp_str P) scope)\<rparr>)"

subsection \<open>Refused events\<close>

definition blocked_audit :: "event \<Rightarrow> json" where
  "blocked_audit ev =
     (case ev of
        Tx tx \<Rightarrow> JObj [(''event'', JStr ''transaction_blocked''), (''reason'', JStr ''quarantine''),
                 (''user_id'', JStr (tx_user_id tx)), (''event_id'', JStr (tx_event_id tx)), (''ip_address'', JNull)]
      | Auth au \<Rightarrow> JObj [(''event'', JStr ''auth_blocked''), (''reason'', JStr ''ip_block''),
                 (''user_id'', JStr (au_user_id au)), (''event_id'', JStr (au_event_id au)),
                 (''ip_address'', JStr (au_ip_address au))])"

definition blocked_metrics :: "event \<Rightarrow> metric list" where
  "blocked_metrics ev =
     (if is_tx ev
      then [(''events_blocked_total'', [''transaction'', ''quarantine'']), (''transactions_processed_total'', [''blocked''])]
      else [(''events_blocked_total'', [''auth'', ''ip_block''])])"

definition blocked :: "('r, 'p) DetectionPipeline \<Rightarrow> Item \<Rightarrow> (('r, 'p) world, unit) action" where
  "blocked P it =
     bindE (incs (blocked_metrics (it_event it))) (\<lambda>_.
     case dp_emit_audit P of
       None \<Rightarrow> ret ()
     | Some emit_audit \<Rightarrow> on_out (emit_audit (blocked_audit (it_event it))))"

subsection \<open>Checks\<close>

fun enforcement_key :: "event \<Rightarrow> string" where
  "enforcement_key (Tx tx) = quarantine_key (tx_user_id tx)"
| "enforcement_key (Auth au) = ip_block_key (au_ip_address au)"

fun analysed :: "event \<Rightarrow> bool" where
  "analysed (Tx _) = True"
| "analysed (Auth au) = (\<not> au_success au)"

definition tx_check_keys :: "('r, 'p) DetectionPipeline \<Rightarrow> TransactionEvent \<Rightarrow> tx_keys" where
  "tx_check_keys P tx = \<lparr>k_replay = replay_key (dp_sha256 P) tx, k_burst = burst_key (tx_user_id tx),
     k_session = session_key (tx_user_id tx)\<rparr>"

definition tx_check_args :: "('r, 'p) DetectionPipeline \<Rightarrow> TransactionEvent \<Rightarrow> string \<Rightarrow> tx_args" where
  "tx_check_args P tx ref =
     (let cfg = dp_redis_config P; now_ts = timestamp (tx_timestamp tx)
      in \<lparr>a_record_ref = ref, a_replay_ttl_s = replay_ttl_hours cfg * 3600, a_event_id = tx_event_id tx,
          a_now_ts = now_ts, a_burst_cutoff = now_ts - of_int (burst_window_seconds cfg),
          a_burst_key_ttl_s = burst_key_ttl_seconds cfg, a_latitude = tx_latitude tx,
          a_longitude = tx_longitude tx, a_session_ttl_s = session_ttl_days cfg * 86400,
          a_max_velocity_kmh = geo_max_velocity_kmh cfg, a_min_time_s = MIN_TIME_SECONDS\<rparr>)"

definition queue_tx_check ::
  "('r, 'p) DetectionPipeline \<Rightarrow> TransactionEvent \<Rightarrow> string \<Rightarrow> ('r, check_result) action" where
  "queue_tx_check P tx ref =
     bindE (tx_check (dp_redis P) (tx_check_keys P tx) (tx_check_args P tx ref)) (\<lambda>r. ret (TxResult r))"

definition queue_auth_check :: "('r, 'p) DetectionPipeline \<Rightarrow> AuthEvent \<Rightarrow> ('r, check_result) action" where
  "queue_auth_check P au =
     (let cfg = dp_redis_config P; now_ts = timestamp (au_timestamp au)
      in bindE (auth_check (dp_redis P) (user_key au, ip_key au) (au_event_id au) now_ts
                  (now_ts - of_int (auth_fail_window_seconds cfg)) (auth_fail_key_ttl_seconds cfg))
           (\<lambda>(cu, ci). ret (AuthResult cu ci)))"

definition queue_check :: "('r, 'p) DetectionPipeline \<Rightarrow> Item \<Rightarrow> ('r, check_result) action" where
  "queue_check P it =
     (case it_event it of Tx tx \<Rightarrow> queue_tx_check P tx (it_ref it) | Auth au \<Rightarrow> queue_auth_check P au)"

subsection \<open>Interpretation\<close>

definition somes :: "'a option list \<Rightarrow> 'a list" where
  "somes xs = List.map_filter (\<lambda>x. x) xs"

text \<open>The candidates of one item; \<open>None\<close> for a transaction the decision service already scored.\<close>

definition interpret_item ::
  "('r, 'p) DetectionPipeline \<Rightarrow> Item \<Rightarrow> (('r, 'p) world, DetectionEvent list option) action" where
  "interpret_item P it =
     (let cfg = dp_redis_config P
      in case (it_event it, it_result it) of
           (Tx tx, Some (TxResult res)) \<Rightarrow>
             (if replay_status res = ''prescored'' then ret None
              else
                (case replay_interpret (dp_uuid4 P) (dp_now P) tx (replay_status res) (stored_ref res) of (ms, d1) \<Rightarrow>
                 bindE (incs ms) (\<lambda>_.
                 (case geo_interpret (dp_uuid4 P) (dp_now P) tx res cfg of
                    Inl e \<Rightarrow> raise_exn e
                  | Inr d2 \<Rightarrow>
                      (let ds = somes [d1, d2, burst_interpret (dp_uuid4 P) (dp_now P) tx (burst_count res) cfg]
                       in bindE (inc (''transactions_processed_total'', [if ds \<noteq> [] then ''detected'' else ''clean''])) (\<lambda>_.
                          ret (Some ds)))))))
         | (Auth au, Some (AuthResult cu ci)) \<Rightarrow>
             (case cred_interpret (dp_uuid4 P) (dp_now P) au cu ci cfg of (d1, d2) \<Rightarrow> ret (Some (somes [d1, d2])))
         | _ \<Rightarrow> raise_exn (OtherError ''TypeError''))"

text \<open>
  Iterating over \<open>decision.get("reasons", [])\<close>, and the fields of a reason, with the exceptions Python
  raises on values of another shape.
\<close>

definition iter_json :: "json \<Rightarrow> exn + json list" where
  "iter_json v =
     (case v of
        JArr xs \<Rightarrow> Inr xs
      | JStr s \<Rightarrow> Inr (map (\<lambda>c. JStr [c]) s)
      | JObj kvs \<Rightarrow> Inr (map (\<lambda>kv. JStr (fst kv)) kvs)
      | _ \<Rightarrow> Inl (OtherError ''TypeError''))"

definition decision_types :: "string list" where
  "decision_types = [''replay_attack'', ''geo_velocity_anomaly'', ''fraud_burst'']"

fun reason_detections :: "TransactionEvent \<Rightarrow> json \<Rightarrow> json list \<Rightarrow> exn + DetectionEvent list" where
  "reason_detections tx verdict [] = Inr []"
| "reason_detections tx verdict (JObj r # rest) =
     (case dict_get r ''type'' of
        Some (JStr dtype) \<Rightarrow>
          (if dtype \<notin> set decision_types then reason_detections tx verdict rest
           else
             (case dict_get_default r ''details'' (JObj []) of
                JObj ds \<Rightarrow>
                  (case reason_detections tx verdict rest of
                     Inl e \<Rightarrow> Inl e
                   | Inr out \<Rightarrow>
                       Inr (\<lparr>detection_id = ''pending'', detection_type = dtype, severity = ''high'',
                             de_user_id = tx_user_id tx, transaction_id = tx_event_id tx,
                             de_timestamp = tx_timestamp tx, de_ip_address = None,
                             details = ds @ [(''source'', JStr ''decision-service''), (''verdict'', verdict)]\<rparr> # out))
              | _ \<Rightarrow> Inl (OtherError ''TypeError'')))
      | _ \<Rightarrow> reason_detections tx verdict rest)"
| "reason_detections tx verdict (_ # rest) = Inl (OtherError ''AttributeError'')"

definition detections_from_decision :: "TransactionEvent \<Rightarrow> reply \<Rightarrow> exn + DetectionEvent list" where
  "detections_from_decision tx raw =
     (case raw of
        RBulk text \<Rightarrow>
          (if text = [] then Inr []
           else (case json_loads text of
                   None \<Rightarrow> Inr []
                 | Some (JObj decision) \<Rightarrow>
                     (case iter_json (dict_get_default decision ''reasons'' (JArr [])) of
                        Inl e \<Rightarrow> Inl e
                      | Inr reasons \<Rightarrow> reason_detections tx (dict_get_default decision ''verdict'' JNull) reasons)
                 | Some _ \<Rightarrow> Inl (OtherError ''AttributeError'')))
      | _ \<Rightarrow> Inr [])"

definition decided_item ::
  "('r, 'p) DetectionPipeline \<Rightarrow> Item \<times> reply \<Rightarrow> (('r, 'p) world, DetectionEvent list) action" where
  "decided_item P itr =
     (case itr of (it, raw) \<Rightarrow>
        (case it_event it of
           Auth _ \<Rightarrow> raise_exn (OtherError ''TypeError'')
         | Tx tx \<Rightarrow>
             (case detections_from_decision tx raw of
                Inl e \<Rightarrow> raise_exn e
              | Inr ds \<Rightarrow> bindE (inc (''transactions_processed_total'', [''prescored''])) (\<lambda>_. ret ds))))"

definition count_detection :: "('r, 'p) DetectionPipeline \<Rightarrow> DetectionEvent \<Rightarrow> metric list" where
  "count_detection P d =
     (let dtype = detection_type d
      in if dtype = ''replay_attack'' then [(''replay_detections_total'', [dtype])]
         else if dtype = ''geo_velocity_anomaly'' then [(''geo_velocity_detections_total'', [dtype])]
         else if dtype = ''fraud_burst'' then [(''fraud_burst_detections_total'', [dtype])]
         else if dtype = ''credential_stuffing''
         then [(''credential_stuffing_detections_total'',
                [json_text (dp_str P) (dict_get_default (details d) ''scope'' (JStr ''user''))])]
         else [])"

subsection \<open>The phases\<close>

text \<open>The candidates of the prescored items come in later, in their places.\<close>

fun fill :: "'a option list \<Rightarrow> 'a list \<Rightarrow> 'a list" where
  "fill [] ys = []"
| "fill (Some x # xs) ys = x # fill xs ys"
| "fill (None # xs) [] = []"
| "fill (None # xs) (y # ys) = y # fill xs ys"

definition prescored_items :: "Item list \<Rightarrow> DetectionEvent list option list \<Rightarrow> Item list" where
  "prescored_items items cs = map fst (filter (\<lambda>(it, c). c = None) (zip items cs))"

fun decision_key :: "event \<Rightarrow> string" where
  "decision_key (Tx tx) = DECISION_RESULT_PREFIX @ tx_event_id tx"
| "decision_key (Auth au) = DECISION_RESULT_PREFIX @ au_event_id au"

definition enforce :: "('r, 'p) DetectionPipeline \<Rightarrow> Item list \<Rightarrow> (('r, 'p) world, Item list) action" where
  "enforce P items =
     bindE (on_redis (pipe_execute (map (\<lambda>it. dp_redis P (EXISTS (enforcement_key (it_event it)))) items))) (\<lambda>flags.
     let marked = map2 (\<lambda>it flag. it\<lparr>it_blocked := truthy flag\<rparr>) items flags
     in bindE (forE (blocked P) (filter it_blocked marked)) (\<lambda>_. ret marked))"

definition check :: "('r, 'p) DetectionPipeline \<Rightarrow> Item list \<Rightarrow> (('r, 'p) world, Item list) action" where
  "check P items =
     (let active = filter (\<lambda>it. \<not> it_blocked it \<and> analysed (it_event it)) items
      in if active = [] then ret []
         else bindE (on_redis (pipe_execute (map (queue_check P) active))) (\<lambda>results.
              ret (map2 (\<lambda>it res. it\<lparr>it_result := Some res\<rparr>) active results)))"

definition decide :: "('r, 'p) DetectionPipeline \<Rightarrow> Item list \<Rightarrow> (('r, 'p) world, DetectionEvent list list) action" where
  "decide P prescored =
     (if prescored = [] then ret []
      else bindE (on_redis (pipe_execute (map (\<lambda>it. dp_redis P (GET (decision_key (it_event it)))) prescored))) (\<lambda>payloads.
           mapE (decided_item P) (zip prescored payloads)))"

definition run_batch :: "('r, 'p) DetectionPipeline \<Rightarrow> Item list \<Rightarrow> (('r, 'p) world, BatchResult) action" where
  "run_batch P items =
     (if items = [] then ret \<lparr>emitted = [], br_failures = [], claimed_cooldown_keys = []\<rparr>
      else
        bindE (enforce P items) (\<lambda>marked.
        bindE (check P marked) (\<lambda>active.
        bindE (mapE (interpret_item P) active) (\<lambda>cs.
        bindE (decide P (prescored_items active cs)) (\<lambda>decided.
        let finished = map2 (\<lambda>it ds. it\<lparr>it_candidates := map (assign_stable_id P (it_ref it)) ds\<rparr>) active (fill cs decided);
            candidates = concat (map it_candidates finished)
        in bindE (incs (concat (map (count_detection P) candidates))) (\<lambda>_.
           bindE (filter_cooled_down (dp_redis P) (dp_redis_config P) candidates) (\<lambda>(allowed, claimed).
           bindE (forE (\<lambda>d. on_out (dp_emit P d)) allowed) (\<lambda>_.
           ret \<lparr>emitted = allowed, br_failures = [], claimed_cooldown_keys = claimed\<rparr>))))))))"

definition release_claims :: "('r, 'p) DetectionPipeline \<Rightarrow> string list \<Rightarrow> (('r, 'p) world, unit) action" where
  "release_claims P keys = on_redis (release_cooldown (dp_redis P) keys)"

subsection \<open>Entry points\<close>

definition parse_record ::
  "('r, 'p) DetectionPipeline \<Rightarrow> nat \<Rightarrow> string \<times> int \<times> int \<times> json \<Rightarrow> exn + Item" where
  "parse_record P i rec =
     (case rec of (topic, part, off, value) \<Rightarrow>
        (if topic = auth_events_topic (dp_kafka_config P)
         then map_sum id (\<lambda>au. new_item i (Auth au) (record_ref topic part off)) (dp_validate_auth P value)
         else map_sum id (\<lambda>tx. new_item i (Tx tx) (record_ref topic part off)) (dp_validate_tx P value)))"

fun parse_records ::
  "('r, 'p) DetectionPipeline \<Rightarrow> nat \<Rightarrow> (string \<times> int \<times> int \<times> json) list \<Rightarrow> exn + Item list \<times> (nat \<times> exn) list" where
  "parse_records P i [] = Inr ([], [])"
| "parse_records P i (rec # recs) =
     (case parse_record P i rec of
        Inr it \<Rightarrow> map_sum id (\<lambda>(items, fs). (it # items, fs)) (parse_records P (Suc i) recs)
      | Inl e \<Rightarrow>
          (case e of
             ValidationError _ \<Rightarrow> map_sum id (\<lambda>(items, fs). (items, (i, e) # fs)) (parse_records P (Suc i) recs)
           | _ \<Rightarrow> Inl e))"

definition handle_batch ::
  "('r, 'p) DetectionPipeline \<Rightarrow> (string \<times> int \<times> int \<times> json) list \<Rightarrow> (('r, 'p) world, BatchResult) action" where
  "handle_batch P records =
     (case parse_records P 0 records of
        Inl e \<Rightarrow> raise_exn e
      | Inr (items, fs) \<Rightarrow> bindE (run_batch P items) (\<lambda>result. ret (result\<lparr>br_failures := fs\<rparr>)))"

definition handle_record ::
  "('r, 'p) DetectionPipeline \<Rightarrow> string \<times> int \<times> int \<times> json \<Rightarrow> (('r, 'p) world, DetectionEvent list) action" where
  "handle_record P rec =
     bindE (handle_batch P [rec]) (\<lambda>result.
     case map_of (br_failures result) 0 of
       Some e \<Rightarrow> raise_exn e
     | None \<Rightarrow> ret (emitted result))"

definition handle_transaction ::
  "('r, 'p) DetectionPipeline \<Rightarrow> TransactionEvent \<Rightarrow> string option \<Rightarrow> (('r, 'p) world, DetectionEvent list) action" where
  "handle_transaction P tx ref =
     (let r = (case ref of Some x \<Rightarrow> if x = [] then ''direct:'' @ dp_uuid4 P else x | None \<Rightarrow> ''direct:'' @ dp_uuid4 P)
      in bindE (run_batch P [new_item 0 (Tx tx) r]) (\<lambda>result. ret (emitted result)))"

definition handle_auth :: "('r, 'p) DetectionPipeline \<Rightarrow> AuthEvent \<Rightarrow> (('r, 'p) world, DetectionEvent list) action" where
  "handle_auth P au =
     bindE (run_batch P [new_item 0 (Auth au) (''direct-auth:'' @ au_event_id au)]) (\<lambda>result. ret (emitted result))"

end
