(* ===== verification/PipelineRun.thy ===== *)
theory PipelineRun
  imports Pipeline
begin

text \<open>
  What a run of the detection pipeline computes, against a server that is up: the checks one after
  another on the key space (\<open>checks\<close>), the candidates of each item, the audit messages of refused
  events and the detections found in stored decisions, phase by phase.
\<close>

subsection \<open>The pipeline over key spaces\<close>

definition on_keys :: "('r, 'p) DetectionPipeline \<Rightarrow> (keyspace, 'p) DetectionPipeline" where
  "on_keys P = \<lparr>dp_redis = kv_step, dp_emit = dp_emit P, dp_emit_audit = dp_emit_audit P,
     dp_kafka_config = dp_kafka_config P, dp_redis_config = dp_redis_config P,
     dp_validate_tx = dp_validate_tx P, dp_validate_auth = dp_validate_auth P, dp_sha256 = dp_sha256 P,
     dp_uuid5 = dp_uuid5 P, dp_uuid4 = dp_uuid4 P, dp_now = dp_now P, dp_str = dp_str P\<rparr>"

lemma on_keys_sel [simp]:
  "dp_redis (on_keys P) = kv_step" "dp_emit (on_keys P) = dp_emit P" "dp_emit_audit (on_keys P) = dp_emit_audit P"
  "dp_kafka_config (on_keys P) = dp_kafka_config P" "dp_redis_config (on_keys P) = dp_redis_config P"
  "dp_validate_tx (on_keys P) = dp_validate_tx P" "dp_validate_auth (on_keys P) = dp_validate_auth P"
  "dp_sha256 (on_keys P) = dp_sha256 P" "dp_uuid5 (on_keys P) = dp_uuid5 P" "dp_uuid4 (on_keys P) = dp_uuid4 P"
  "dp_now (on_keys P) = dp_now P" "dp_str (on_keys P) = dp_str P"
  by (simp_all add: on_keys_def)

lemma on_keys_pure [simp]:
  "assign_stable_id (on_keys P) = assign_stable_id P" "count_detection (on_keys P) = count_detection P"
  "tx_check_keys (on_keys P) = tx_check_keys P" "tx_check_args (on_keys P) = tx_check_args P"
  "parse_record (on_keys P) = parse_record P"
  unfolding assign_stable_id_def [abs_def] count_detection_def [abs_def] tx_check_keys_def [abs_def]
    tx_check_args_def [abs_def] parse_record_def [abs_def] on_keys_sel
  by (rule refl)+

context redis_up
begin

lemma sim_queue_check:
  assumes "dp_redis P = rc"
  shows "sim (\<lambda>s. ks (obs s)) (queue_check P it) (queue_check (on_keys P) it)"
  unfolding queue_check_def queue_tx_check_def queue_auth_check_def Let_def assms on_keys_sel on_keys_pure
  by (cases "it_event it") (simp_all, (intro sim_intros sim_tx_check sim_auth_check)+)

lemma sim_blocked: "sim (wmap (\<lambda>s. ks (obs s))) (blocked P it) (blocked (on_keys P) it)"
  unfolding blocked_def on_keys_sel by (intro sim_intros)

lemma sim_enforce:
  assumes "dp_redis P = rc"
  shows "sim (wmap (\<lambda>s. ks (obs s))) (enforce P items) (enforce (on_keys P) items)"
  unfolding enforce_def assms on_keys_sel by (intro sim_intros sim_blocked; simp)

lemma sim_check:
  assumes "dp_redis P = rc"
  shows "sim (wmap (\<lambda>s. ks (obs s))) (check P items) (check (on_keys P) items)"
  unfolding check_def Let_def by (intro sim_intros sim_queue_check assms)

lemma sim_case_sum:
  "(\<And>e. sim h (f e) (f' e)) \<Longrightarrow> (\<And>x. sim h (g x) (g' x)) \<Longrightarrow>
   sim h (case v of Inl e \<Rightarrow> f e | Inr x \<Rightarrow> g x) (case v of Inl e \<Rightarrow> f' e | Inr x \<Rightarrow> g' x)"
  by (cases v) simp_all

lemma sim_interpret: "sim (wmap (\<lambda>s. ks (obs s))) (interpret_item P it) (interpret_item (on_keys P) it)"
  unfolding interpret_item_def Let_def on_keys_sel
  by (cases "it_event it"; cases "it_result it")
    (auto split: check_result.splits intro!: sim_intros sim_case_sum)

lemma sim_decided: "sim (wmap (\<lambda>s. ks (obs s))) (decided_item P itr) (decided_item (on_keys P) itr)"
  unfolding decided_item_def by (cases itr) (auto split: event.splits sum.splits intro!: sim_intros)

lemma sim_decide:
  assumes "dp_redis P = rc"
  shows "sim (wmap (\<lambda>s. ks (obs s))) (decide P its) (decide (on_keys P) its)"
  unfolding decide_def assms on_keys_sel by (intro sim_intros sim_decided; simp)

lemma sim_run_batch:
  assumes "dp_redis P = rc"
  shows "sim (wmap (\<lambda>s. ks (obs s))) (run_batch P items) (run_batch (on_keys P) items)"
  unfolding run_batch_def Let_def assms on_keys_sel on_keys_pure
  by (intro sim_intros sim_enforce sim_check sim_interpret sim_decide sim_filter_cooled_down assms)

end

subsection \<open>The checks\<close>

definition auth_window :: "('r, 'p) DetectionPipeline \<Rightarrow> keyspace \<Rightarrow> string \<Rightarrow> AuthEvent \<Rightarrow> (string, real) fmap" where
  "auth_window P m key au =
     window_after m key (timestamp (au_timestamp au) - of_int (auth_fail_window_seconds (dp_redis_config P)))
       (timestamp (au_timestamp au)) (au_event_id au)"

definition auth_write :: "('r, 'p) DetectionPipeline \<Rightarrow> string \<Rightarrow> AuthEvent \<Rightarrow> keyspace \<Rightarrow> keyspace" where
  "auth_write P key au m =
     fmupd key (mk_entry (RZSet (auth_window P m key au)) (Some (auth_fail_key_ttl_seconds (dp_redis_config P)))) m"

definition check_one :: "('r, 'p) DetectionPipeline \<Rightarrow> keyspace \<Rightarrow> Item \<Rightarrow> check_result \<times> keyspace" where
  "check_one P m it =
     (case it_event it of
        Tx tx \<Rightarrow> (TxResult (tx_outcome m (tx_check_keys P tx) (tx_check_args P tx (it_ref it))),
                 tx_state m (tx_check_keys P tx) (tx_check_args P tx (it_ref it)))
      | Auth au \<Rightarrow> (let m1 = auth_write P (user_key au) au m
                   in (AuthResult (int (fcard (fmdom (auth_window P m (user_key au) au))))
                                  (int (fcard (fmdom (auth_window P m1 (ip_key au) au)))),
                       auth_write P (ip_key au) au m1)))"

fun checks :: "('r, 'p) DetectionPipeline \<Rightarrow> keyspace \<Rightarrow> Item list \<Rightarrow> check_result list \<times> keyspace" where
  "checks P m [] = ([], m)"
| "checks P m (it # its) =
     (case check_one P m it of (r, m1) \<Rightarrow> case checks P m1 its of (rs, m2) \<Rightarrow> (r # rs, m2))"

lemma tx_args_ok: "config_ok (dp_redis_config P) \<Longrightarrow> args_ok (tx_check_args P tx ref)"
  by (simp add: args_ok_def tx_check_args_def Let_def config_ok_def)

lemma tx_check_keys_good [simp]: "good_keys (tx_check_keys P tx)"
  unfolding tx_check_keys_def by (rule tx_keys_good)

lemma queue_check_kv:
  assumes "dp_redis P = kv_step" and "config_ok (dp_redis_config P)" and "typed_ks m"
  shows "queue_check P it m = (Inr (fst (check_one P m it)), snd (check_one P m it))"
    and "typed_ks (snd (check_one P m it))"
proof -
  have auth: "typed_ks m' \<Longrightarrow> zset_key key \<Longrightarrow>
      window_step kv_step key (timestamp (au_timestamp au) - of_int (auth_fail_window_seconds (dp_redis_config P)))
        (timestamp (au_timestamp au)) (au_event_id au) (auth_fail_key_ttl_seconds (dp_redis_config P)) m' =
      (Inr (int (fcard (fmdom (auth_window P m' key au)))), auth_write P key au m')"
    and typed: "typed_ks m' \<Longrightarrow> zset_key key \<Longrightarrow> typed_ks (auth_write P key au m')" for m' key au
    using assms(2) by (auto simp: window_step_kv typed_ks_is auth_window_def auth_write_def config_ok_def)
  show "queue_check P it m = (Inr (fst (check_one P m it)), snd (check_one P m it))"
  proof (cases "it_event it")
    case (Tx tx)
    then show ?thesis
      using tx_check_kv [OF good_keys_typed [OF tx_check_keys_good [of P tx] assms(3)] tx_args_ok [OF assms(2), of tx "it_ref it"]]
      by (simp add: queue_check_def queue_tx_check_def check_one_def bindE_def ret_def assms(1))
  next
    case (Auth au)
    then show ?thesis
      using auth [OF assms(3), of "user_key au" au] auth [OF typed [OF assms(3)], of "user_key au" "ip_key au" au au]
      by (simp add: queue_check_def queue_auth_check_def check_one_def auth_check_def bindE_def ret_def Let_def assms(1))
  qed
  show "typed_ks (snd (check_one P m it))"
    using tx_state_typed_ks [OF tx_check_keys_good assms(3)] typed [OF typed [OF assms(3)]]
    by (cases "it_event it") (simp_all add: check_one_def Let_def)
qed

lemma checks_kv:
  assumes "dp_redis P = kv_step" and "config_ok (dp_redis_config P)"
  shows "typed_ks m \<Longrightarrow> mapE (queue_check P) its m = (Inr (fst (checks P m its)), snd (checks P m its)) \<and>
    typed_ks (snd (checks P m its)) \<and> length (fst (checks P m its)) = length its"
proof (induction its arbitrary: m)
  case (Cons it its)
  note step = queue_check_kv [OF assms Cons.prems, of it]
  from Cons.IH [OF step(2)] step(1) show ?case
    by (simp add: bindE_def ret_def split_beta)
qed (simp add: ret_def)

subsection \<open>Interpretation\<close>

fun cands_of :: "('r, 'p) DetectionPipeline \<Rightarrow> event \<Rightarrow> check_result \<Rightarrow> DetectionEvent list option" where
  "cands_of P (Tx tx) (TxResult res) =
     (if replay_status res = ''prescored'' then None
      else Some (somes
        [snd (replay_interpret (dp_uuid4 P) (dp_now P) tx (replay_status res) (stored_ref res)),
         (case geo_interpret (dp_uuid4 P) (dp_now P) tx res (dp_redis_config P) of Inr d \<Rightarrow> d | Inl _ \<Rightarrow> None),
         burst_interpret (dp_uuid4 P) (dp_now P) tx (burst_count res) (dp_redis_config P)]))"
| "cands_of P (Auth au) (AuthResult cu ci) =
     (case cred_interpret (dp_uuid4 P) (dp_now P) au cu ci (dp_redis_config P) of (d1, d2) \<Rightarrow> Some (somes [d1, d2]))"
| "cands_of P _ _ = Some []"

text \<open>Results as the scripts produce them: of the event's kind, an anomaly with its earlier location.\<close>

fun fits_event :: "event \<Rightarrow> check_result \<Rightarrow> bool" where
  "fits_event (Tx tx) (TxResult res) = (geo_status res = ''anomaly'' \<longrightarrow> prev_lat res \<noteq> None \<and> prev_lon res \<noteq> None)"
| "fits_event (Auth au) (AuthResult _ _) = True"
| "fits_event _ _ = False"

lemma check_one_fits: "fits_event (it_event it) (fst (check_one P m it))"
proof (cases "it_event it")
  case (Tx tx)
  then show ?thesis
    by (auto simp: check_one_def tx_outcome_def prescored_result_def geo_of_def geo_check_def Let_def
        split: prod.splits list.splits option.splits if_splits)
next
  case (Auth au)
  then show ?thesis by (simp add: check_one_def Let_def)
qed

lemma interpret_item_run:
  assumes "fits_event (it_event it) r"
  shows "\<exists>ms. interpret_item P (it\<lparr>it_result := Some r\<rparr>) w =
    (Inr (cands_of P (it_event it) r), w\<lparr>w_metrics := w_metrics w @ ms\<rparr>)"
proof (cases "(it_event it, r)" rule: fits_event.cases)
  case (1 tx res)
  then have ev: "it_event it = Tx tx" "r = TxResult res" by simp_all
  show ?thesis
  proof (cases "replay_status res = ''prescored''")
    case True
    with ev show ?thesis by (intro exI [of _ "[]"]) (simp add: interpret_item_def Let_def ret_def)
  next
    case False
    obtain ms d1 where rep: "replay_interpret (dp_uuid4 P) (dp_now P) tx (replay_status res) (stored_ref res) = (ms, d1)"
      by fastforce
    obtain d2 where geo: "geo_interpret (dp_uuid4 P) (dp_now P) tx res (dp_redis_config P) = Inr d2"
      using assms ev by (cases "geo_status res = ''anomaly''") (auto simp: geo_interpret_def)
    show ?thesis
      using ev False rep geo by (simp add: interpret_item_def Let_def bindE_def inc_def ret_def) blast
  qed
next
  case (2 au cu ci)
  then show ?thesis
    by (intro exI [of _ "[]"]) (simp add: interpret_item_def Let_def ret_def split: prod.splits)
qed (use assms in simp_all)

lemma interpret_items_run:
  "\<forall>(it, r)\<in>set prs. fits_event (it_event it) r \<Longrightarrow>
   \<exists>ms. mapE (interpret_item P) (map (\<lambda>(it, r). it\<lparr>it_result := Some r\<rparr>) prs) w =
     (Inr (map (\<lambda>(it, r). cands_of P (it_event it) r) prs), w\<lparr>w_metrics := w_metrics w @ ms\<rparr>)"
proof (induction prs arbitrary: w)
  case Nil
  then show ?case by (intro exI [of _ "[]"]) (simp add: ret_def)
next
  case (Cons pr prs)
  obtain it r where pr: "pr = (it, r)" by fastforce
  obtain ms where 1: "interpret_item P (it\<lparr>it_result := Some r\<rparr>) w =
      (Inr (cands_of P (it_event it) r), w\<lparr>w_metrics := w_metrics w @ ms\<rparr>)"
    using interpret_item_run Cons.prems pr by fastforce
  obtain ms' where 2: "mapE (interpret_item P) (map (\<lambda>(it, r). it\<lparr>it_result := Some r\<rparr>) prs) (w\<lparr>w_metrics := w_metrics w @ ms\<rparr>) =
      (Inr (map (\<lambda>(it, r). cands_of P (it_event it) r) prs), w\<lparr>w_metrics := (w_metrics w @ ms) @ ms'\<rparr>)"
    using Cons.IH [of "w\<lparr>w_metrics := w_metrics w @ ms\<rparr>"] Cons.prems by auto
  from 1 2 pr show ?case by (intro exI [of _ "ms @ ms'"]) (simp add: bindE_def ret_def)
qed

lemma checks_fit: "\<forall>(it, r)\<in>set (zip its (fst (checks P m its))). fits_event (it_event it) r"
proof (induction its arbitrary: m)
  case (Cons it its)
  from Cons.IH [of "snd (check_one P m it)"] check_one_fits [of it P m] show ?case
    by (auto simp: split_beta)
qed simp

subsection \<open>Emission\<close>

text \<open>Callbacks that take every message, as \<open>send_message\<close> does unless a message cannot be serialised.\<close>

definition emits_ok :: "('r, 'p) DetectionPipeline \<Rightarrow> bool" where
  "emits_ok P \<longleftrightarrow> (\<forall>d p. fst (dp_emit P d p) = Inr ()) \<and>
     (case dp_emit_audit P of None \<Rightarrow> True | Some f \<Rightarrow> \<forall>ev p. fst (f (blocked_audit ev) p) = Inr ())"

definition send_all :: "('a \<Rightarrow> ('p, unit) action) \<Rightarrow> 'a list \<Rightarrow> 'p \<Rightarrow> 'p" where
  "send_all f xs p = fold (\<lambda>x p. snd (f x p)) xs p"

definition audits :: "('r, 'p) DetectionPipeline \<Rightarrow> event list \<Rightarrow> 'p \<Rightarrow> 'p" where
  "audits P evs p = (case dp_emit_audit P of None \<Rightarrow> p | Some f \<Rightarrow> send_all f (map blocked_audit evs) p)"

lemma emit_all_run:
  "emits_ok P \<Longrightarrow> forE (\<lambda>d. on_out (dp_emit P d)) ds w = (Inr (), w\<lparr>w_out := send_all (dp_emit P) ds (w_out w)\<rparr>)"
proof (induction ds arbitrary: w)
  case (Cons d ds)
  have "on_out (dp_emit P d) w = (Inr (), w\<lparr>w_out := snd (dp_emit P d (w_out w))\<rparr>)"
    using Cons.prems by (intro on_out_ok) (simp add: emits_ok_def)
  with Cons show ?case by (simp add: bindE_def send_all_def)
qed (simp add: ret_def send_all_def)

lemma blocked_run:
  assumes "emits_ok P"
  shows "blocked P it w = (Inr (), w\<lparr>w_out := audits P [it_event it] (w_out w),
    w_metrics := w_metrics w @ blocked_metrics (it_event it)\<rparr>)"
proof (cases "dp_emit_audit P")
  case (Some f)
  let ?w = "w\<lparr>w_metrics := w_metrics w @ blocked_metrics (it_event it)\<rparr>"
  have "on_out (f (blocked_audit (it_event it))) ?w = (Inr (), ?w\<lparr>w_out := snd (f (blocked_audit (it_event it)) (w_out ?w))\<rparr>)"
    using assms Some by (intro on_out_ok) (simp add: emits_ok_def)
  with Some show ?thesis
    by (simp add: blocked_def bindE_def audits_def send_all_def)
qed (simp add: blocked_def bindE_def audits_def ret_def)

lemma blocked_all_run:
  assumes "emits_ok P"
  shows "\<exists>ms. forE (blocked P) its w = (Inr (), w\<lparr>w_out := audits P (map it_event its) (w_out w),
    w_metrics := w_metrics w @ ms\<rparr>)"
proof (induction its arbitrary: w)
  case Nil
  show ?case by (intro exI [of _ "[]"]) (simp add: ret_def audits_def send_all_def split: option.splits)
next
  case (Cons it its)
  obtain ms where "forE (blocked P) its (w\<lparr>w_out := audits P [it_event it] (w_out w),
      w_metrics := w_metrics w @ blocked_metrics (it_event it)\<rparr>) =
    (Inr (), w\<lparr>w_out := audits P (map it_event its) (audits P [it_event it] (w_out w)),
      w_metrics := (w_metrics w @ blocked_metrics (it_event it)) @ ms\<rparr>)"
    using Cons [of "w\<lparr>w_out := audits P [it_event it] (w_out w),
      w_metrics := w_metrics w @ blocked_metrics (it_event it)\<rparr>"] by auto
  moreover have "audits P (map it_event its) (audits P [it_event it] p) = audits P (map it_event (it # its)) p" for p
    by (simp add: audits_def send_all_def split: option.splits)
  ultimately show ?case
    by (intro exI [of _ "blocked_metrics (it_event it) @ ms"]) (simp add: bindE_def blocked_run [OF assms, of it w])
qed

subsection \<open>The decision service's findings\<close>

definition decision_reply :: "keyspace \<Rightarrow> string \<Rightarrow> reply" where
  "decision_reply m k =
     (case fmlookup m k of
        None \<Rightarrow> RNil
      | Some e \<Rightarrow> (case e_val e of RStr v \<Rightarrow> RBulk v | _ \<Rightarrow> RNil))"

fun decided_of :: "keyspace \<Rightarrow> event \<Rightarrow> DetectionEvent list" where
  "decided_of m (Tx tx) =
     (case detections_from_decision tx (decision_reply m (decision_key (Tx tx))) of Inr ds \<Rightarrow> ds | Inl _ \<Rightarrow> [])"
| "decided_of m (Auth au) = []"

text \<open>Every stored decision is one the pipeline can read: an object whose reasons are objects.\<close>

definition decisions_ok :: "keyspace \<Rightarrow> bool" where
  "decisions_ok m \<longleftrightarrow> (\<forall>tx. \<exists>ds. detections_from_decision tx (decision_reply m (decision_key (Tx tx))) = Inr ds)"

lemma decision_key_text:
  assumes "typed_ks m"
  shows "kv_step (GET (decision_key ev)) m = (Inr (decision_reply m (decision_key ev)), m)"
proof -
  have "is_text m (decision_key ev)"
    by (intro typed_ks_is(3) [OF assms]; cases ev)
      (simp_all add: zset_key_def hash_key_def DECISION_RESULT_PREFIX_def)
  then show ?thesis
    by (auto simp: kv_simps decision_reply_def is_text_def split: option.splits)
qed

lemma decided_run:
  assumes "decisions_ok m" and "\<forall>it\<in>set its. is_tx (it_event it)"
  shows "\<exists>ms. mapE (decided_item P) (zip its (map (\<lambda>it. decision_reply m (decision_key (it_event it))) its)) w =
    (Inr (map (\<lambda>it. decided_of m (it_event it)) its), w\<lparr>w_metrics := w_metrics w @ ms\<rparr>)"
  using assms(2)
proof (induction its arbitrary: w)
  case Nil
  show ?case by (intro exI [of _ "[]"]) (simp add: ret_def)
next
  case (Cons it its)
  then obtain tx where tx: "it_event it = Tx tx" by (cases "it_event it") auto
  obtain ds where ds: "detections_from_decision tx (decision_reply m (decision_key (Tx tx))) = Inr ds"
    using assms(1) by (auto simp: decisions_ok_def)
  let ?w = "w\<lparr>w_metrics := w_metrics w @ [(''transactions_processed_total'', [''prescored''])]\<rparr>"
  obtain ms where "mapE (decided_item P) (zip its (map (\<lambda>it. decision_reply m (decision_key (it_event it))) its)) ?w =
    (Inr (map (\<lambda>it. decided_of m (it_event it)) its), w\<lparr>w_metrics := w_metrics ?w @ ms\<rparr>)"
    using Cons.IH [of ?w] Cons.prems by auto
  moreover have "decided_item P (it, decision_reply m (decision_key (Tx tx))) w = (Inr ds, ?w)"
    using tx ds by (simp add: decided_item_def bindE_def inc_def ret_def del: decision_key.simps)
  ultimately show ?case
    using tx ds by (intro exI [of _ "[(''transactions_processed_total'', [''prescored''])] @ ms"])
      (simp add: bindE_def ret_def del: decision_key.simps)
qed

lemma decide_run:
  assumes "dp_redis P = kv_step" and "typed_ks (w_redis w)" and "decisions_ok (w_redis w)"
    and "\<forall>it\<in>set its. is_tx (it_event it)"
  shows "\<exists>ms. decide P its w = (Inr (map (\<lambda>it. decided_of (w_redis w) (it_event it)) its), w\<lparr>w_metrics := w_metrics w @ ms\<rparr>)"
proof (cases "its = []")
  case True
  then show ?thesis by (intro exI [of _ "[]"]) (simp add: decide_def ret_def)
next
  case False
  have "mapE (\<lambda>it. kv_step (GET (decision_key (it_event it)))) its (w_redis w) =
      (Inr (map (\<lambda>it. decision_reply (w_redis w) (decision_key (it_event it))) its), w_redis w)"
    by (rule mapE_const) (rule decision_key_text [OF assms(2)])
  from pipe_execute_map_ok [OF this] False show ?thesis
    using decided_run [OF assms(3,4), of P w] by (simp add: decide_def assms(1) on_redis_def bindE_def)
qed

lemma fill_map:
  "fill (map f xs) (map g (filter (\<lambda>x. f x = None) xs)) = map (\<lambda>x. case f x of Some y \<Rightarrow> y | None \<Rightarrow> g x) xs"
  by (induction xs) (auto split: option.splits)

end
