(* ===== verification/PipelineProps.thy ===== *)
theory PipelineProps
  imports PipelineRun
begin

text \<open>
  The closed form of a batch, \<open>batch_outcome\<close>, the circumstances under which nothing fails (\<open>sound\<close>), and
  the proof that \<open>run_batch\<close> on a key space computes it (\<open>run_batch_kv\<close>).
\<close>

subsection \<open>The outcome of a batch\<close>

definition active_items :: "keyspace \<Rightarrow> Item list \<Rightarrow> Item list" where
  "active_items m items = filter (\<lambda>it. \<not> live m (enforcement_key (it_event it)) \<and> analysed (it_event it)) items"

definition item_candidates :: "('r, 'p) DetectionPipeline \<Rightarrow> keyspace \<Rightarrow> Item \<times> check_result \<Rightarrow> DetectionEvent list" where
  "item_candidates P m pr =
     map (assign_stable_id P (it_ref (fst pr)))
       (case cands_of P (it_event (fst pr)) (snd pr) of Some ds \<Rightarrow> ds | None \<Rightarrow> decided_of m (it_event (fst pr)))"

definition batch_candidates :: "('r, 'p) DetectionPipeline \<Rightarrow> keyspace \<Rightarrow> Item list \<Rightarrow> DetectionEvent list" where
  "batch_candidates P m items =
     concat (map (item_candidates P m) (zip (active_items m items) (fst (checks P m (active_items m items)))))"

definition batch_outcome :: "('r, 'p) DetectionPipeline \<Rightarrow> keyspace \<Rightarrow> Item list \<Rightarrow> DetectionEvent list \<times> keyspace" where
  "batch_outcome P m items =
     (let m1 = snd (checks P m (active_items m items));
          ws = winners (live m1) (batch_candidates P m items)
      in (ws, claim (detection_cooldown_seconds (dp_redis_config P)) ws m1))"

text \<open>The circumstances under which nothing fails.\<close>

definition sound :: "('r, 'p) DetectionPipeline \<Rightarrow> keyspace \<Rightarrow> bool" where
  "sound P m \<longleftrightarrow> config_ok (dp_redis_config P) \<and> 0 < detection_cooldown_seconds (dp_redis_config P) \<and>
     emits_ok P \<and> typed_ks m \<and> decisions_ok m"

text \<open>Keys outside the four families the checks write keep their values.\<close>

definition check_key :: "string \<Rightarrow> bool" where
  "check_key k \<longleftrightarrow> prefix ''replay:seen:'' k \<or> prefix ''burst:'' k \<or> prefix ''session:'' k \<or> prefix ''auth:fail:'' k"

lemma tx_keys_checked:
  "check_key (k_replay (tx_check_keys P tx))" "check_key (k_burst (tx_check_keys P tx))"
  "check_key (k_session (tx_check_keys P tx))" "check_key (user_key au)" "check_key (ip_key au)"
  by (simp_all add: check_key_def tx_check_keys_def key_defs)

lemma check_one_frame: "\<not> check_key k \<Longrightarrow> fmlookup (snd (check_one P m it)) k = fmlookup m k"
  using tx_keys_checked(1-3) [of P] tx_keys_checked(4,5)
  by (cases "it_event it") (auto simp: check_one_def Let_def auth_write_def tx_state_def burst_state_def replay_state_def)

lemma checks_frame: "\<not> check_key k \<Longrightarrow> fmlookup (snd (checks P m its)) k = fmlookup m k"
  by (induction its arbitrary: m) (simp_all add: split_beta check_one_frame)

lemma plain_decision_key [simp]: "\<not> check_key (decision_key ev)"
  by (cases ev) (simp_all add: check_key_def DECISION_RESULT_PREFIX_def)

lemma plain_enforcement_key [simp]: "\<not> check_key (enforcement_key ev)"
  by (cases ev) (simp_all add: check_key_def key_defs)

lemma plain_cooldown_key [simp]: "\<not> check_key (cooldown_key d)"
  by (simp add: check_key_def cooldown_key_def COOLDOWN_KEY_PREFIX_def)

lemma decided_checks: "decided_of (snd (checks P m its)) ev = decided_of m ev"
  by (cases ev) (simp_all add: decision_reply_def checks_frame del: decision_key.simps)

lemma decisions_checks: "decisions_ok (snd (checks P m its)) = decisions_ok m"
  by (simp add: decisions_ok_def decision_reply_def checks_frame del: decision_key.simps)

subsection \<open>A run computes it\<close>

lemma enforce_run:
  assumes "dp_redis P = kv_step" and "emits_ok P"
  shows "\<exists>ms. enforce P items w =
    (Inr (map (\<lambda>it. it\<lparr>it_blocked := live (w_redis w) (enforcement_key (it_event it))\<rparr>) items),
     w\<lparr>w_out := audits P (map it_event (filter (\<lambda>it. live (w_redis w) (enforcement_key (it_event it))) items)) (w_out w),
       w_metrics := w_metrics w @ ms\<rparr>)"
proof -
  let ?m = "w_redis w"
  let ?flag = "\<lambda>it. live ?m (enforcement_key (it_event it))"
  let ?marked = "map (\<lambda>it. it\<lparr>it_blocked := ?flag it\<rparr>) items"
  have "mapE (\<lambda>it. kv_step (EXISTS (enforcement_key (it_event it)))) items ?m =
      (Inr (map (\<lambda>it. RInt (if ?flag it then 1 else 0)) items), ?m)"
    by (rule mapE_const) (simp add: kv_simps)
  from pipe_execute_map_ok [OF this]
  have pipe: "on_redis (pipe_execute (map (\<lambda>it. dp_redis P (EXISTS (enforcement_key (it_event it)))) items)) w =
      (Inr (map (\<lambda>it. RInt (if ?flag it then 1 else 0)) items), w)"
    by (simp add: on_redis_def assms(1))
  have marked: "map2 (\<lambda>it flag. it\<lparr>it_blocked := truthy flag\<rparr>) items (map (\<lambda>it. RInt (if ?flag it then 1 else 0)) items) = ?marked"
    by (induction items) auto
  have evs: "map it_event (filter it_blocked ?marked) = map it_event (filter ?flag items)"
    by (induction items) auto
  obtain ms where "forE (blocked P) (filter it_blocked ?marked) w =
      (Inr (), w\<lparr>w_out := audits P (map it_event (filter ?flag items)) (w_out w), w_metrics := w_metrics w @ ms\<rparr>)"
    using blocked_all_run [OF assms(2), of "filter it_blocked ?marked" w] unfolding evs by blast
  then show ?thesis
    unfolding enforce_def bindE_def pipe prod.case sum.case Let_def marked by (simp add: ret_def) blast
qed

lemma check_run:
  assumes "dp_redis P = kv_step" and "config_ok (dp_redis_config P)" and "typed_ks (w_redis w)"
    and "active = filter (\<lambda>it. \<not> it_blocked it \<and> analysed (it_event it)) items"
  shows "check P items w =
    (Inr (map2 (\<lambda>it r. it\<lparr>it_result := Some r\<rparr>) active (fst (checks P (w_redis w) active))),
     w\<lparr>w_redis := snd (checks P (w_redis w) active)\<rparr>)"
proof (cases "active = []")
  case True
  then show ?thesis using assms(4) by (simp add: check_def ret_def)
next
  case False
  note run = checks_kv [OF assms(1-3), of active]
  from pipe_execute_map_ok [OF conjunct1 [OF run]] False assms(4) show ?thesis
    by (simp add: check_def Let_def on_redis_def bindE_def ret_def)
qed

lemma marked_active:
  "filter (\<lambda>it. \<not> it_blocked it \<and> analysed (it_event it))
     (map (\<lambda>it. it\<lparr>it_blocked := live m (enforcement_key (it_event it))\<rparr>) items) =
   map (\<lambda>it. it\<lparr>it_blocked := False\<rparr>) (active_items m items)"
  by (induction items) (auto simp: active_items_def)

lemma checks_unmarked: "checks P m (map (\<lambda>it. it\<lparr>it_blocked := False\<rparr>) its) = checks P m its"
proof (induction its arbitrary: m)
  case (Cons it its)
  have "check_one P m (it\<lparr>it_blocked := False\<rparr>) = check_one P m it"
    by (cases "it_event it") (simp_all add: check_one_def)
  with Cons show ?case by simp
qed simp

lemma candidates_unmarked:
  "map (item_candidates P m) (zip (map (\<lambda>it. it\<lparr>it_blocked := False\<rparr>) its) rs) = map (item_candidates P m) (zip its rs)"
  by (induction its rs rule: list_induct2') (auto simp: item_candidates_def split: option.splits)

text \<open>The phases of interpretation, from the pairs of an item and its result.\<close>

abbreviation cands :: "('r, 'p) DetectionPipeline \<Rightarrow> Item \<times> check_result \<Rightarrow> DetectionEvent list option" where
  "cands P pr \<equiv> cands_of P (it_event (fst pr)) (snd pr)"

abbreviation with_result :: "Item \<times> check_result \<Rightarrow> Item" where
  "with_result pr \<equiv> (fst pr)\<lparr>it_result := Some (snd pr)\<rparr>"

lemma prescored_map:
  "prescored_items (map with_result prs) (map (cands P) prs) = map with_result (filter (\<lambda>pr. cands P pr = None) prs)"
  by (induction prs) (auto simp: prescored_items_def)

lemma cands_None_tx: "cands_of P ev r = None \<Longrightarrow> is_tx ev"
  by (cases "(P, ev, r)" rule: cands_of.cases) (auto split: if_splits prod.splits)

lemma finished_map:
  assumes "\<And>ev. decided_of m1 ev = decided_of m ev"
  shows "concat (map it_candidates (map2 (\<lambda>it ds. it\<lparr>it_candidates := map (assign_stable_id P (it_ref it)) ds\<rparr>) (map with_result prs)
      (fill (map (cands P) prs) (map (\<lambda>it. decided_of m1 (it_event it)) (map with_result (filter (\<lambda>pr. cands P pr = None) prs)))))) =
    concat (map (item_candidates P m) prs)"
proof -
  have "map (\<lambda>it. decided_of m1 (it_event it)) (map with_result (filter (\<lambda>pr. cands P pr = None) prs)) =
      map (\<lambda>pr. decided_of m (it_event (fst pr))) (filter (\<lambda>pr. cands P pr = None) prs)"
    using assms by simp
  moreover have "map it_candidates (map2 (\<lambda>it ds. it\<lparr>it_candidates := map (assign_stable_id P (it_ref it)) ds\<rparr>) (map with_result prs)
      (map (\<lambda>pr. case cands P pr of Some y \<Rightarrow> y | None \<Rightarrow> decided_of m (it_event (fst pr))) prs)) = map (item_candidates P m) prs"
    by (induction prs) (auto simp: item_candidates_def split: option.splits)
  ultimately show ?thesis by (simp only: fill_map)
qed

lemma run_batch_kv:
  assumes kv: "dp_redis P = kv_step" and ok: "sound P (w_redis w)"
  shows "\<exists>ms. run_batch P items w =
    (Inr \<lparr>emitted = fst (batch_outcome P (w_redis w) items), br_failures = [],
          claimed_cooldown_keys = map cooldown_key (fst (batch_outcome P (w_redis w) items))\<rparr>,
     w\<lparr>w_redis := snd (batch_outcome P (w_redis w) items),
       w_out := send_all (dp_emit P) (fst (batch_outcome P (w_redis w) items))
         (audits P (map it_event (filter (\<lambda>it. live (w_redis w) (enforcement_key (it_event it))) items)) (w_out w)),
       w_metrics := w_metrics w @ ms\<rparr>)"
proof (cases "items = []")
  case True
  then show ?thesis
    by (intro exI [of _ "[]"]) (simp add: run_batch_def ret_def batch_outcome_def batch_candidates_def active_items_def
        send_all_def audits_def split: option.splits)
next
  case False
  let ?m = "w_redis w"
  let ?its = "map (\<lambda>it. it\<lparr>it_blocked := False\<rparr>) (active_items ?m items)"
  let ?rs = "fst (checks P ?m ?its)"
  let ?m1 = "snd (checks P ?m ?its)"
  let ?prs = "zip ?its ?rs"
  let ?cs = "concat (map (item_candidates P ?m) ?prs)"
  let ?marked = "map (\<lambda>it. it\<lparr>it_blocked := live ?m (enforcement_key (it_event it))\<rparr>) items"
  have s: "config_ok (dp_redis_config P)" "0 < detection_cooldown_seconds (dp_redis_config P)" "emits_ok P"
    "typed_ks ?m" "decisions_ok ?m" using ok by (simp_all add: sound_def)
  note chk = checks_kv [OF kv s(1,4), of ?its]
  obtain ms1 where 1: "enforce P items w = (Inr ?marked, w\<lparr>w_out := audits P (map it_event (filter (\<lambda>it. live ?m (enforcement_key (it_event it))) items)) (w_out w),
       w_metrics := w_metrics w @ ms1\<rparr>)" (is "_ = (_, ?w1)")
    using enforce_run [OF kv s(3)] by blast
  have 2: "check P ?marked ?w1 = (Inr (map with_result ?prs), ?w1\<lparr>w_redis := ?m1\<rparr>)" (is "_ = (_, ?w2)")
    using check_run [OF kv s(1) _ marked_active [symmetric, of ?m items], of ?w1] s(4) by (simp add: split_beta)
  obtain ms3 where 3: "mapE (interpret_item P) (map with_result ?prs) ?w2 =
      (Inr (map (cands P) ?prs), ?w2\<lparr>w_metrics := w_metrics ?w2 @ ms3\<rparr>)" (is "_ = (_, ?w3)")
    using interpret_items_run [unfolded split_beta, OF checks_fit [unfolded split_beta], where P = P and w = ?w2] by blast
  have tx: "\<forall>it\<in>set (prescored_items (map with_result ?prs) (map (cands P) ?prs)). is_tx (it_event it)"
    unfolding prescored_map by (auto dest: cands_None_tx)
  have r3: "w_redis ?w3 = ?m1" by simp
  obtain ms4 where 4: "decide P (prescored_items (map with_result ?prs) (map (cands P) ?prs)) ?w3 =
      (Inr (map (\<lambda>it. decided_of ?m1 (it_event it)) (prescored_items (map with_result ?prs) (map (cands P) ?prs))),
       ?w3\<lparr>w_metrics := w_metrics ?w3 @ ms4\<rparr>)" (is "_ = (_, ?w4)")
    using decide_run [OF kv _ _ tx, of ?w3] chk s(5) unfolding r3 decisions_checks by blast
  let ?w5 = "?w4\<lparr>w_metrics := w_metrics ?w4 @ concat (map (count_detection P) ?cs)\<rparr>"
  let ?ws = "winners (live ?m1) ?cs"
  obtain ms6 where 6: "filter_cooled_down (dp_redis P) (dp_redis_config P) ?cs ?w5 =
      (Inr (?ws, map cooldown_key ?ws),
       ?w5\<lparr>w_redis := claim (detection_cooldown_seconds (dp_redis_config P)) ?ws ?m1, w_metrics := w_metrics ?w5 @ ms6\<rparr>)" (is "_ = (_, ?w6)")
    using filter_cooled_down_kv [OF s(2), of ?cs ?w5] by (simp add: kv)
  note fin = finished_map [where m = ?m and ?m1.0 = ?m1 and prs = ?prs and P = P, OF decided_checks]
  have out: "batch_outcome P ?m items = (?ws, claim (detection_cooldown_seconds (dp_redis_config P)) ?ws ?m1)"
    unfolding batch_outcome_def batch_candidates_def Let_def candidates_unmarked checks_unmarked by (rule refl)
  show ?thesis
    unfolding out fst_conv snd_conv
    using False
    by (intro exI [of _ "ms1 @ ms3 @ ms4 @ concat (map (count_detection P) ?cs) @ ms6"],
        simp only: run_batch_def if_False Let_def bindE_def 1 2 3 4 prod.case sum.case fin [folded prescored_map] incs_run 6
        emit_all_run [OF s(3)] ret_def) simp
qed

end
