(* ===== verification/Scenario.thy ===== *)
theory Scenario
  imports PipelineProps
begin

text \<open>
  A pipeline with an in-memory server, and a traveller: a user trusted at (0, 0) makes a transaction
  from the other side of the globe an hour later and one from home another hour later.
\<close>

subsection \<open>A pipeline in memory\<close>

definition sample_detector :: "(conn, json list) DetectionPipeline" where
  "sample_detector = \<lparr>dp_redis = redis_step, dp_emit = (\<lambda>d out. (Inr (), out @ [JStr (detection_id d)])),
     dp_emit_audit = Some (\<lambda>a out. (Inr (), out @ [a])), dp_kafka_config = default_kafka_config,
     dp_redis_config = default_redis_config, dp_validate_tx = (\<lambda>_. Inl (ValidationError ''amount'')),
     dp_validate_auth = (\<lambda>_. Inl (ValidationError ''user_id'')), dp_sha256 = (\<lambda>x. x), dp_uuid5 = sample_uuid5,
     dp_uuid4 = ''0'', dp_now = sample_time, dp_str = (\<lambda>_. [])\<rparr>"

definition conn_with :: "keyspace \<Rightarrow> conn" where
  "conn_with m = \<lparr>ks = m, watched = [], touched = False\<rparr>"

definition world_with :: "keyspace \<Rightarrow> (conn, json list) world" where
  "world_with m = \<lparr>w_redis = conn_with m, w_out = [], w_metrics = []\<rparr>"

lemma world_with_sel [simp]: "ks (w_redis (world_with m)) = m" "w_out (world_with m) = []"
  by (simp_all add: world_with_def conn_with_def)

lemma sample_detector_redis [simp]: "dp_redis sample_detector = redis_step"
  by (simp add: sample_detector_def)

lemma sample_sound:
  assumes "typed_ks m" and "\<And>tx. fmlookup m (decision_key (Tx tx)) = None"
  shows "sound sample_detector m"
  using assms by (simp add: sound_def sample_detector_def emits_ok_def decisions_ok_def decision_reply_def
      detections_from_decision_def default_redis_config_def config_ok_def del: decision_key.simps)

subsection \<open>A traveller\<close>

definition far :: TransactionEvent where
  "far = sample_tx\<lparr>tx_event_id := ''far'', tx_latitude := 0, tx_longitude := 180,
     tx_timestamp := \<lparr>isoformat = ''T01'', timestamp = 3600\<rparr>\<rparr>"

definition home :: TransactionEvent where
  "home = sample_tx\<lparr>tx_event_id := ''home'', tx_latitude := 0, tx_longitude := 0,
     tx_timestamp := \<lparr>isoformat = ''T02'', timestamp = 7200\<rparr>\<rparr>"

definition trip :: "Item list" where
  "trip = [new_item 0 (Tx far) ''tx-events:0:1'', new_item 1 (Tx home) ''tx-events:0:2'']"

definition at_home :: "real \<Rightarrow> entry" where
  "at_home ts = mk_entry (RHash (fmupd ''ts'' ts (fmupd ''lon'' 0 (fmupd ''lat'' 0 fmempty)))) (Some 604800)"

definition settled :: keyspace where
  "settled = fmupd ''session:user_1'' (at_home 0) fmempty"

lemma antipode: "haversine_km 0 0 0 180 = 6371 * pi" "haversine_km 0 0 0 0 = 0"
  by (simp_all add: haversine_km_def haversine_arg_def radians_def EARTH_RADIUS_KM_def)

lemma far_home_keys:
  "tx_check_keys sample_detector far = \<lparr>k_replay = replay_key (\<lambda>x. x) far, k_burst = ''burst:user_1:1m'', k_session = ''session:user_1''\<rparr>"
  "tx_check_keys sample_detector home = \<lparr>k_replay = replay_key (\<lambda>x. x) home, k_burst = ''burst:user_1:1m'', k_session = ''session:user_1''\<rparr>"
  by (simp_all add: tx_check_keys_def sample_detector_def far_def home_def sample_tx_def burst_key_def session_key_def)

lemma replay_keys_differ: "replay_key (\<lambda>x. x) far \<noteq> replay_key (\<lambda>x. x) home"
proof -
  have "replay_payload far \<noteq> replay_payload home"
    by (subst replay_payload_inj) (simp_all add: far_def home_def sample_tx_def)
  then show ?thesis by (simp add: replay_key_def replay_hash_def)
qed

lemma other_keys:
  "replay_key sha tx \<noteq> ''burst:user_1:1m''" "replay_key sha tx \<noteq> ''session:user_1''"
  "''burst:user_1:1m'' \<noteq> replay_key sha tx" "''session:user_1'' \<noteq> replay_key sha tx"
  by (simp_all add: replay_key_def)

lemma trip_args:
  "tx_check_args sample_detector far ref = \<lparr>a_record_ref = ref, a_replay_ttl_s = 86400, a_event_id = ''far'',
     a_now_ts = 3600, a_burst_cutoff = 3540, a_burst_key_ttl_s = 120, a_latitude = 0, a_longitude = 180,
     a_session_ttl_s = 604800, a_max_velocity_kmh = 900, a_min_time_s = 1\<rparr>"
  "tx_check_args sample_detector home ref = \<lparr>a_record_ref = ref, a_replay_ttl_s = 86400, a_event_id = ''home'',
     a_now_ts = 7200, a_burst_cutoff = 7140, a_burst_key_ttl_s = 120, a_latitude = 0, a_longitude = 0,
     a_session_ttl_s = 604800, a_max_velocity_kmh = 900, a_min_time_s = 1\<rparr>"
  by (simp_all add: tx_check_args_def sample_detector_def far_def home_def sample_tx_def default_redis_config_def
      Let_def MIN_TIME_SECONDS_def)

text \<open>The key space after the first transaction, and after both.\<close>

definition away :: keyspace where
  "away = fmupd ''burst:user_1:1m'' (mk_entry (RZSet (fmupd ''far'' 3600 fmempty)) (Some 120))
     (fmupd (replay_key (\<lambda>x. x) far) (mk_entry (RStr ''tx-events:0:1'') (Some 86400)) settled)"

definition returned :: keyspace where
  "returned = fmupd ''session:user_1'' (at_home 7200)
     (fmupd ''burst:user_1:1m'' (mk_entry (RZSet (fmupd ''home'' 7200 fmempty)) (Some 120))
     (fmupd (replay_key (\<lambda>x. x) home) (mk_entry (RStr ''tx-events:0:2'') (Some 86400)) away))"

lemmas trip_simps = far_home_keys trip_args replay_keys_differ replay_keys_differ [symmetric] other_keys
  settled_def away_def at_home_def

lemma home_hash:
  "fmupd ''ts'' (x::real) (fmupd ''lon'' 0 (fmupd ''lat'' 0 (fmupd ''ts'' y (fmupd ''lon'' 0 (fmupd ''lat'' 0 fmempty))))) =
   fmupd ''ts'' x (fmupd ''lon'' 0 (fmupd ''lat'' 0 fmempty))"
  by (rule fmap_ext) simp

lemma geo_trip:
  "fst (geo_check (tx_check_args sample_detector far ref) [Some 0, Some 0, Some 0]) = ''anomaly''"
  "fst (geo_check (tx_check_args sample_detector far ref) [Some 0, Some 0, Some 7200]) = ''out_of_order''"
  "fst (geo_check (tx_check_args sample_detector home ref) [Some 0, Some 0, Some 0]) = ''ok''"
  "fst (geo_check (tx_check_args sample_detector home ref) [Some 0, Some 0, Some 7200]) = ''ok''"
  using antipode pi_ge_two by (simp_all add: geo_check_def trip_args haversine_lua_python Let_def)

lemma trip_far:
  "replay_outcome settled (replay_key (\<lambda>x. x) far) (tx_check_args sample_detector far ref) = (''first'', ref)"
  "session_fields settled ''session:user_1'' = [Some 0, Some 0, Some 0]"
  "window_after settled ''burst:user_1:1m'' 3540 3600 ''far'' = fmupd ''far'' 3600 fmempty"
  "tx_state settled (tx_check_keys sample_detector far) (tx_check_args sample_detector far ''tx-events:0:1'') = away"
proof -
  show r: "replay_outcome settled (replay_key (\<lambda>x. x) far) (tx_check_args sample_detector far ref) = (''first'', ref)" for ref
    by (simp add: replay_outcome_def trip_simps)
  show s: "session_fields settled ''session:user_1'' = [Some 0, Some 0, Some 0]"
    by (simp add: session_fields_def hash_at_def trip_simps)
  show w: "window_after settled ''burst:user_1:1m'' 3540 3600 ''far'' = fmupd ''far'' 3600 fmempty"
    by (simp add: window_after_def zset_at_def trip_simps)
  show "tx_state settled (tx_check_keys sample_detector far) (tx_check_args sample_detector far ''tx-events:0:1'') = away"
    using r [of "''tx-events:0:1''"] s w geo_trip(1) [of "''tx-events:0:1''"]
    by (simp add: tx_state_def geo_of_def clean_geo_def burst_state_def replay_state_def far_home_keys trip_args)
      (simp add: trip_simps)
qed

lemma trip_home:
  "replay_outcome away (replay_key (\<lambda>x. x) home) (tx_check_args sample_detector home ref) = (''first'', ref)"
  "session_fields away ''session:user_1'' = [Some 0, Some 0, Some 0]"
  "window_after away ''burst:user_1:1m'' 7140 7200 ''home'' = fmupd ''home'' 7200 fmempty"
  "tx_state away (tx_check_keys sample_detector home) (tx_check_args sample_detector home ''tx-events:0:2'') = returned"
proof -
  show r: "replay_outcome away (replay_key (\<lambda>x. x) home) (tx_check_args sample_detector home ref) = (''first'', ref)" for ref
    by (simp add: replay_outcome_def trip_simps)
  show s: "session_fields away ''session:user_1'' = [Some 0, Some 0, Some 0]"
    by (simp add: session_fields_def hash_at_def trip_simps)
  show w: "window_after away ''burst:user_1:1m'' 7140 7200 ''home'' = fmupd ''home'' 7200 fmempty"
    by (simp add: window_after_def zset_at_def trip_simps above_upd)
  have "hash_at away ''session:user_1'' = fmupd ''ts'' 0 (fmupd ''lon'' 0 (fmupd ''lat'' 0 fmempty))"
    by (simp add: hash_at_def trip_simps)
  moreover have "\<not> live away (replay_key (\<lambda>x. x) home)" by (simp add: trip_simps)
  ultimately show "tx_state away (tx_check_keys sample_detector home) (tx_check_args sample_detector home ''tx-events:0:2'') = returned"
    using r [of "''tx-events:0:2''"] s w geo_trip(3) [of "''tx-events:0:2''"]
    by (simp add: tx_state_def geo_of_def clean_geo_def burst_state_def replay_state_def far_home_keys trip_args
        session_after_def home_hash returned_def at_home_def)
qed

text \<open>A transaction seen for the first time or redelivered, in a window that is not full.\<close>

lemma quiet_cands:
  assumes "fst (replay_outcome m (k_replay k) a) = ''first'' \<or> fst (replay_outcome m (k_replay k) a) = ''redelivery''"
    and "int (fcard (fmdom (window_after m (k_burst k) (a_burst_cutoff a) (a_now_ts a) (a_event_id a)))) \<le> burst_threshold (dp_redis_config P)"
  shows "fst (geo_of m k a) \<noteq> ''anomaly'' \<Longrightarrow> cands_of P (Tx tx) (TxResult (tx_outcome m k a)) = Some []"
    and "fst (geo_of m k a) = ''anomaly'' \<Longrightarrow> prev_lat (tx_outcome m k a) \<noteq> None \<Longrightarrow> prev_lon (tx_outcome m k a) \<noteq> None \<Longrightarrow>
      \<exists>g. cands_of P (Tx tx) (TxResult (tx_outcome m k a)) = Some [g] \<and> detection_type g = ''geo_velocity_anomaly'' \<and>
        de_user_id g = tx_user_id tx"
proof -
  have out: "replay_status (tx_outcome m k a) = fst (replay_outcome m (k_replay k) a)"
    "geo_status (tx_outcome m k a) = fst (geo_of m k a)"
    "burst_count (tx_outcome m k a) = int (fcard (fmdom (window_after m (k_burst k) (a_burst_cutoff a) (a_now_ts a) (a_event_id a))))"
    using assms(1) by (auto simp: tx_outcome_def split: prod.splits)
  show "cands_of P (Tx tx) (TxResult (tx_outcome m k a)) = Some []" if "fst (geo_of m k a) \<noteq> ''anomaly''"
    using assms that by (auto simp: out replay_interpret_def geo_interpret_def burst_interpret_def somes_def List.map_filter_def)
  show "\<exists>g. cands_of P (Tx tx) (TxResult (tx_outcome m k a)) = Some [g] \<and> detection_type g = ''geo_velocity_anomaly'' \<and>
        de_user_id g = tx_user_id tx"
    if "fst (geo_of m k a) = ''anomaly''" "prev_lat (tx_outcome m k a) \<noteq> None" "prev_lon (tx_outcome m k a) \<noteq> None"
    using assms that by (auto simp: out replay_interpret_def geo_interpret_def burst_interpret_def somes_def List.map_filter_def)
qed

lemma trip_active: "\<not> live m (quarantine_key ''user_1'') \<Longrightarrow> active_items m trip = trip"
  by (simp add: active_items_def trip_def far_def home_def sample_tx_def)

lemma threshold_20: "burst_threshold (dp_redis_config sample_detector) = 20"
  by (simp add: sample_detector_def default_redis_config_def)

lemma far_anomaly:
  "\<exists>g. cands_of sample_detector (Tx far) (fst (check_one sample_detector settled (new_item 0 (Tx far) ''tx-events:0:1''))) = Some [g] \<and>
    detection_type g = ''geo_velocity_anomaly'' \<and> de_user_id g = ''user_1''"
proof -
  let ?k = "tx_check_keys sample_detector far" and ?a = "tx_check_args sample_detector far ''tx-events:0:1''"
  have g: "fst (geo_of settled ?k ?a) = ''anomaly''"
    using geo_trip(1) trip_far(2) by (simp add: geo_of_def far_home_keys)
  have "prev_lat (tx_outcome settled ?k ?a) \<noteq> None \<and> prev_lon (tx_outcome settled ?k ?a) \<noteq> None"
    using trip_far(1,2) geo_trip(1) by (simp add: tx_outcome_def geo_of_def far_home_keys geo_check_def Let_def trip_args)
  moreover have "fst (replay_outcome settled (k_replay ?k) ?a) = ''first''"
    using trip_far(1) by (simp add: far_home_keys)
  moreover have "int (fcard (fmdom (window_after settled (k_burst ?k) (a_burst_cutoff ?a) (a_now_ts ?a) (a_event_id ?a)))) \<le> 20"
    using trip_far(3) by (simp add: far_home_keys trip_args fcard_finsert_if fcard_fempty)
  moreover have "tx_user_id far = ''user_1''" by (simp add: far_def sample_tx_def)
  ultimately show ?thesis
    using quiet_cands(2) [of settled ?k ?a sample_detector far] g threshold_20 by (simp add: check_one_def)
qed

lemma home_quiet:
  "cands_of sample_detector (Tx home) (fst (check_one sample_detector away (new_item 1 (Tx home) ''tx-events:0:2''))) = Some []"
proof -
  let ?k = "tx_check_keys sample_detector home" and ?a = "tx_check_args sample_detector home ''tx-events:0:2''"
  have "fst (geo_of away ?k ?a) = ''ok''"
    using geo_trip(3) trip_home(2) by (simp add: geo_of_def far_home_keys)
  moreover have "fst (replay_outcome away (k_replay ?k) ?a) = ''first''"
    using trip_home(1) by (simp add: far_home_keys)
  moreover have "int (fcard (fmdom (window_after away (k_burst ?k) (a_burst_cutoff ?a) (a_now_ts ?a) (a_event_id ?a)))) \<le> 20"
    using trip_home(3) by (simp add: far_home_keys trip_args fcard_finsert_if fcard_fempty)
  ultimately show ?thesis
    using quiet_cands(1) [of away ?k ?a sample_detector home] threshold_20 by (simp add: check_one_def)
qed

text \<open>The first run finds the anomaly.\<close>

lemma trip_outcome:
  "\<exists>d. batch_outcome sample_detector settled trip = ([d], claim 60 [d] returned) \<and>
    detection_type d = ''geo_velocity_anomaly'' \<and> de_user_id d = ''user_1'' \<and> \<not> live returned (cooldown_key d)"
proof -
  obtain g where g: "cands_of sample_detector (Tx far) (fst (check_one sample_detector settled (new_item 0 (Tx far) ''tx-events:0:1''))) = Some [g]"
    "detection_type g = ''geo_velocity_anomaly''" "de_user_id g = ''user_1''"
    using far_anomaly by blast
  have act: "active_items settled trip = trip"
    by (rule trip_active) (simp add: settled_def key_defs)
  have m1: "snd (check_one sample_detector settled (new_item 0 (Tx far) ''tx-events:0:1'')) = away"
    using trip_far(4) by (simp add: check_one_def)
  have m2: "snd (check_one sample_detector away (new_item 1 (Tx home) ''tx-events:0:2'')) = returned"
    using trip_home(4) by (simp add: check_one_def)
  let ?d = "assign_stable_id sample_detector ''tx-events:0:1'' g"
  have d: "detection_type ?d = ''geo_velocity_anomaly''" "de_user_id ?d = ''user_1''"
    using g by (simp_all add: assign_stable_id_def Let_def)
  have free: "\<not> live returned (cooldown_key ?d)"
    by (simp add: returned_def away_def settled_def cooldown_key_def COOLDOWN_KEY_PREFIX_def replay_key_def)
  have "checks sample_detector settled trip =
      ([fst (check_one sample_detector settled (new_item 0 (Tx far) ''tx-events:0:1'')),
        fst (check_one sample_detector away (new_item 1 (Tx home) ''tx-events:0:2''))], returned)"
    using m1 m2 by (simp add: trip_def split_beta)
  with act g home_quiet have "batch_outcome sample_detector settled trip =
      (winners (live returned) [?d], claim (detection_cooldown_seconds (dp_redis_config sample_detector)) (winners (live returned) [?d]) returned)"
    by (simp add: batch_outcome_def batch_candidates_def item_candidates_def trip_def Let_def)
  moreover have "detection_cooldown_seconds (dp_redis_config sample_detector) = 60"
    by (simp add: sample_detector_def default_redis_config_def)
  ultimately show ?thesis using free d by (intro exI [of _ ?d]) simp
qed

text \<open>A second run on the key space the first one left finds nothing.\<close>

lemma far_out_of_order:
  "cands_of sample_detector (Tx far) (fst (check_one sample_detector returned (new_item 0 (Tx far) ''tx-events:0:1''))) = Some []"
  "\<exists>z. snd (check_one sample_detector returned (new_item 0 (Tx far) ''tx-events:0:1'')) =
     fmupd ''burst:user_1:1m'' (mk_entry (RZSet (fmupd ''far'' 3600 (fmupd ''home'' 7200 fmempty))) z) returned"
proof -
  let ?k = "tx_check_keys sample_detector far" and ?a = "tx_check_args sample_detector far ''tx-events:0:1''"
  have s: "session_fields returned ''session:user_1'' = [Some 0, Some 0, Some 7200]"
    by (simp add: session_fields_def hash_at_def returned_def at_home_def)
  then have g: "fst (geo_of returned ?k ?a) = ''out_of_order''"
    using geo_trip(2) by (simp add: geo_of_def far_home_keys)
  have l: "fmlookup returned (replay_key (\<lambda>x. x) far) = Some (mk_entry (RStr ''tx-events:0:1'') (Some 86400))"
    by (simp add: returned_def trip_simps)
  then have r: "fst (replay_outcome returned (k_replay ?k) ?a) = ''redelivery''"
    by (simp add: replay_outcome_def rule_value_def replay_status_of_def far_home_keys trip_args)
  have w: "window_after returned ''burst:user_1:1m'' 3540 3600 ''far'' = fmupd ''far'' 3600 (fmupd ''home'' 7200 fmempty)"
    by (simp add: window_after_def zset_at_def returned_def above_upd)
  then have "int (fcard (fmdom (window_after returned (k_burst ?k) (a_burst_cutoff ?a) (a_now_ts ?a) (a_event_id ?a)))) \<le> 20"
    by (simp add: far_home_keys trip_args fcard_finsert_if fcard_fempty)
  with quiet_cands(1) [of returned ?k ?a sample_detector far] r g threshold_20
  show "cands_of sample_detector (Tx far) (fst (check_one sample_detector returned (new_item 0 (Tx far) ''tx-events:0:1''))) = Some []"
    by (simp add: check_one_def)
  have "tx_state returned ?k ?a = fmupd ''burst:user_1:1m'' (mk_entry (RZSet (fmupd ''far'' 3600 (fmupd ''home'' 7200 fmempty))) (Some 120)) returned"
    using r g l w by (simp add: tx_state_def clean_geo_def burst_state_def replay_state_def far_home_keys trip_args)
  then show "\<exists>z. snd (check_one sample_detector returned (new_item 0 (Tx far) ''tx-events:0:1'')) =
     fmupd ''burst:user_1:1m'' (mk_entry (RZSet (fmupd ''far'' 3600 (fmupd ''home'' 7200 fmempty))) z) returned"
    by (auto simp: check_one_def)
qed

lemma home_quiet_again:
  assumes "m = fmupd ''burst:user_1:1m'' (mk_entry (RZSet (fmupd ''far'' 3600 (fmupd ''home'' 7200 fmempty))) z) returned"
  shows "cands_of sample_detector (Tx home) (fst (check_one sample_detector m (new_item 1 (Tx home) ''tx-events:0:2''))) = Some []"
proof -
  let ?k = "tx_check_keys sample_detector home" and ?a = "tx_check_args sample_detector home ''tx-events:0:2''"
  have "session_fields m ''session:user_1'' = [Some 0, Some 0, Some 7200]"
    by (simp add: assms session_fields_def hash_at_def returned_def at_home_def)
  then have "fst (geo_of m ?k ?a) = ''ok''" using geo_trip(4) by (simp add: geo_of_def far_home_keys)
  moreover have "fst (replay_outcome m (k_replay ?k) ?a) = ''redelivery''"
    by (simp add: assms replay_outcome_def rule_value_def replay_status_of_def returned_def trip_simps)
  moreover have "fmupd ''home'' 7200 (fmdrop ''far'' (fmupd ''home'' 7200 fmempty)) = fmupd ''home'' (7200::real) fmempty"
    by (rule fmap_ext) simp
  then have "window_after m ''burst:user_1:1m'' 7140 7200 ''home'' = fmupd ''home'' 7200 fmempty"
    by (simp add: assms window_after_def zset_at_def above_upd)
  then have "int (fcard (fmdom (window_after m (k_burst ?k) (a_burst_cutoff ?a) (a_now_ts ?a) (a_event_id ?a)))) \<le> 20"
    by (simp add: far_home_keys trip_args fcard_finsert_if fcard_fempty)
  ultimately show ?thesis
    using quiet_cands(1) [of m ?k ?a sample_detector home] threshold_20 by (simp add: check_one_def)
qed

lemma trip_again: "fst (batch_outcome sample_detector returned trip) = []"
proof -
  obtain z where m1: "snd (check_one sample_detector returned (new_item 0 (Tx far) ''tx-events:0:1'')) =
     fmupd ''burst:user_1:1m'' (mk_entry (RZSet (fmupd ''far'' 3600 (fmupd ''home'' 7200 fmempty))) z) returned"
    using far_out_of_order(2) by blast
  have "active_items returned trip = trip"
    by (rule trip_active) (simp add: returned_def away_def settled_def key_defs replay_key_def)
  with far_out_of_order(1) home_quiet_again [OF refl, of z] m1 show ?thesis
    by (simp add: batch_outcome_def batch_candidates_def item_candidates_def trip_def Let_def split_beta)
qed

lemma settled_typed: "typed_ks settled"
  by (auto simp: settled_def at_home_def hash_key_def intro!: typed_ks_upd)

lemma settled_sound: "sound sample_detector settled"
  by (rule sample_sound) (auto simp: settled_typed, auto simp: settled_def DECISION_RESULT_PREFIX_def)

lemma returned_sound: "sound sample_detector returned"
proof (rule sample_sound)
  show "typed_ks returned"
    unfolding returned_def away_def at_home_def
    by (intro typed_ks_upd settled_typed) (simp_all add: hash_key_def zset_key_def replay_key_def)
qed (simp add: returned_def away_def settled_def DECISION_RESULT_PREFIX_def replay_key_def)

end
