(* ===== verification/PipelineTheorems.thy ===== *)
theory PipelineTheorems
  imports Scenario
begin

text \<open>
  The detection pipeline is correct: a run against a server that is up computes \<open>batch_outcome\<close>; refused
  events leave no trace; a batch does what its records would do one by one; ids are stable; records
  that fail validation are reported and nothing else happens to them.
\<close>

subsection \<open>The outcome does not depend on the connection\<close>

lemma on_keys_checks [simp]: "checks (on_keys P) m its = checks P m its"
proof (induction its arbitrary: m)
  case (Cons it its)
  have "check_one (on_keys P) m it = check_one P m it"
    by (cases "it_event it") (simp_all add: check_one_def auth_window_def auth_write_def)
  with Cons show ?case by simp
qed simp

lemma on_keys_cands [simp]: "cands_of (on_keys P) ev r = cands_of P ev r"
  by (cases "(P, ev, r)" rule: cands_of.cases) simp_all

lemma on_keys_outcome [simp]: "batch_outcome (on_keys P) m items = batch_outcome P m items"
  by (simp add: batch_outcome_def batch_candidates_def item_candidates_def [abs_def])

lemma on_keys_sound [simp]: "sound (on_keys P) m = sound P m"
  by (simp add: sound_def emits_ok_def)

text \<open>Nor does it depend on where the messages go.\<close>

definition retarget ::
  "'r redis \<Rightarrow> (DetectionEvent \<Rightarrow> ('p, unit) action) \<Rightarrow> (json \<Rightarrow> ('p, unit) action) option \<Rightarrow>
   (json \<Rightarrow> exn + TransactionEvent) \<Rightarrow> ('s, 'q) DetectionPipeline \<Rightarrow> ('r, 'p) DetectionPipeline" where
  "retarget rc emit audit validate_tx P = \<lparr>dp_redis = rc, dp_emit = emit, dp_emit_audit = audit,
     dp_kafka_config = dp_kafka_config P, dp_redis_config = dp_redis_config P,
     dp_validate_tx = validate_tx, dp_validate_auth = dp_validate_auth P, dp_sha256 = dp_sha256 P,
     dp_uuid5 = dp_uuid5 P, dp_uuid4 = dp_uuid4 P, dp_now = dp_now P, dp_str = dp_str P\<rparr>"

lemma retarget_checks [simp]: "checks (retarget rc e a v P) m its = checks P m its"
proof (induction its arbitrary: m)
  case (Cons it its)
  have "check_one (retarget rc e a v P) m it = check_one P m it"
    by (cases "it_event it")
      (simp_all add: check_one_def auth_window_def auth_write_def tx_check_keys_def tx_check_args_def retarget_def)
  with Cons show ?case by simp
qed simp

lemma retarget_outcome [simp]: "batch_outcome (retarget rc e a v P) m items = batch_outcome P m items"
proof -
  have "cands_of (retarget rc e a v P) ev r = cands_of P ev r" for ev r
    by (cases "(P, ev, r)" rule: cands_of.cases) (simp_all add: retarget_def)
  moreover have "assign_stable_id (retarget rc e a v P) = assign_stable_id P"
    unfolding assign_stable_id_def [abs_def] retarget_def DetectionPipeline.simps ..
  moreover have "dp_redis_config (retarget rc e a v P) = dp_redis_config P" by (simp add: retarget_def)
  ultimately show ?thesis
    by (simp add: batch_outcome_def batch_candidates_def item_candidates_def [abs_def])
qed

lemma run_batch_run:
  assumes "redis_up rc obs" and "dp_redis P = rc" and "m = ks (obs (w_redis w))" and "sound P m"
    and "batch_outcome P m items = (ds, m')"
  shows "\<exists>w'. run_batch P items w =
      (Inr \<lparr>emitted = ds, br_failures = [], claimed_cooldown_keys = map cooldown_key ds\<rparr>, w') \<and>
    ks (obs (w_redis w')) = m' \<and>
    w_out w' = send_all (dp_emit P) ds
      (audits P (map it_event (filter (\<lambda>it. live m (enforcement_key (it_event it))) items)) (w_out w))"
proof -
  let ?v = "wmap (\<lambda>s. ks (obs s)) w"
  have m: "w_redis ?v = m" using assms(3) by simp
  obtain ms where run: "run_batch (on_keys P) items ?v =
    (Inr \<lparr>emitted = ds, br_failures = [], claimed_cooldown_keys = map cooldown_key ds\<rparr>,
     ?v\<lparr>w_redis := m', w_out := send_all (dp_emit P) ds
         (audits (on_keys P) (map it_event (filter (\<lambda>it. live m (enforcement_key (it_event it))) items)) (w_out ?v)),
       w_metrics := w_metrics ?v @ ms\<rparr>)"
    using run_batch_kv [of "on_keys P" ?v items] assms(4,5) unfolding m on_keys_sel on_keys_outcome on_keys_sound by auto
  have "audits (on_keys P) = audits P" by (simp add: audits_def [abs_def])
  with sim_run [OF redis_up.sim_run_batch [OF assms(1,2)] run] show ?thesis
    by (metis (no_types, lifting) wmap_sel(1,2) world.select_convs(1,2) world.update_convs(1,2,3) world.surjective)
qed

subsection \<open>A batch is its records one by one\<close>

lemma check_one_put:
  assumes "\<not> check_key k"
  shows "check_one P (fmupd k e m) it = (fst (check_one P m it), fmupd k e (snd (check_one P m it)))"
proof (cases "it_event it")
  case (Tx tx)
  let ?K = "tx_check_keys P tx"
  let ?a = "tx_check_args P tx (it_ref it)"
  have ne: "k \<noteq> k_replay ?K" "k \<noteq> k_burst ?K" "k \<noteq> k_session ?K"
    using assms tx_keys_checked(1-3) [of P tx] by auto
  have r: "replay_outcome (fmupd k e m) (k_replay ?K) ?a = replay_outcome m (k_replay ?K) ?a"
    using ne by (auto simp: replay_outcome_def rule_value_def split: option.splits)
  have w: "window_after (fmupd k e m) (k_burst ?K) c n i = window_after m (k_burst ?K) c n i" for c n i
    using ne by (simp add: window_after_def zset_at_def)
  have h: "hash_at (fmupd k e m) (k_session ?K) = hash_at m (k_session ?K)"
    using ne by (simp add: hash_at_def)
  have g: "geo_of (fmupd k e m) ?K ?a = geo_of m ?K ?a"
    by (simp add: geo_of_def session_fields_def h)
  have "tx_state (fmupd k e m) ?K ?a = fmupd k e (tx_state m ?K ?a)"
    using ne by (auto simp: tx_state_def burst_state_def replay_state_def r w h g fmupd_reorder_neq)
  moreover have "tx_outcome (fmupd k e m) ?K ?a = tx_outcome m ?K ?a"
    unfolding tx_outcome_def r w g ..
  ultimately show ?thesis using Tx by (simp add: check_one_def)
next
  case (Auth au)
  have ne: "k \<noteq> user_key au" "k \<noteq> ip_key au"
    using assms tx_keys_checked(4,5) [of au] by auto
  have w: "auth_window P (fmupd k e m') key au = auth_window P m' key au" if "k \<noteq> key" for m' key
    using that by (simp add: auth_window_def window_after_def zset_at_def)
  have a: "auth_write P key au (fmupd k e m') = fmupd k e (auth_write P key au m')" if "k \<noteq> key" for m' key
    using that by (simp add: auth_write_def w fmupd_reorder_neq)
  show ?thesis using Auth ne by (simp add: check_one_def Let_def w a)
qed

lemma check_one_claim:
  "check_one P (claim ttl ds m) it = (fst (check_one P m it), claim ttl ds (snd (check_one P m it)))"
  by (induction ds rule: rev_induct) (simp_all add: claim_def check_one_put)

lemma checks_claim:
  "checks P (claim ttl ds m) its = (fst (checks P m its), claim ttl ds (snd (checks P m its)))"
  by (induction its arbitrary: m) (simp_all add: check_one_claim split_beta)

lemma plain_claim [simp]:
  "fmlookup (claim ttl ds m) (enforcement_key ev) = fmlookup m (enforcement_key ev)"
  "fmlookup (claim ttl ds m) (decision_key ev) = fmlookup m (decision_key ev)"
  by (cases ev; auto simp: claim_lookup cooldown_key_def COOLDOWN_KEY_PREFIX_def key_defs DECISION_RESULT_PREFIX_def)+

lemma active_items_cong:
  "(\<And>ev. fmlookup m' (enforcement_key ev) = fmlookup m (enforcement_key ev)) \<Longrightarrow> active_items m' its = active_items m its"
  by (simp add: active_items_def)

lemma decided_cong:
  "(\<And>ev. fmlookup m' (decision_key ev) = fmlookup m (decision_key ev)) \<Longrightarrow> decided_of m' ev = decided_of m ev"
  by (cases ev) (simp_all add: decision_reply_def del: decision_key.simps)

lemma candidates_cong:
  assumes "\<And>ev. fmlookup m' (decision_key ev) = fmlookup m (decision_key ev)"
  shows "item_candidates P m' = item_candidates P m"
  unfolding item_candidates_def [abs_def] decided_cong [OF assms] ..

lemma winners_append:
  "winners t (xs @ ys) = winners t xs @ winners (\<lambda>k. t k \<or> k \<in> cooldown_key ` set (winners t xs)) ys"
proof (induction t xs rule: winners.induct)
  case (2 t d ds)
  have "(\<lambda>k. (t(cooldown_key d := True)) k \<or> k \<in> A) = (\<lambda>k. t k \<or> k \<in> insert (cooldown_key d) A)" for A
    by (rule ext) auto
  with 2 show ?case by (cases "t (cooldown_key d)") (simp_all del: fun_upd_apply)
qed simp

lemma winners_cong: "(\<And>d. t (cooldown_key d) = t' (cooldown_key d)) \<Longrightarrow> winners t ds = winners t' ds"
proof (induction t ds arbitrary: t' rule: winners.induct)
  case (2 t d ds)
  then have "winners (t(cooldown_key d := True)) ds = winners (t'(cooldown_key d := True)) ds"
    if "\<not> t (cooldown_key d)" using that by (intro 2(2)) auto
  with 2 show ?case by simp
qed simp

lemma claim_append: "claim ttl (xs @ ys) m = claim ttl ys (claim ttl xs m)"
  by (simp add: claim_def)

lemma batch_outcome_Cons:
  "batch_outcome P m (it # its) =
     (case batch_outcome P m [it] of (ds, m1) \<Rightarrow> case batch_outcome P m1 its of (ds', m2) \<Rightarrow> (ds @ ds', m2))"
proof (cases "active_items m [it] = []")
  case True
  then have "active_items m (it # its) = active_items m its" by (auto simp: active_items_def split: if_splits)
  with True show ?thesis by (simp add: batch_outcome_def batch_candidates_def Let_def)
next
  case False
  then have act: "active_items m [it] = [it]" "active_items m (it # its) = it # active_items m its"
    by (auto simp: active_items_def split: if_splits)
  let ?ttl = "detection_cooldown_seconds (dp_redis_config P)"
  obtain r mi where one: "check_one P m it = (r, mi)" by fastforce
  obtain rs mB where rest: "checks P mi (active_items m its) = (rs, mB)" by fastforce
  let ?c1 = "item_candidates P m (it, r)"
  let ?c2 = "concat (map (item_candidates P m) (zip (active_items m its) rs))"
  let ?ws1 = "winners (live mi) ?c1"
  let ?m1 = "claim ?ttl ?ws1 mi"
  have first: "batch_outcome P m [it] = (?ws1, ?m1)"
    by (simp add: batch_outcome_def batch_candidates_def act one Let_def)
  have mi: "fmlookup mi k = fmlookup m k" if "\<not> check_key k" for k
    using check_one_frame [OF that, of P m it] one by simp
  have "active_items ?m1 its = active_items m its" "item_candidates P ?m1 = item_candidates P m"
    by (intro active_items_cong candidates_cong; simp add: mi)+
  moreover have "checks P ?m1 (active_items m its) = (rs, claim ?ttl ?ws1 mB)"
    by (simp add: checks_claim rest)
  ultimately have second: "batch_outcome P ?m1 its =
      (winners (live (claim ?ttl ?ws1 mB)) ?c2, claim ?ttl (winners (live (claim ?ttl ?ws1 mB)) ?c2) (claim ?ttl ?ws1 mB))"
    by (simp add: batch_outcome_def batch_candidates_def Let_def del: live_claim)
  have "winners (live mB) ?c1 = ?ws1"
    using checks_frame [of _ P mi "active_items m its"] rest by (intro winners_cong) simp
  then have ws: "winners (live mB) (?c1 @ ?c2) = ?ws1 @ winners (live (claim ?ttl ?ws1 mB)) ?c2"
    unfolding winners_append live_claim by simp
  have "batch_outcome P m (it # its) = (let w = winners (live mB) (?c1 @ ?c2) in (w, claim ?ttl w mB))"
    by (simp add: batch_outcome_def batch_candidates_def act one rest Let_def)
  then show ?thesis by (simp only: first second Let_def ws claim_append prod.case)
qed

fun one_by_one :: "('r, 'p) DetectionPipeline \<Rightarrow> keyspace \<Rightarrow> Item list \<Rightarrow> DetectionEvent list list \<times> keyspace" where
  "one_by_one P m [] = ([], m)"
| "one_by_one P m (it # its) =
     (case batch_outcome P m [it] of (ds, m1) \<Rightarrow> case one_by_one P m1 its of (dss, m2) \<Rightarrow> (ds # dss, m2))"

lemma batch_one_by_one:
  "batch_outcome P m items = (case one_by_one P m items of (dss, m') \<Rightarrow> (concat dss, m'))"
proof (induction items arbitrary: m)
  case Nil
  show ?case by (simp add: batch_outcome_def batch_candidates_def active_items_def)
next
  case (Cons it its)
  show ?case unfolding batch_outcome_Cons [of P m it its] by (simp add: Cons split_beta)
qed

lemma claim_typed:
  assumes "typed_ks m"
  shows "typed_ks (claim ttl ds m)"
proof -
  have "fits (cooldown_key d) (RStr v)" for d v
    by (simp add: zset_key_def hash_key_def cooldown_key_def COOLDOWN_KEY_PREFIX_def)
  with assms show ?thesis
    unfolding claim_def by (induction ds rule: rev_induct) (auto intro!: typed_ks_upd simp del: fits.simps)
qed

lemma outcome_sound:
  assumes "sound P m"
  shows "sound P (snd (batch_outcome P m items))"
proof -
  have "typed_ks (snd (checks (on_keys P) m (active_items m items)))"
    using checks_kv [of "on_keys P" m "active_items m items"] assms by (simp add: sound_def)
  moreover have "decisions_ok (claim t ds m') = decisions_ok m'" for t ds m'
    by (simp add: decisions_ok_def decision_reply_def del: decision_key.simps)
  ultimately show ?thesis
    using assms by (auto simp: sound_def batch_outcome_def Let_def decisions_checks intro!: claim_typed)
qed

lemma run_each:
  assumes "redis_up rc obs" and "dp_redis P = rc"
  shows "sound P (ks (obs (w_redis w))) \<Longrightarrow> one_by_one P (ks (obs (w_redis w))) items = (dss, m') \<Longrightarrow>
    \<exists>rs w'. mapE (\<lambda>it. run_batch P [it]) items w = (Inr rs, w') \<and> map emitted rs = dss \<and> ks (obs (w_redis w')) = m'"
proof (induction items arbitrary: w dss)
  case Nil
  then show ?case by (simp add: ret_def)
next
  case (Cons it its)
  obtain ds m1 where 1: "batch_outcome P (ks (obs (w_redis w))) [it] = (ds, m1)" by fastforce
  obtain dss' where 2: "one_by_one P m1 its = (dss', m')" "dss = ds # dss'"
    using Cons.prems(2) 1 by (auto split: prod.splits)
  obtain w1 where run: "run_batch P [it] w =
      (Inr \<lparr>emitted = ds, br_failures = [], claimed_cooldown_keys = map cooldown_key ds\<rparr>, w1)" "ks (obs (w_redis w1)) = m1"
    using run_batch_run [OF assms refl Cons.prems(1) 1] by blast
  have "sound P m1" using outcome_sound [OF Cons.prems(1), of "[it]"] 1 by simp
  then obtain rs w' where "mapE (\<lambda>it. run_batch P [it]) its w1 = (Inr rs, w')" "map emitted rs = dss'"
      "ks (obs (w_redis w')) = m'"
    using Cons.IH [of w1 dss'] run(2) 2(1) by blast
  with run(1) 2(2) show ?case by (simp add: bindE_def ret_def)
qed

text \<open>
  (C9) Batching is an optimisation and nothing more: against a server that is up, with usable settings
  and readable stored decisions, a batch of any length runs to its end, and it emits the very
  detections, in the same order and with the same ids, and leaves the very key space that running
  its records one at a time does.
\<close>

theorem batch_equals_one_by_one:
  assumes "redis_up rc obs" and "dp_redis P = rc" and "sound P (ks (obs (w_redis w)))"
  shows "\<exists>r w1 rs w2. run_batch P items w = (Inr r, w1) \<and>
    mapE (\<lambda>it. run_batch P [it]) items w = (Inr rs, w2) \<and>
    emitted r = concat (map emitted rs) \<and> claimed_cooldown_keys r = map cooldown_key (emitted r) \<and>
    ks (obs (w_redis w1)) = ks (obs (w_redis w2))"
proof -
  let ?m = "ks (obs (w_redis w))"
  obtain dss m' where seq: "one_by_one P ?m items = (dss, m')" by fastforce
  have bat: "batch_outcome P ?m items = (concat dss, m')" using batch_one_by_one [of P ?m items] seq by simp
  obtain w1 where "run_batch P items w =
      (Inr \<lparr>emitted = concat dss, br_failures = [], claimed_cooldown_keys = map cooldown_key (concat dss)\<rparr>, w1)"
      "ks (obs (w_redis w1)) = m'"
    using run_batch_run [OF assms(1,2) refl assms(3) bat] by blast
  moreover obtain rs w2 where "mapE (\<lambda>it. run_batch P [it]) items w = (Inr rs, w2)" "map emitted rs = dss"
      "ks (obs (w_redis w2)) = m'"
    using run_each [OF assms(1,2,3) seq] by blast
  ultimately show ?thesis by auto
qed

subsection \<open>Refused events\<close>

abbreviation refused :: "keyspace \<Rightarrow> Item \<Rightarrow> bool" where
  "refused m it \<equiv> live m (enforcement_key (it_event it))"

lemma outcome_refused: "batch_outcome P m (filter (\<lambda>it. \<not> refused m it) items) = batch_outcome P m items"
proof -
  have "active_items m (filter (\<lambda>it. \<not> refused m it) items) = active_items m items"
    unfolding active_items_def filter_filter by (rule filter_cong) auto
  then show ?thesis by (simp only: batch_outcome_def batch_candidates_def)
qed

text \<open>
  (C14) Refused events leave no trace: the transactions of quarantined users and the logins from
  blocked addresses change no key and no detection; a batch emits and stores exactly what it would
  without them, and all it adds is one audit message per refused event, sent before the detections.
\<close>

theorem refused_events_leave_no_trace:
  assumes "redis_up rc obs" and "dp_redis P = rc" and "m = ks (obs (w_redis w))" and "sound P m"
  shows "\<exists>r w1 w2. run_batch P items w = (Inr r, w1) \<and>
    run_batch P (filter (\<lambda>it. \<not> live m (enforcement_key (it_event it))) items) w = (Inr r, w2) \<and>
    ks (obs (w_redis w1)) = ks (obs (w_redis w2)) \<and>
    w_out w2 = send_all (dp_emit P) (emitted r) (w_out w) \<and>
    w_out w1 = send_all (dp_emit P) (emitted r)
      (audits P (map it_event (filter (\<lambda>it. live m (enforcement_key (it_event it))) items)) (w_out w))"
proof -
  obtain ds m' where out: "batch_outcome P m items = (ds, m')" by fastforce
  note 1 = run_batch_run [OF assms out]
  note 2 = run_batch_run [OF assms, of "filter (\<lambda>it. \<not> refused m it) items", unfolded outcome_refused, OF out]
  have none: "filter (refused m) (filter (\<lambda>it. \<not> refused m it) items) = []" by (induction items) auto
  have idle: "audits P [] p = p" for p by (simp add: audits_def send_all_def split: option.splits)
  from 1 2 [unfolded none list.map idle] show ?thesis by force
qed

subsection \<open>Where detections come from\<close>

fun names_event :: "DetectionEvent \<Rightarrow> event \<Rightarrow> bool" where
  "names_event d (Tx tx) = (de_user_id d = tx_user_id tx \<and> transaction_id d = tx_event_id tx)"
| "names_event d (Auth au) = (de_user_id d = au_user_id au \<and> transaction_id d = au_event_id au)"

lemma assign_stable_id_more [simp]:
  "assign_stable_id P ref (assign_stable_id P ref d) = assign_stable_id P ref d"
  "names_event (assign_stable_id P ref d) ev = names_event d ev"
  by (simp add: assign_stable_id_def Let_def) (cases ev; simp add: assign_stable_id_def Let_def)

lemma somes_set [simp]: "x \<in> set (somes xs) \<longleftrightarrow> Some x \<in> set xs"
  by (induction xs) (auto simp: somes_def List.map_filter_def)

lemma cands_name: "cands_of P ev r = Some ds \<Longrightarrow> d \<in> set ds \<Longrightarrow> names_event d ev"
  by (cases "(P, ev, r)" rule: cands_of.cases)
    (auto simp: replay_interpret_def geo_interpret_def burst_interpret_def cred_interpret_def cred_detection_def
      split: if_splits option.splits sum.splits)

lemma reasons_name: "reason_detections tx v rs = Inr ds \<Longrightarrow> d \<in> set ds \<Longrightarrow> names_event d (Tx tx)"
  by (induction tx v rs arbitrary: ds rule: reason_detections.induct)
    (auto split: option.splits json.splits if_splits sum.splits)

lemma decided_name: "d \<in> set (decided_of m ev) \<Longrightarrow> names_event d ev"
proof (cases ev)
  case (Tx tx)
  assume "d \<in> set (decided_of m ev)"
  with Tx show ?thesis
    by (auto simp: detections_from_decision_def simp del: names_event.simps
        dest: reasons_name [OF sym]
        split: sum.splits reply.splits option.splits json.splits if_splits)
qed simp

lemma candidates_traced:
  assumes "d \<in> set (batch_candidates P m items)"
  shows "\<exists>it\<in>set items. \<not> refused m it \<and> analysed (it_event it) \<and> names_event d (it_event it) \<and>
    d = assign_stable_id P (it_ref it) d"
proof -
  obtain it r where pr: "(it, r) \<in> set (zip (active_items m items) (fst (checks P m (active_items m items))))"
    and d: "d \<in> set (item_candidates P m (it, r))"
    using assms by (auto simp: batch_candidates_def)
  from set_zip_leftD [OF pr] have it: "it \<in> set items" "\<not> refused m it" "analysed (it_event it)"
    by (auto simp: active_items_def)
  from d have "names_event d (it_event it) \<and> d = assign_stable_id P (it_ref it) d"
    by (auto simp: item_candidates_def dest: cands_name decided_name split: option.splits)
  with it show ?thesis by blast
qed

text \<open>
  (C27) Every detection can be traced to the record that caused it: it names the user and the event
  of a record of the batch that was not refused and is subject to analysis, its id is the stable id
  of that record's delivery, no two detections of a batch are for the same type and subject, and
  none was sent while the cooldown of its type and subject was running.
\<close>

theorem detections_traceable:
  assumes "redis_up rc obs" and "dp_redis P = rc" and "m = ks (obs (w_redis w))" and "sound P m"
  shows "\<exists>r w'. run_batch P items w = (Inr r, w') \<and> distinct (map cooldown_key (emitted r)) \<and>
    (\<forall>d\<in>set (emitted r). \<not> live m (cooldown_key d) \<and>
       (\<exists>it\<in>set items. \<not> live m (enforcement_key (it_event it)) \<and> analysed (it_event it) \<and>
          names_event d (it_event it) \<and> d = assign_stable_id P (it_ref it) d))"
proof -
  obtain ds m' where out: "batch_outcome P m items = (ds, m')" by fastforce
  then have ds: "ds = winners (live (snd (checks P m (active_items m items)))) (batch_candidates P m items)"
    by (simp add: batch_outcome_def Let_def)
  have free: "\<not> live m (cooldown_key d) \<and> d \<in> set (batch_candidates P m items)" if "d \<in> set ds" for d
    using winners_free [OF that [unfolded ds]] checks_frame [OF plain_cooldown_key] by metis
  obtain w' where run: "run_batch P items w =
      (Inr \<lparr>emitted = ds, br_failures = [], claimed_cooldown_keys = map cooldown_key ds\<rparr>, w')"
    using run_batch_run [OF assms out] by blast
  show ?thesis
  proof (intro exI conjI ballI)
    show "run_batch P items w =
      (Inr \<lparr>emitted = ds, br_failures = [], claimed_cooldown_keys = map cooldown_key ds\<rparr>, w')" by (rule run)
    show "distinct (map cooldown_key (emitted \<lparr>emitted = ds, br_failures = [], claimed_cooldown_keys = map cooldown_key ds\<rparr>))"
      unfolding ds BatchResult.simps by (rule winners_distinct)
  qed (use free candidates_traced [of _ P m items] in simp_all)
qed

subsection \<open>Invalid records\<close>

text \<open>\<open>model_validate\<close> raises \<open>ValidationError\<close> and nothing else.\<close>

definition validates :: "(json \<Rightarrow> exn + 'a) \<Rightarrow> bool" where
  "validates f \<longleftrightarrow> (\<forall>v e. f v = Inl e \<longrightarrow> (\<exists>msg. e = ValidationError msg))"

definition valid_items ::
  "('r, 'p) DetectionPipeline \<Rightarrow> nat \<Rightarrow> (string \<times> int \<times> int \<times> json) list \<Rightarrow> Item list" where
  "valid_items P i recs =
     somes (map (\<lambda>(j, rec). case parse_record P j rec of Inr it \<Rightarrow> Some it | Inl _ \<Rightarrow> None) (enumerate i recs))"

lemma somes_simps [simp]: "somes [] = []" "somes (Some x # xs) = x # somes xs" "somes (None # xs) = somes xs"
  by (simp_all add: somes_def List.map_filter_def)

lemma map_sum_Inl: "map_sum f g x = Inl e \<longleftrightarrow> (\<exists>a. x = Inl a \<and> e = f a)"
  by (cases x) auto

lemma parse_record_error:
  assumes "validates (dp_validate_tx P)" and "validates (dp_validate_auth P)" and "parse_record P i rec = Inl e"
  shows "\<exists>msg. e = ValidationError msg"
  using assms by (cases rec; cases "fst rec = auth_events_topic (dp_kafka_config P)")
    (auto simp: parse_record_def validates_def map_sum_Inl)

lemma parse_records_valid:
  assumes "validates (dp_validate_tx P)" and "validates (dp_validate_auth P)"
  shows "\<exists>fs. parse_records P i recs = Inr (valid_items P i recs, fs) \<and>
    (\<forall>j. map_of fs j = (if i \<le> j \<and> j < i + length recs
       then (case parse_record P j (recs ! (j - i)) of Inl e \<Rightarrow> Some e | Inr _ \<Rightarrow> None) else None))"
proof (induction recs arbitrary: i)
  case (Cons rec recs)
  obtain fs where IH: "parse_records P (Suc i) recs = Inr (valid_items P (Suc i) recs, fs)"
    "\<And>j. map_of fs j = (if Suc i \<le> j \<and> j < Suc i + length recs
       then (case parse_record P j (recs ! (j - Suc i)) of Inl e \<Rightarrow> Some e | Inr _ \<Rightarrow> None) else None)"
    using Cons [of "Suc i"] by blast
  have nth: "(rec # recs) ! (j - i) = (if j = i then rec else recs ! (j - Suc i))" if "i \<le> j" for j
  proof (cases "j = i")
    case False
    with that have "j - i = Suc (j - Suc i)" by simp
    then show ?thesis using False by simp
  qed simp
  show ?case
  proof (cases "parse_record P i rec")
    case (Inr it)
    with IH nth show ?thesis by (auto simp: valid_items_def not_less_eq_eq dest: le_antisym split: if_splits)
  next
    case (Inl e)
    obtain msg where "e = ValidationError msg" using parse_record_error [OF assms Inl] by blast
    with Inl IH nth show ?thesis by (auto simp: valid_items_def)
  qed
qed (auto simp: valid_items_def)

text \<open>
  (C28) One invalid record does not harm its batch: where \<open>model_validate\<close> raises nothing but
  \<open>ValidationError\<close>, a batch of arbitrary records is handled without an exception; the failures it
  reports are exactly the records that do not validate, at their positions in the batch, with their
  errors; and the detections and every effect are those of a run on the valid records alone.
\<close>

theorem invalid_records_isolated:
  assumes "redis_up rc obs" and "dp_redis P = rc" and "sound P (ks (obs (w_redis w)))"
    and "validates (dp_validate_tx P)" and "validates (dp_validate_auth P)"
  shows "\<exists>r w'. handle_batch P recs w = (Inr r, w') \<and>
    run_batch P (valid_items P 0 recs) w = (Inr (r\<lparr>br_failures := []\<rparr>), w') \<and>
    (\<forall>i. map_of (br_failures r) i =
       (if i < length recs
        then (case parse_record P i (recs ! i) of Inl e \<Rightarrow> Some e | Inr _ \<Rightarrow> None) else None))"
proof -
  obtain fs where parsed: "parse_records P 0 recs = Inr (valid_items P 0 recs, fs)"
    and fs: "\<forall>i. map_of fs i = (if i < length recs
        then (case parse_record P i (recs ! i) of Inl e \<Rightarrow> Some e | Inr _ \<Rightarrow> None) else None)"
    using parse_records_valid [OF assms(4,5), of 0 recs] by auto
  obtain ds m' where "batch_outcome P (ks (obs (w_redis w))) (valid_items P 0 recs) = (ds, m')" by fastforce
  from run_batch_run [OF assms(1,2) refl assms(3) this] obtain w' where
    run: "run_batch P (valid_items P 0 recs) w =
      (Inr \<lparr>emitted = ds, br_failures = [], claimed_cooldown_keys = map cooldown_key ds\<rparr>, w')"
    by blast
  let ?r = "\<lparr>emitted = ds, br_failures = fs, claimed_cooldown_keys = map cooldown_key ds\<rparr>"
  have "handle_batch P recs w = (Inr ?r, w')"
    by (simp add: handle_batch_def parsed bindE_def run ret_def)
  then show ?thesis
    using run fs by (intro exI [of _ ?r] exI [of _ w']) simp
qed

subsection \<open>Witnesses\<close>

theorem batch_equals_one_by_one_witness:
  "\<exists>r w1 rs w2. run_batch sample_detector [new_item 0 (Tx sample_tx) ''tx-events:0:1'', new_item 1 (Tx sample_tx) ''tx-events:0:2'']
       (world_with fmempty) = (Inr r, w1) \<and>
    mapE (\<lambda>it. run_batch sample_detector [it])
      [new_item 0 (Tx sample_tx) ''tx-events:0:1'', new_item 1 (Tx sample_tx) ''tx-events:0:2''] (world_with fmempty) = (Inr rs, w2) \<and>
    emitted r = concat (map emitted rs) \<and> ks (w_redis w1) = ks (w_redis w2)"
  using batch_equals_one_by_one [OF mem.redis_up_axioms sample_detector_redis, of "world_with fmempty"
      "[new_item 0 (Tx sample_tx) ''tx-events:0:1'', new_item 1 (Tx sample_tx) ''tx-events:0:2'']"]
  by (auto simp: sample_sound)

definition quarantined :: keyspace where
  "quarantined = fmupd (quarantine_key ''user_1'') (mk_entry (RStr ''api:manual'') (Some 60)) fmempty"

lemma quarantined_sound: "sound sample_detector quarantined"
  by (rule sample_sound)
    (auto simp: quarantined_def zset_key_def hash_key_def key_defs DECISION_RESULT_PREFIX_def intro!: typed_ks_upd)

theorem refused_events_leave_no_trace_witness:
  "\<exists>r w1. run_batch sample_detector [new_item 0 (Tx sample_tx) ''tx-events:0:1''] (world_with quarantined) = (Inr r, w1) \<and>
     emitted r = [] \<and> ks (w_redis w1) = quarantined \<and> w_out w1 = [blocked_audit (Tx sample_tx)]"
proof -
  let ?it = "new_item 0 (Tx sample_tx) ''tx-events:0:1''"
  have live: "live quarantined (enforcement_key (Tx sample_tx))" by (simp add: quarantined_def sample_tx_def)
  obtain r w1 w2 where
    run: "run_batch sample_detector [?it] (world_with quarantined) = (Inr r, w1)"
    and none: "run_batch sample_detector (filter (\<lambda>it. \<not> live quarantined (enforcement_key (it_event it))) [?it]) (world_with quarantined) = (Inr r, w2)"
    and same: "ks (w_redis w1) = ks (w_redis w2)"
    and out: "w_out w1 = send_all (dp_emit sample_detector) (emitted r)
      (audits sample_detector (map it_event (filter (\<lambda>it. live quarantined (enforcement_key (it_event it))) [?it])) [])"
    using refused_events_leave_no_trace [OF mem.redis_up_axioms sample_detector_redis _ quarantined_sound,
        of "world_with quarantined" "[?it]"] by auto
  have "emitted r = []" "w2 = world_with quarantined" using none live by (auto simp: run_batch_def ret_def)
  moreover from this have "w_out w1 = [blocked_audit (Tx sample_tx)]"
    using out live by (simp add: send_all_def audits_def sample_detector_def)
  ultimately show ?thesis using run same by auto
qed

theorem detections_traceable_witness:
  "\<exists>r w' d. run_batch sample_detector trip (world_with settled) = (Inr r, w') \<and> emitted r = [d] \<and>
     detection_type d = ''geo_velocity_anomaly'' \<and>
     (\<exists>it\<in>set trip. names_event d (it_event it) \<and> d = assign_stable_id sample_detector (it_ref it) d)"
proof -
  obtain d where out: "batch_outcome sample_detector settled trip = ([d], claim 60 [d] returned)"
    "detection_type d = ''geo_velocity_anomaly''"
    using trip_outcome by blast
  obtain r w' where run: "run_batch sample_detector trip (world_with settled) = (Inr r, w')"
    and tr: "\<forall>d\<in>set (emitted r). \<exists>it\<in>set trip. names_event d (it_event it) \<and> d = assign_stable_id sample_detector (it_ref it) d"
    using detections_traceable [OF mem.redis_up_axioms sample_detector_redis refl, of "world_with settled" trip] settled_sound
    unfolding world_with_sel by blast
  have "emitted r = [d]"
    using run_batch_run [OF mem.redis_up_axioms sample_detector_redis, of settled "world_with settled" trip] run out settled_sound
    by auto
  with run tr out(2) show ?thesis by auto
qed

theorem invalid_records_isolated_witness:
  "\<exists>r w'. handle_batch sample_detector [(''tx-events'', 0, 7, JObj []), (''auth-events'', 0, 3, JNull)] (world_with fmempty) = (Inr r, w') \<and>
     map_of (br_failures r) 0 = Some (ValidationError ''amount'') \<and> map_of (br_failures r) 1 = Some (ValidationError ''user_id'')"
proof -
  let ?recs = "[(''tx-events'', 0, 7, JObj []), (''auth-events'', 0, 3, JNull)] :: (string \<times> int \<times> int \<times> json) list"
  have "validates (dp_validate_tx sample_detector)" "validates (dp_validate_auth sample_detector)"
    by (simp_all add: validates_def sample_detector_def)
  then obtain r w' where run: "handle_batch sample_detector ?recs (world_with fmempty) = (Inr r, w')"
    and fs: "\<And>i. map_of (br_failures r) i = (if i < length ?recs
       then (case parse_record sample_detector i (?recs ! i) of Inl e \<Rightarrow> Some e | Inr _ \<Rightarrow> None) else None)"
    using invalid_records_isolated [OF mem.redis_up_axioms sample_detector_redis, of "world_with fmempty" ?recs]
    by (auto simp: sample_sound)
  have "map_of (br_failures r) 0 = Some (ValidationError ''amount'')" "map_of (br_failures r) 1 = Some (ValidationError ''user_id'')"
    unfolding fs by (simp_all add: parse_record_def sample_detector_def default_kafka_config_def)
  with run show ?thesis by blast
qed

end
