(* ===== verification/SharedRedis.thy ===== *)
theory SharedRedis
  imports Enforcement
begin

text \<open>
  The Redis server shared with other clients. Between any two commands of a connection other clients
  may write; \<open>others W m m'\<close> says that they wrote the keys \<open>W\<close> and took the key space from \<open>m\<close> to
  \<open>m'\<close> (the expiry of a key counts as a write of it). A connection that watches one of the written
  keys is marked. A call may also fail as an outage, before or after its command took effect.
  The contract \<open>redis_shared\<close> is what \<open>redis_client\<close> promises plus this interference.
\<close>

definition disturb :: "string set \<Rightarrow> keyspace \<Rightarrow> conn \<Rightarrow> conn" where
  "disturb W m c = c\<lparr>ks := m, touched := touched c \<or> set (watched c) \<inter> W \<noteq> {}\<rparr>"

locale redis_shared =
  fixes rc :: "cmd \<Rightarrow> 'r \<Rightarrow> (exn + reply) \<times> 'r"
    and obs :: "'r \<Rightarrow> conn"
    and others :: "string set \<Rightarrow> keyspace \<Rightarrow> keyspace \<Rightarrow> bool"
  assumes others_none: "others {} m m"
    and others_then: "others V m m' \<Longrightarrow> others W m' m'' \<Longrightarrow> others (V \<union> W) m m''"
    and others_frame: "others W m m' \<Longrightarrow> k \<notin> W \<Longrightarrow> unchanged m m' k"
    and shared: "rc c s = (r, s') \<Longrightarrow> \<exists>W m. others W (ks (obs s)) m \<and>
      (redis_replies c (disturb W m (obs s)) r (obs s') \<or>
       (\<exists>e. r = Inl e \<and> outage e \<and>
          (ks (obs s') = m \<or> (\<exists>r' t. redis_replies c (disturb W m (obs s)) r' t \<and> ks (obs s') = ks t))))"

text \<open>A client nobody disturbs is a special case.\<close>

lemma disturb_none [simp]: "disturb {} (ks c) c = c"
  by (simp add: disturb_def)

lemma disturb_sel [simp]:
  "ks (disturb W m c) = m" "watched (disturb W m c) = watched c"
  "touched (disturb W m c) \<longleftrightarrow> touched c \<or> set (watched c) \<inter> W \<noteq> {}"
  by (simp_all add: disturb_def)

sublocale redis_client \<subseteq> undisturbed: redis_shared rc obs "\<lambda>W m m'. W = {} \<and> m' = m"
proof unfold_locales
  fix c s r s'
  assume run: "rc c s = (r, s')"
  then have "redis_replies c (obs s) r (obs s') \<or>
      (\<exists>e. r = Inl e \<and> outage e \<and> (obs s' = obs s \<or> (\<exists>r. redis_replies c (obs s) r (obs s'))))"
    using answered [of c s _ s'] failed [of c s _ s'] by (cases r) blast+
  then show "\<exists>W m. (W = {} \<and> m = ks (obs s)) \<and>
      (redis_replies c (disturb W m (obs s)) r (obs s') \<or>
       (\<exists>e. r = Inl e \<and> outage e \<and>
          (ks (obs s') = m \<or> (\<exists>r' t. redis_replies c (disturb W m (obs s)) r' t \<and> ks (obs s') = ks t))))"
    by auto
qed auto

subsection \<open>A busy server\<close>

text \<open>The keys a command can write.\<close>

fun written :: "cmd \<Rightarrow> string list" where
  "written (SET_NX_EX k _ _) = [k]"
| "written (SET_EX k _ _) = [k]"
| "written (SET k _) = [k]"
| "written (DEL keys) = keys"
| "written (ZREMRANGEBYSCORE k _) = [k]"
| "written (ZADD k _ _) = [k]"
| "written (EXPIRE k _) = [k]"
| "written (HSET k _) = [k]"
| "written _ = []"

lemma kv_step_frame: "k \<notin> set (written c) \<Longrightarrow> unchanged m (snd (kv_step c m)) k"
  by (cases c) (auto simp: kv_simps unchanged_def split: option.splits rval.splits)

definition run_others :: "cmd list \<Rightarrow> keyspace \<Rightarrow> keyspace" where
  "run_others cs m = fold (\<lambda>c m. snd (kv_step c m)) cs m"

text \<open>
  A server with a list of what happens around the calls of our connection: the commands other
  clients send before the call, and whether the call fails with an outage (before or after it took
  effect). When the list is used up, nothing disturbs the connection any more.
\<close>

type_synonym busy = "conn \<times> (cmd list \<times> (exn \<times> bool) option) list"

definition disturbed_by :: "cmd list \<Rightarrow> conn \<Rightarrow> conn" where
  "disturbed_by cs c = disturb (set (concat (map written cs))) (run_others cs (ks c)) c"

fun busy_step :: "cmd \<Rightarrow> busy \<Rightarrow> (exn + reply) \<times> busy" where
  "busy_step c (s, []) = (case redis_step c s of (r, s') \<Rightarrow> (r, (s', [])))"
| "busy_step c (s, (cs, None) # plan) = (case redis_step c (disturbed_by cs s) of (r, s') \<Rightarrow> (r, (s', plan)))"
| "busy_step c (s, (cs, Some (e, done)) # plan) =
     (if outage e
      then (Inl e, (if done then snd (redis_step c (disturbed_by cs s)) else disturbed_by cs s, plan))
      else (case redis_step c (disturbed_by cs s) of (r, s') \<Rightarrow> (r, (s', plan))))"

definition busy_others :: "string set \<Rightarrow> keyspace \<Rightarrow> keyspace \<Rightarrow> bool" where
  "busy_others W m m' \<longleftrightarrow> (\<exists>cs. W = set (concat (map written cs)) \<and> m' = run_others cs m)"

lemma unchanged_trans: "unchanged m m' k \<Longrightarrow> unchanged m' m'' k \<Longrightarrow> unchanged m m'' k"
  by (simp add: unchanged_def)

lemma run_others_frame:
  "k \<notin> set (concat (map written cs)) \<Longrightarrow> unchanged m (run_others cs m) k"
proof (induction cs arbitrary: m)
  case Nil
  then show ?case by (simp add: run_others_def)
next
  case (Cons c cs)
  then show ?case
    using kv_step_frame [of k c m] unchanged_trans [of m "snd (kv_step c m)" k]
    by (simp add: run_others_def)
qed

lemma busy_replies:
  assumes "busy_step c s = (r, s')"
  shows "\<exists>cs. (cs = [] \<or> cs \<in> fst ` set (snd s)) \<and> (redis_replies c (disturbed_by cs (fst s)) r (fst s') \<or>
    (\<exists>e. r = Inl e \<and> outage e \<and> (fst s' = disturbed_by cs (fst s) \<or>
       (\<exists>r'. redis_replies c (disturbed_by cs (fst s)) r' (fst s')))))"
proof -
  have none: "disturbed_by [] x = x" for x by (simp add: disturbed_by_def run_others_def)
  note any = redis_step_scan [of c "disturbed_by _ (fst s)"]
  show ?thesis
  proof (cases "(c, s)" rule: busy_step.cases)
    case (1 c' x)
    with assms any [of "[]"] show ?thesis
      by (intro exI [of _ "[]"]) (auto simp: none split: prod.splits)
  next
    case (2 c' x cs plan)
    with assms any [of cs] show ?thesis
      by (intro exI [of _ cs]) (auto split: prod.splits)
  next
    case (3 c' x cs e d plan)
    with assms any [of cs] show ?thesis
      by (intro exI [of _ cs]) (auto split: prod.splits if_splits)
  qed
qed

text \<open>One call of a busy server, as the contract describes it.\<close>

lemma busy_shared:
  assumes "busy_step c s = (r, s')"
  shows "\<exists>cs. (cs = [] \<or> cs \<in> fst ` set (snd s)) \<and>
      (redis_replies c (disturb (set (concat (map written cs))) (run_others cs (ks (fst s))) (fst s)) r (fst s') \<or>
       (\<exists>e. r = Inl e \<and> outage e \<and>
          (ks (fst s') = run_others cs (ks (fst s)) \<or>
           (\<exists>r' t. redis_replies c (disturb (set (concat (map written cs))) (run_others cs (ks (fst s))) (fst s)) r' t \<and>
              ks (fst s') = ks t))))"
  using busy_replies [OF assms] unfolding disturbed_by_def by (metis disturb_sel(1))

interpretation busy: redis_shared busy_step fst busy_others
proof unfold_locales
  fix m
  show "busy_others {} m m" by (auto simp: busy_others_def run_others_def intro: exI [of _ "[]"])
next
  fix V m m' W m''
  assume "busy_others V m m'" "busy_others W m' m''"
  then obtain cs cs' where "V = set (concat (map written cs))" "m' = run_others cs m"
    "W = set (concat (map written cs'))" "m'' = run_others cs' m'"
    by (auto simp: busy_others_def)
  then show "busy_others (V \<union> W) m m''"
    by (auto simp: busy_others_def run_others_def intro!: exI [of _ "cs @ cs'"])
next
  fix W m m' k
  assume "busy_others W m m'" "k \<notin> W"
  then show "unchanged m m' k" using run_others_frame by (auto simp: busy_others_def)
next
  fix c s r s'
  assume "busy_step c s = (r, s')"
  then show "\<exists>W m. busy_others W (ks (fst s)) m \<and>
      (redis_replies c (disturb W m (fst s)) r (fst s') \<or>
       (\<exists>e. r = Inl e \<and> outage e \<and>
          (ks (fst s') = m \<or> (\<exists>r' t. redis_replies c (disturb W m (fst s)) r' t \<and> ks (fst s') = ks t))))"
    unfolding busy_others_def by (elim exE [OF busy_shared] conjE) (intro exI conjI, rule refl, rule refl, assumption)
qed

end
