(* ===== verification/Containment.thy ===== *)
theory Containment
  imports SharedRedis Cooldown
begin

text \<open>
  \<open>containment_engine/containment_actions.py\<close> and \<open>containment_engine/pipeline.py\<close>: the policy that
  turns a detection into enforcement rules, and its application in one WATCH/MULTI/EXEC transaction
  together with a receipt. The retry loop around a WATCH conflict takes a fuel; \<open>None\<close> means that it
  ran out. The abstract specification is \<open>contain\<close>: the whole of it in one atomic step on the key space.

  redis-py's \<open>with pipeline()\<close> block releases a connection that is still watching when it is left,
  by UNWATCH, and ignores a failure of that.
\<close>

definition HARD_QUARANTINE_TYPES :: "string list" where
  "HARD_QUARANTINE_TYPES = [''replay_attack'', ''fraud_burst'']"

definition RECEIPT_PREFIX :: string where
  "RECEIPT_PREFIX = ''containment:applied:''"

definition receipt_key :: "DetectionEvent \<Rightarrow> string" where
  "receipt_key d = RECEIPT_PREFIX @ detection_id d"

definition guard_key :: "DetectionEvent \<Rightarrow> string" where
  "guard_key d = step_up_key (de_user_id d)"

definition plan ::
  "'r redis \<Rightarrow> DetectionEvent \<Rightarrow> RedisConfig \<Rightarrow> ('r, string list \<times> (string \<times> int) list) action" where
  "plan rc d cfg =
     (let dtype = detection_type d;
          quarantine = (quarantine_key (de_user_id d), quarantine_ttl_seconds cfg);
          scope = dict_get_default (details d) ''scope'' (JStr ''user'')
      in if dtype \<in> set HARD_QUARANTINE_TYPES then ret ([''quarantine''], [quarantine])
         else if dtype = ''credential_stuffing'' then
           (case de_ip_address d of
              Some ip \<Rightarrow>
                (if scope = JStr ''ip'' \<and> ip \<noteq> []
                 then ret ([''quarantine'', ''ip_block''],
                           [quarantine, (ip_block_key ip, ip_block_ttl_seconds cfg)])
                 else ret ([''quarantine''], [quarantine]))
            | None \<Rightarrow> ret ([''quarantine''], [quarantine]))
         else if dtype = ''geo_velocity_anomaly'' then
           bindE (rc (EXISTS (step_up_key (de_user_id d)))) (\<lambda>pending.
             let step_up = (step_up_key (de_user_id d), step_up_ttl_seconds cfg)
             in if truthy pending
                then ret ([''step_up_auth'', ''quarantine''], [step_up, quarantine])
                else ret ([''step_up_auth''], [step_up]))
         else ret ([], []))"

text \<open>Leaving the \<open>with\<close> block of a watching pipeline, and leaving it by an exception.\<close>

definition reset_pipe :: "'r redis \<Rightarrow> ('r, unit) action" where
  "reset_pipe rc s = (Inr (), snd (rc UNWATCH s))"

definition resetting :: "'r redis \<Rightarrow> ('r, 'a) action \<Rightarrow> ('r, 'a) action" where
  "resetting rc m s =
     (case m s of (r, s') \<Rightarrow> (case r of Inl e \<Rightarrow> (Inl e, snd (reset_pipe rc s')) | Inr x \<Rightarrow> (Inr x, s')))"

text \<open>
  \<open>json.loads\<close> of a receipt. Receipts are lists of texts; any other JSON value would raise a
  \<open>TypeError\<close> in \<open>handle_detection\<close>, which uses the list.
\<close>

fun text_of :: "json \<Rightarrow> string option" where
  "text_of (JStr s) = Some s"
| "text_of _ = None"

definition load_actions :: "string \<Rightarrow> exn + string list" where
  "load_actions v =
     (case json_loads v of
        Some (JArr xs) \<Rightarrow> (case those (map text_of xs) of Some as \<Rightarrow> Inr as | None \<Rightarrow> Inl (OtherError ''TypeError''))
      | Some _ \<Rightarrow> Inl (OtherError ''TypeError'')
      | None \<Rightarrow> Inl (ValueError ''JSONDecodeError''))"

text \<open>One turn of the loop; \<open>None\<close> when the transaction met a WATCH conflict.\<close>

definition containment_tx :: "RedisConfig \<Rightarrow> DetectionEvent \<Rightarrow> string list \<Rightarrow> (string \<times> int) list \<Rightarrow> cmd" where
  "containment_tx cfg d actions writes =
     EXEC (SET_EX (receipt_key d) (json_dumps_strs actions) (containment_receipt_ttl_seconds cfg) #
           map (\<lambda>(key, ttl). SET_EX key (detection_id d) ttl) writes)"

definition exec_writes ::
  "'r redis \<Rightarrow> RedisConfig \<Rightarrow> DetectionEvent \<Rightarrow> string list \<Rightarrow> (string \<times> int) list \<Rightarrow>
   ('r, string list option) action" where
  "exec_writes rc cfg d actions writes s =
     (case rc (containment_tx cfg d actions writes) s of
        (r, s') \<Rightarrow> (case r of
                      Inl WatchError \<Rightarrow> (Inr None, s')
                    | Inl e \<Rightarrow> (Inl e, s')
                    | Inr _ \<Rightarrow> (Inr (Some actions), s')))"

definition containment_turn ::
  "'r redis \<Rightarrow> RedisConfig \<Rightarrow> DetectionEvent \<Rightarrow> ('r, string list option) action" where
  "containment_turn rc cfg d =
     bindE (rc (WATCH [receipt_key d, guard_key d])) (\<lambda>_.
     bindE (resetting rc (rc (GET (receipt_key d)))) (\<lambda>prior.
     case prior of
       RBulk v \<Rightarrow> bindE (reset_pipe rc) (\<lambda>_. (\<lambda>s. (map_sum id Some (load_actions v), s)))
     | _ \<Rightarrow>
        bindE (resetting rc (plan rc d cfg)) (\<lambda>(actions, writes).
        if actions = [] then bindE (resetting rc (rc UNWATCH)) (\<lambda>_. ret (Some []))
        else exec_writes rc cfg d actions writes)))"

fun apply_containment ::
  "'r redis \<Rightarrow> RedisConfig \<Rightarrow> nat \<Rightarrow> DetectionEvent \<Rightarrow> ('r, string list option) action" where
  "apply_containment rc cfg 0 d = ret None"
| "apply_containment rc cfg (Suc n) d =
     bindE (containment_turn rc cfg d) (\<lambda>done.
     case done of Some actions \<Rightarrow> ret (Some actions) | None \<Rightarrow> apply_containment rc cfg n d)"

subsection \<open>The containment pipeline\<close>

record ('r, 'p) ContainmentPipeline =
  cp_redis :: "'r redis"
  cp_emit_audit :: "json \<Rightarrow> ('p, unit) action"
  cp_redis_config :: RedisConfig

definition opt_json :: "string option \<Rightarrow> json" where
  "opt_json x = (case x of None \<Rightarrow> JNull | Some s \<Rightarrow> JStr s)"

definition audit_record :: "DetectionEvent \<Rightarrow> string list \<Rightarrow> json" where
  "audit_record d actions = JObj
     [(''detection_id'', JStr (detection_id d)), (''detection_type'', JStr (detection_type d)),
      (''user_id'', JStr (de_user_id d)), (''ip_address'', opt_json (de_ip_address d)),
      (''actions'', JArr (map JStr actions)),
      (''action'', JStr (if actions \<noteq> [] then join_with ''+'' actions else ''none'')),
      (''timestamp'', JStr (isoformat (de_timestamp d))), (''details'', JObj (details d))]"

definition handle_detection ::
  "('r, 'p) ContainmentPipeline \<Rightarrow> nat \<Rightarrow> DetectionEvent \<Rightarrow> (('r, 'p) world, string list option) action" where
  "handle_detection P fuel d =
     bindE (on_redis (apply_containment (cp_redis P) (cp_redis_config P) fuel d)) (\<lambda>res.
     case res of
       None \<Rightarrow> ret None
     | Some actions \<Rightarrow>
         bindE (incs (map (\<lambda>a. (''containment_actions_total'', [detection_type d, a])) actions)) (\<lambda>_.
         bindE (on_out (cp_emit_audit P (audit_record d actions))) (\<lambda>_.
         ret (Some actions))))"

text \<open>\<open>model_validate\<close> is Pydantic's; a validation error is raised to the caller.\<close>

definition containment_handle_record ::
  "('r, 'p) ContainmentPipeline \<Rightarrow> (json \<Rightarrow> exn + DetectionEvent) \<Rightarrow> nat \<Rightarrow> json \<Rightarrow>
   (('r, 'p) world, unit option) action" where
  "containment_handle_record P model_validate fuel value =
     (case model_validate value of
        Inl e \<Rightarrow> raise_exn e
      | Inr d \<Rightarrow> bindE (handle_detection P fuel d) (\<lambda>r. ret (map_option (\<lambda>_. ()) r)))"

subsection \<open>The specification\<close>

text \<open>The policy as a function of the one thing it reads: whether a step-up is pending.\<close>

definition policy :: "bool \<Rightarrow> DetectionEvent \<Rightarrow> RedisConfig \<Rightarrow> string list \<times> (string \<times> int) list" where
  "policy pending d cfg =
     (let q = (quarantine_key (de_user_id d), quarantine_ttl_seconds cfg);
          st = (step_up_key (de_user_id d), step_up_ttl_seconds cfg)
      in if detection_type d = ''replay_attack'' \<or> detection_type d = ''fraud_burst''
         then ([''quarantine''], [q])
         else if detection_type d = ''credential_stuffing'' then
           (case de_ip_address d of
              Some ip \<Rightarrow> if dict_get (details d) ''scope'' = Some (JStr ''ip'') \<and> ip \<noteq> []
                         then ([''quarantine'', ''ip_block''], [q, (ip_block_key ip, ip_block_ttl_seconds cfg)])
                         else ([''quarantine''], [q])
            | None \<Rightarrow> ([''quarantine''], [q]))
         else if detection_type d = ''geo_velocity_anomaly'' then
           (if pending then ([''step_up_auth'', ''quarantine''], [st, q]) else ([''step_up_auth''], [st]))
         else ([], []))"

definition write_rules :: "RedisConfig \<Rightarrow> DetectionEvent \<Rightarrow> string list \<Rightarrow> (string \<times> int) list \<Rightarrow> keyspace \<Rightarrow> keyspace" where
  "write_rules cfg d actions writes m =
     fold (\<lambda>(key, ttl). fmupd key (mk_entry (RStr (detection_id d)) (Some ttl))) writes
       (fmupd (receipt_key d) (mk_entry (RStr (json_dumps_strs actions))
          (Some (containment_receipt_ttl_seconds cfg))) m)"

definition contain :: "RedisConfig \<Rightarrow> DetectionEvent \<Rightarrow> keyspace \<Rightarrow> (exn + string list) \<times> keyspace" where
  "contain cfg d m =
     (case fmlookup m (receipt_key d) of
        Some e \<Rightarrow> (case e_val e of RStr v \<Rightarrow> (load_actions v, m) | _ \<Rightarrow> (Inl wrongtype, m))
      | None \<Rightarrow>
          (case policy (live m (guard_key d)) d cfg of (actions, writes) \<Rightarrow>
             (Inr actions, if actions = [] then m else write_rules cfg d actions writes m)))"

end
