(* ===== verification/ContainmentProps.thy ===== *)
theory ContainmentProps
  imports Containment
begin

text \<open>
  Containment against a server shared with other clients and subject to outages: every call of
  \<open>apply_containment\<close> is one atomic \<open>contain\<close> step or no step at all, whatever the others do in
  between, and so a detection delivered any number of times is contained at most once.
\<close>

subsection \<open>The policy and the transaction\<close>

lemma plan_policy:
  assumes "rc (EXISTS (guard_key d)) s = (Inr (RInt (if p then 1 else 0)), s')"
  shows "\<exists>t. plan rc d cfg s = (Inr (policy p d cfg), t) \<and> (t = s \<or> t = s')"
  using assms
  by (auto simp: plan_def policy_def HARD_QUARANTINE_TYPES_def Let_def ret_def bindE_def guard_key_def
      dict_get_default_def split: option.splits)

lemma policy_writes_pos: "config_ok cfg \<Longrightarrow> \<forall>(k, t)\<in>set (snd (policy p d cfg)). 0 < t"
  by (auto simp: policy_def config_ok_def Let_def split: option.splits)

lemma mapE_set_ex:
  "\<forall>(k, t)\<in>set ws. 0 < t \<Longrightarrow>
   mapE (\<lambda>a. a) (map kv_step (map (\<lambda>(k, t). SET_EX k v t) ws)) m =
     (Inr (replicate (length ws) ROk), fold (\<lambda>(k, t). fmupd k (mk_entry (RStr v) (Some t))) ws m)"
  by (induction ws arbitrary: m) (auto simp: action_simps kv_simps)

lemma exec_write_rules:
  assumes "config_ok cfg" and "policy p d cfg = (actions, writes)"
  shows "\<exists>rs. pipe_execute (map kv_step (SET_EX (receipt_key d) (json_dumps_strs actions) (containment_receipt_ttl_seconds cfg) #
      map (\<lambda>(key, ttl). SET_EX key (detection_id d) ttl) writes)) m = (Inr rs, write_rules cfg d actions writes m)"
proof -
  let ?e = "mk_entry (RStr (json_dumps_strs actions)) (Some (containment_receipt_ttl_seconds cfg))"
  have pos: "\<forall>(k, t)\<in>set writes. 0 < t" "0 < containment_receipt_ttl_seconds cfg"
    using policy_writes_pos [OF assms(1), of p d] assms by (simp_all add: config_ok_def)
  note rest = mapE_set_ex [OF pos(1), of "detection_id d" "fmupd (receipt_key d) ?e m"]
  have "mapE (\<lambda>a. a) (map kv_step (SET_EX (receipt_key d) (json_dumps_strs actions) (containment_receipt_ttl_seconds cfg) #
      map (\<lambda>(key, ttl). SET_EX key (detection_id d) ttl) writes)) m =
      (Inr (ROk # replicate (length writes) ROk), write_rules cfg d actions writes m)"
    using pos(2) rest by (simp add: bindE_def ret_def kv_simps write_rules_def)
  from pipe_execute_ok [OF this] show ?thesis by blast
qed

lemma plain_actions: "\<forall>s\<in>set (fst (policy p d cfg)). \<forall>c\<in>set s. plain_char c"
  by (auto simp: policy_def Let_def plain_char_def split: option.splits)

lemma those_texts [simp]: "those (map text_of (map JStr xs)) = Some xs"
  by (induction xs) auto

lemma load_dumped: "load_actions (json_dumps_strs (fst (policy p d cfg))) = Inr (fst (policy p d cfg))"
  using json_loads_dumps_strs [OF plain_actions] by (simp add: load_actions_def del: map_map)

lemma tx_conflict:
  "touched t \<Longrightarrow> fst (redis_step (containment_tx cfg d actions writes) t) = Inl WatchError \<and>
     ks (snd (redis_step (containment_tx cfg d actions writes) t)) = ks t"
  by (simp add: containment_tx_def redis_step.simps)

lemma tx_commits:
  assumes "config_ok cfg" and "policy p d cfg = (actions, writes)" and "\<not> touched t"
  shows "(\<exists>x. fst (redis_step (containment_tx cfg d actions writes) t) = Inr x) \<and>
     ks (snd (redis_step (containment_tx cfg d actions writes) t)) = write_rules cfg d actions writes (ks t)"
  using exec_write_rules [OF assms(1,2), of "ks t"] assms(3)
  unfolding containment_tx_def redis_step.simps by auto

text \<open>The keys \<open>contain\<close> writes and the receipt it leaves.\<close>

lemma receipt_not_rule [simp]:
  "receipt_key d \<noteq> quarantine_key u" "receipt_key d \<noteq> step_up_key u" "receipt_key d \<noteq> ip_block_key i"
  "quarantine_key u \<noteq> receipt_key d" "step_up_key u \<noteq> receipt_key d" "ip_block_key i \<noteq> receipt_key d"
  by (simp_all add: receipt_key_def RECEIPT_PREFIX_def key_defs)

lemma policy_keys:
  "policy p d cfg = (actions, writes) \<Longrightarrow> receipt_key d' \<notin> fst ` set writes"
  by (auto simp: policy_def Let_def split: option.splits if_splits)

lemma fold_upd_other:
  "k \<notin> fst ` set ws \<Longrightarrow>
   fmlookup (fold (\<lambda>(key, ttl). fmupd key (mk_entry (RStr v) (Some ttl))) ws m) k = fmlookup m k"
  by (induction ws arbitrary: m) auto

lemma write_rules_receipt:
  assumes "policy p d cfg = (actions, writes)"
  shows "fmlookup (write_rules cfg d actions writes m) (receipt_key d) =
    Some (mk_entry (RStr (json_dumps_strs actions)) (Some (containment_receipt_ttl_seconds cfg)))"
  unfolding write_rules_def using policy_keys [OF assms] by (simp add: fold_upd_other)

subsection \<open>Reads between others' writes\<close>

fun is_read :: "cmd \<Rightarrow> bool" where
  "is_read (GET _) = True"
| "is_read (EXISTS _) = True"
| "is_read (WATCH _) = True"
| "is_read UNWATCH = True"
| "is_read _ = False"

lemma read_keeps: "is_read c \<Longrightarrow> ks (snd (redis_step c s)) = ks s"
  by (cases c) (simp_all add: redis_step.simps kv_simps split: option.splits rval.splits)

lemma read_not_scan: "is_read c \<Longrightarrow> \<not> is_scan c"
  by (cases c) simp_all

lemma get_same:
  "redis_step (GET k) s = (Inr x, s') \<Longrightarrow> s' = s \<and> kv_step (GET k) (ks s) = (Inr x, ks s)"
  by (auto simp: redis_step.simps kv_simps split: option.splits rval.splits)

lemma exists_same:
  "redis_step (EXISTS k) s = (Inr x, s') \<Longrightarrow> s' = s \<and> x = RInt (if live (ks s) k then 1 else 0)"
  by (auto simp: redis_step.simps kv_simps)

context redis_shared
begin

definition oth :: "keyspace \<Rightarrow> keyspace \<Rightarrow> bool" where
  "oth m m' \<longleftrightarrow> (\<exists>W. others W m m')"

lemma oth_refl [simp]: "oth m m"
  using others_none by (auto simp: oth_def)

lemma oth_trans: "oth m m' \<Longrightarrow> oth m' m'' \<Longrightarrow> oth m m''"
  unfolding oth_def using others_then by blast

text \<open>
  From \<open>s\<close> to \<open>t\<close> others may have written; unless the connection got marked, the keys it watches
  are as they were.
\<close>

definition kept :: "conn \<Rightarrow> conn \<Rightarrow> bool" where
  "kept s t \<longleftrightarrow> oth (ks s) (ks t) \<and> set (watched s) \<subseteq> set (watched t) \<and>
     (\<not> touched t \<longrightarrow> \<not> touched s \<and> (\<forall>k\<in>set (watched s). unchanged (ks s) (ks t) k))"

lemma kept_disturb: "others W (ks s) m \<Longrightarrow> kept s (disturb W m s)"
  unfolding kept_def disturb_sel oth_def using others_frame by blast

lemma kept_trans: "kept s t \<Longrightarrow> kept t u \<Longrightarrow> kept s u"
  unfolding kept_def using oth_trans unchanged_trans by (meson subset_iff)

lemma answer:
  assumes "\<not> is_scan c" and "rc c s = (Inr x, s')"
  obtains W m where "others W (ks (obs s)) m" and "redis_step c (disturb W m (obs s)) = (Inr x, obs s')"
  using shared [OF assms(2)] redis_replies_det [OF assms(1)] by auto

lemma failure:
  assumes "\<not> is_scan c" and "rc c s = (Inl e, s')"
  obtains W m where "others W (ks (obs s)) m"
    and "redis_step c (disturb W m (obs s)) = (Inl e, obs s') \<or>
      outage e \<and> (ks (obs s') = m \<or> ks (obs s') = ks (snd (redis_step c (disturb W m (obs s)))))"
  using shared [OF assms(2)] redis_replies_det [OF assms(1)] by (metis sum.inject(1) snd_conv)

lemma read_oth:
  assumes "is_read c"
  shows "oth (ks (obs s)) (ks (obs (snd (rc c s))))"
proof -
  obtain r s' where run: "rc c s = (r, s')" by (cases "rc c s")
  note ns = read_not_scan [OF assms]
  show ?thesis
  proof (cases r)
    case (Inl e)
    then obtain W m where o: "others W (ks (obs s)) m"
      and *: "redis_step c (disturb W m (obs s)) = (Inl e, obs s') \<or>
        outage e \<and> (ks (obs s') = m \<or> ks (obs s') = ks (snd (redis_step c (disturb W m (obs s)))))"
      using failure [OF ns] run by blast
    then have "ks (obs s') = m" using read_keeps [OF assms, of "disturb W m (obs s)"] by auto
    with o run show ?thesis by (auto simp: oth_def)
  next
    case (Inr x)
    then obtain W m where o: "others W (ks (obs s)) m"
      and "redis_step c (disturb W m (obs s)) = (Inr x, obs s')"
      using answer [OF ns] run by blast
    then have "ks (obs s') = m" using read_keeps [OF assms, of "disturb W m (obs s)"] by auto
    with o run show ?thesis by (auto simp: oth_def)
  qed
qed

lemma watch_ok:
  assumes "rc (WATCH keys) s = (Inr x, s')"
  shows "oth (ks (obs s)) (ks (obs s')) \<and> set keys \<subseteq> set (watched (obs s'))"
proof -
  obtain W m where o: "others W (ks (obs s)) m"
    and st: "redis_step (WATCH keys) (disturb W m (obs s)) = (Inr x, obs s')"
    using answer [OF _ assms] by auto
  from st have "obs s' = (disturb W m (obs s))\<lparr>watched := watched (obs s) @ keys\<rparr>"
    by (simp add: redis_step.simps)
  with o show ?thesis by (auto simp: oth_def)
qed

lemma get_ok:
  assumes "rc (GET k) s = (Inr x, s')"
  shows "kept (obs s) (obs s') \<and> kv_step (GET k) (ks (obs s')) = (Inr x, ks (obs s'))"
proof -
  from answer [OF _ assms] obtain W m where o: "others W (ks (obs s)) m"
    and st: "redis_step (GET k) (disturb W m (obs s)) = (Inr x, obs s')" by auto
  from get_same [OF st] kept_disturb [OF o] show ?thesis by simp
qed

lemma exists_ok:
  assumes "rc (EXISTS k) s = (Inr x, s')"
  shows "kept (obs s) (obs s') \<and> x = RInt (if live (ks (obs s')) k then 1 else 0)"
proof -
  from answer [OF _ assms] obtain W m where o: "others W (ks (obs s)) m"
    and st: "redis_step (EXISTS k) (disturb W m (obs s)) = (Inr x, obs s')" by auto
  from exists_same [OF st] kept_disturb [OF o] show ?thesis by simp
qed

lemma kept_refl [simp]: "kept s s"
  by (simp add: kept_def)

lemma plan_ok:
  assumes "plan rc d cfg s = (Inr (actions, writes), s')"
  shows "kept (obs s) (obs s') \<and> policy (live (ks (obs s')) (guard_key d)) d cfg = (actions, writes)"
proof (cases "detection_type d = ''geo_velocity_anomaly''")
  case True
  then obtain x where run: "rc (EXISTS (guard_key d)) s = (Inr x, s')"
    using assms by (auto simp: plan_def Let_def HARD_QUARANTINE_TYPES_def guard_key_def bindE_Inr_iff ret_def split: if_splits)
  from exists_ok [OF run] run True assms show ?thesis
    by (auto simp: plan_def policy_def Let_def HARD_QUARANTINE_TYPES_def guard_key_def bindE_def ret_def split: if_splits)
next
  case False
  with assms show ?thesis
    by (auto simp: plan_def policy_def Let_def HARD_QUARANTINE_TYPES_def ret_def dict_get_default_def
        split: if_splits option.splits)
qed

lemma plan_oth: "oth (ks (obs s)) (ks (obs (snd (plan rc d cfg s))))"
proof (cases "detection_type d = ''geo_velocity_anomaly''")
  case True
  then have "snd (plan rc d cfg s) = snd (rc (EXISTS (guard_key d)) s)"
    by (simp add: plan_def Let_def HARD_QUARANTINE_TYPES_def guard_key_def bindE_def ret_def
        split: prod.splits sum.splits)
  with read_oth [of "EXISTS (guard_key d)" s] show ?thesis by simp
next
  case False
  then have "snd (plan rc d cfg s) = s" by (simp add: plan_def Let_def ret_def split: option.splits)
  then show ?thesis by simp
qed

lemma resetting_oth:
  assumes "resetting rc m s = (r, s')" and "oth (ks (obs s)) (ks (obs (snd (m s))))"
  shows "oth (ks (obs s)) (ks (obs s'))" and "r = Inr x \<Longrightarrow> m s = (Inr x, s')"
proof -
  have reset: "oth (ks (obs t)) (ks (obs (snd (rc UNWATCH t))))" for t by (rule read_oth) simp
  show "oth (ks (obs s)) (ks (obs s'))"
    using assms oth_trans [OF _ reset]
    by (auto simp: resetting_def reset_pipe_def split: prod.splits sum.splits)
  show "r = Inr x \<Longrightarrow> m s = (Inr x, s')"
    using assms(1) by (auto simp: resetting_def split: prod.splits sum.splits)
qed

text \<open>The transaction at the moment \<open>m\<close> the server runs it.\<close>

lemma exec_cases:
  assumes ok: "config_ok cfg" and pol: "policy p d cfg = (actions, writes)"
    and run: "exec_writes rc cfg d actions writes s = (r, s')"
  obtains W m where "others W (ks (obs s)) m"
    and "r = Inr (Some actions) \<and> \<not> touched (disturb W m (obs s)) \<and> ks (obs s') = write_rules cfg d actions writes m \<or>
      r = Inr None \<and> ks (obs s') = m \<or>
      (\<exists>e. r = Inl e) \<and> (ks (obs s') = m \<or> \<not> touched (disturb W m (obs s)) \<and> ks (obs s') = write_rules cfg d actions writes m)"
proof -
  let ?E = "containment_tx cfg d actions writes"
  have ns: "\<not> is_scan ?E" by (simp add: containment_tx_def)
  obtain q where q: "rc ?E s = (q, s')"
    and r: "r = (case q of Inl WatchError \<Rightarrow> Inr None | Inl e \<Rightarrow> Inl e | Inr _ \<Rightarrow> Inr (Some actions))"
    using run by (auto simp: exec_writes_def split: prod.splits sum.splits exn.splits)
  show thesis
  proof (cases q)
    case (Inr x)
    obtain W m where o: "others W (ks (obs s)) m" and st: "redis_step ?E (disturb W m (obs s)) = (Inr x, obs s')"
      using answer [OF ns q [unfolded Inr]] by blast
    have "\<not> touched (disturb W m (obs s))"
      using st tx_conflict [of "disturb W m (obs s)" cfg d actions writes] by (auto simp del: disturb_sel)
    with tx_commits [OF ok pol, of "disturb W m (obs s)"] st
    have "\<not> touched (disturb W m (obs s)) \<and> ks (obs s') = write_rules cfg d actions writes m" by simp
    with that [OF o] r Inr show thesis by simp
  next
    case (Inl e)
    obtain W m where o: "others W (ks (obs s)) m" and st: "redis_step ?E (disturb W m (obs s)) = (Inl e, obs s') \<or>
      outage e \<and> (ks (obs s') = m \<or> ks (obs s') = ks (snd (redis_step ?E (disturb W m (obs s)))))"
      using failure [OF ns q [unfolded Inl]] by blast
    let ?t = "disturb W m (obs s)"
    from st have sk: "ks (obs s') = m \<or> ks (obs s') = ks (snd (redis_step ?E ?t))" by auto
    have r': "r = Inr None \<or> (\<exists>e. r = Inl e)" "e \<noteq> WatchError \<Longrightarrow> \<exists>e. r = Inl e"
      using r Inl by (simp_all split: exn.splits)
    have "r = Inr None \<and> ks (obs s') = m \<or>
      (\<exists>e. r = Inl e) \<and> (ks (obs s') = m \<or> \<not> touched ?t \<and> ks (obs s') = write_rules cfg d actions writes m)"
    proof (cases "touched ?t")
      case True
      with sk tx_conflict [OF True] have "ks (obs s') = m" by auto
      with r'(1) show ?thesis by blast
    next
      case False
      with st tx_commits [OF ok pol False] have "e \<noteq> WatchError" by auto
      with False sk tx_commits [OF ok pol False] r'(2) show ?thesis by auto
    qed
    with that [OF o] show thesis by blast
  qed
qed

end

text \<open>
  What a call may have done at the moment it took effect: it returned what \<open>contain\<close> returns and had
  its effect, or it failed, with \<open>contain\<close>'s effect or none.
\<close>

definition contained ::
  "RedisConfig \<Rightarrow> DetectionEvent \<Rightarrow> exn + string list option \<Rightarrow> keyspace \<Rightarrow> keyspace \<Rightarrow> bool" where
  "contained cfg d r m m' \<longleftrightarrow>
     (case r of
        Inr (Some actions) \<Rightarrow> contain cfg d m = (Inr actions, m')
      | Inr None \<Rightarrow> m' = m
      | Inl _ \<Rightarrow> m' = m \<or> m' = snd (contain cfg d m))"

context redis_shared
begin

definition atomically :: "RedisConfig \<Rightarrow> DetectionEvent \<Rightarrow> exn + string list option \<Rightarrow> keyspace \<Rightarrow> keyspace \<Rightarrow> bool" where
  "atomically cfg d r m0 m1 \<longleftrightarrow> (\<exists>m m'. oth m0 m \<and> contained cfg d r m m' \<and> oth m' m1)"

lemma atomicallyI: "oth m0 m \<Longrightarrow> contained cfg d r m m' \<Longrightarrow> oth m' m1 \<Longrightarrow> atomically cfg d r m0 m1"
  by (auto simp: atomically_def)

lemma atomically_nothing: "oth m0 m1 \<Longrightarrow> (\<And>a. r \<noteq> Inr (Some a)) \<Longrightarrow> atomically cfg d r m0 m1"
  by (rule atomicallyI [of _ m1 _ _ _ m1]) (auto simp: contained_def split: sum.splits option.splits)

text \<open>
  What the turn read is still so when the transaction commits: the receipt is absent and the guard
  is as it was when the plan read it.
\<close>

lemma commit_contains:
  assumes none: "fmlookup (ks (obs s)) (receipt_key d) = None"
    and watching: "{receipt_key d, guard_key d} \<subseteq> set (watched (obs s))"
    and kept: "kept (obs s) (obs t)" and o: "others W (ks (obs t)) m"
    and pol: "policy (live (ks (obs t)) (guard_key d)) d cfg = (actions, writes)" "actions \<noteq> []"
    and free: "\<not> touched (disturb W m (obs t))"
  shows "contain cfg d m = (Inr actions, write_rules cfg d actions writes m)"
proof -
  note kt = kept_disturb [OF o]
  have "unchanged (ks (obs s)) m (receipt_key d)"
    using kept_trans [OF kept kt] free watching by (simp add: kept_def)
  then have "fmlookup m (receipt_key d) = None" using none by (simp add: unchanged_def)
  moreover have "unchanged (ks (obs t)) m (guard_key d)"
    using kt kept free watching by (auto simp: kept_def)
  then have "live (ks (obs t)) (guard_key d) = live m (guard_key d)" by (rule unchanged_live)
  ultimately show ?thesis using pol by (simp add: contain_def)
qed

text \<open>The turn after a GET that found no receipt.\<close>

lemma fresh_atomic:
  assumes ok: "config_ok cfg"
    and none: "fmlookup (ks (obs s)) (receipt_key d) = None"
    and watching: "{receipt_key d, guard_key d} \<subseteq> set (watched (obs s))"
    and run: "bindE (resetting rc (plan rc d cfg)) (\<lambda>(actions, writes).
        if actions = [] then bindE (resetting rc (rc UNWATCH)) (\<lambda>_. ret (Some []))
        else exec_writes rc cfg d actions writes) s = (r, s')"
  shows "atomically cfg d r (ks (obs s)) (ks (obs s'))"
proof -
  obtain q t where pl: "resetting rc (plan rc d cfg) s = (q, t)" by (cases "resetting rc (plan rc d cfg) s")
  note po = resetting_oth [OF pl plan_oth]
  show ?thesis
  proof (cases q)
    case (Inl e)
    with run pl have "r = Inl e" "s' = t" by (simp_all add: bindE_def)
    with po(1) show ?thesis by (simp add: atomically_nothing)
  next
    case (Inr aw)
    obtain actions writes where aw: "aw = (actions, writes)" by (cases aw)
    with po(2) [OF Inr] have kept: "kept (obs s) (obs t)"
      and pol: "policy (live (ks (obs t)) (guard_key d)) d cfg = (actions, writes)"
      using plan_ok by blast+
    show ?thesis
    proof (cases "actions = []")
      case True
      obtain q' where un: "resetting rc (rc UNWATCH) t = (q', s')" and r: "r = map_sum id (\<lambda>_. Some []) q'"
        using run pl Inr aw True by (auto simp: bindE_def ret_def split: prod.splits sum.splits)
      have "policy p d cfg = ([], [])" for p
        using pol True by (auto simp: policy_def Let_def split: option.splits if_splits)
      then have "contained cfg d r (ks (obs s)) (ks (obs s))"
        using none r by (cases q') (simp_all add: contained_def contain_def)
      moreover have "oth (ks (obs s)) (ks (obs s'))"
        using oth_trans [OF po(1) resetting_oth(1) [OF un read_oth]] by simp
      ultimately show ?thesis using oth_refl atomicallyI by blast
    next
      case False
      with run pl Inr aw have "exec_writes rc cfg d actions writes t = (r, s')" by (simp add: bindE_def)
      from exec_cases [OF ok pol this] obtain W m where o: "others W (ks (obs t)) m"
        and res: "r = Inr (Some actions) \<and> \<not> touched (disturb W m (obs t)) \<and> ks (obs s') = write_rules cfg d actions writes m \<or>
          r = Inr None \<and> ks (obs s') = m \<or>
          (\<exists>e. r = Inl e) \<and> (ks (obs s') = m \<or> \<not> touched (disturb W m (obs t)) \<and> ks (obs s') = write_rules cfg d actions writes m)"
        by blast
      have om: "oth (ks (obs s)) m" using oth_trans [OF po(1)] o by (auto simp: oth_def)
      have commit: "\<not> touched (disturb W m (obs t)) \<Longrightarrow> contain cfg d m = (Inr actions, write_rules cfg d actions writes m)"
        using commit_contains [OF none watching kept o] pol False by simp
      show ?thesis
      proof (cases "ks (obs s') = m \<and> (\<forall>a. r \<noteq> Inr (Some a))")
        case True
        with om show ?thesis by (simp add: atomically_nothing)
      next
        case False
        with res commit have "contained cfg d r m (ks (obs s'))" by (auto simp: contained_def)
        then show ?thesis using om oth_refl atomicallyI by blast
      qed
    qed
  qed
qed

lemma atomically_before: "oth m m0 \<Longrightarrow> atomically cfg d r m0 m1 \<Longrightarrow> atomically cfg d r m m1"
  unfolding atomically_def using oth_trans by blast

lemma turn_atomic:
  assumes ok: "config_ok cfg" and run: "containment_turn rc cfg d s = (r, s')"
  shows "atomically cfg d r (ks (obs s)) (ks (obs s'))"
proof -
  obtain q1 s1 where w: "rc (WATCH [receipt_key d, guard_key d]) s = (q1, s1)" by (cases "rc (WATCH [receipt_key d, guard_key d]) s")
  have o1: "oth (ks (obs s)) (ks (obs s1))" using read_oth [of "WATCH [receipt_key d, guard_key d]" s] w by simp
  show ?thesis
  proof (cases q1)
    case (Inl e)
    with run w have "s' = s1" "r = Inl e" by (simp_all add: containment_turn_def bindE_def)
    with o1 show ?thesis by (simp add: atomically_nothing)
  next
    case q1: (Inr x1)
    with w have watching: "{receipt_key d, guard_key d} \<subseteq> set (watched (obs s1))" using watch_ok by fastforce
    obtain q2 s2 where g: "resetting rc (rc (GET (receipt_key d))) s1 = (q2, s2)"
      by (cases "resetting rc (rc (GET (receipt_key d))) s1")
    have o2: "oth (ks (obs s)) (ks (obs s2))"
      using oth_trans [OF o1 resetting_oth(1) [OF g read_oth]] by simp
    show ?thesis
    proof (cases q2)
      case (Inl e)
      with run w q1 g have "s' = s2" "r = Inl e" by (simp_all add: containment_turn_def bindE_def)
      with o2 show ?thesis by (simp add: atomically_nothing)
    next
      case q2: (Inr x2)
      then have "rc (GET (receipt_key d)) s1 = (Inr x2, s2)"
        using resetting_oth(2) [OF g read_oth] by simp
      then have kept12: "kept (obs s1) (obs s2)" and
        look: "kv_step (GET (receipt_key d)) (ks (obs s2)) = (Inr x2, ks (obs s2))"
        using get_ok by blast+
      show ?thesis
      proof (cases "fmlookup (ks (obs s2)) (receipt_key d)")
        case (Some e)
        then obtain v where v: "x2 = RBulk v" "e_val e = RStr v"
          using look by (auto simp: kv_simps split: rval.splits)
        with run w q1 g q2 have r: "r = map_sum id Some (load_actions v)" and s': "s' = snd (rc UNWATCH s2)"
          by (simp_all add: containment_turn_def bindE_def reset_pipe_def)
        have "oth (ks (obs s2)) (ks (obs s'))" using read_oth [of UNWATCH s2] s' by simp
        moreover have "contained cfg d r (ks (obs s2)) (ks (obs s2))"
          using Some v r by (cases "load_actions v") (simp_all add: contained_def contain_def)
        ultimately show ?thesis using o2 atomicallyI by blast
      next
        case None
        then have x2: "x2 = RNil" using look by (simp add: kv_simps)
        with run w q1 g q2 have rest: "bindE (resetting rc (plan rc d cfg)) (\<lambda>(actions, writes).
            if actions = [] then bindE (resetting rc (rc UNWATCH)) (\<lambda>_. ret (Some []))
            else exec_writes rc cfg d actions writes) s2 = (r, s')"
          by (simp add: containment_turn_def bindE_def)
        have "{receipt_key d, guard_key d} \<subseteq> set (watched (obs s2))"
          using watching kept12 by (auto simp: kept_def)
        from fresh_atomic [OF ok None this rest] show ?thesis by (rule atomically_before [OF o2])
      qed
    qed
  qed
qed

lemma apply_atomic:
  assumes "config_ok cfg"
  shows "apply_containment rc cfg n d s = (r, s') \<Longrightarrow> atomically cfg d r (ks (obs s)) (ks (obs s'))"
proof (induction n arbitrary: s)
  case 0
  then show ?case by (auto simp: ret_def intro: atomically_nothing)
next
  case (Suc n)
  obtain q t where turn: "containment_turn rc cfg d s = (q, t)" by (cases "containment_turn rc cfg d s")
  note at = turn_atomic [OF assms turn]
  show ?case
  proof (cases "q = Inr None")
    case True
    with at have "oth (ks (obs s)) (ks (obs t))" using oth_trans by (auto simp: atomically_def contained_def)
    moreover have "apply_containment rc cfg n d t = (r, s')"
      using Suc.prems turn True by (simp add: bindE_def)
    ultimately show ?thesis using Suc.IH atomically_before by blast
  next
    case False
    with Suc.prems turn have "r = q" "s' = t"
      by (auto simp: bindE_def ret_def split: sum.splits option.splits)
    with at show ?thesis by simp
  qed
qed

end

subsection \<open>Atomicity\<close>


subsection \<open>Redelivery\<close>

lemma contain_receipt:
  "map_option e_val (fmlookup m (receipt_key d)) = Some (RStr v) \<Longrightarrow> contain cfg d m = (load_actions v, m)"
  by (auto simp: contain_def)

lemma contain_again:
  assumes "contain cfg d m = (Inr a, m1)" and "unchanged m1 m2 (receipt_key d)"
  shows "contain cfg d m2 = (Inr a, m2)"
proof (cases "fmlookup m (receipt_key d)")
  case (Some e)
  then obtain v where v: "e_val e = RStr v" "load_actions v = Inr a" "m1 = m"
    using assms(1) by (auto simp: contain_def split: rval.splits)
  with assms(2) Some have "map_option e_val (fmlookup m2 (receipt_key d)) = Some (RStr v)"
    by (simp add: unchanged_def)
  from contain_receipt [OF this] v show ?thesis by simp
next
  case None
  obtain acts writes where pol: "policy (live m (guard_key d)) d cfg = (acts, writes)"
    by (cases "policy (live m (guard_key d)) d cfg")
  with None have "contain cfg d m = (Inr acts, if acts = [] then m else write_rules cfg d acts writes m)"
    by (simp add: contain_def)
  with assms(1) have a: "a = acts" and m1: "m1 = (if acts = [] then m else write_rules cfg d acts writes m)"
    by (auto split: if_splits)
  show ?thesis
  proof (cases "acts = []")
    case True
    with pol have "policy p d cfg = ([], [])" for p
      by (auto simp: policy_def Let_def split: option.splits if_splits)
    with True a m1 assms(2) None show ?thesis by (simp add: contain_def unchanged_def)
  next
    case False
    with m1 assms(2) have "map_option e_val (fmlookup m2 (receipt_key d)) = Some (RStr (json_dumps_strs acts))"
      by (simp add: unchanged_def write_rules_receipt [OF pol])
    from contain_receipt [OF this] a show ?thesis
      using load_dumped [of "live m (guard_key d)" d cfg, unfolded pol fst_conv] by simp
  qed
qed

lemma contain_error: "contain cfg d m = (Inl e, m') \<Longrightarrow> m' = m"
  by (auto simp: contain_def split: option.splits rval.splits prod.splits)

lemma contained_cases:
  assumes "contained cfg d r m m'"
  obtains a where "contain cfg d m = (Inr a, m')" and "\<forall>b. r = Inr (Some b) \<longrightarrow> b = a"
  | "m' = m" and "\<forall>b. r \<noteq> Inr (Some b)"
proof (cases "fst (contain cfg d m)")
  case (Inl e)
  then have "contain cfg d m = (Inl e, m)" using contain_error by (metis prod.collapse)
  with assms that(2) show thesis by (auto simp: contained_def split: sum.splits option.splits)
next
  case (Inr a)
  then have "contain cfg d m = (Inr a, snd (contain cfg d m))" by (metis prod.collapse)
  with assms that show thesis by (cases r) (auto simp: contained_def split: option.splits)
qed

text \<open>
  A detection delivered again and again, as the consumer loop does after a failure and Kafka after
  a crash: the results of the calls, in order.
\<close>

fun deliveries ::
  "'r redis \<Rightarrow> RedisConfig \<Rightarrow> nat \<Rightarrow> DetectionEvent \<Rightarrow> nat \<Rightarrow> 'r \<Rightarrow> (exn + string list option) list \<times> 'r" where
  "deliveries rc cfg fuel d 0 s = ([], s)"
| "deliveries rc cfg fuel d (Suc k) s =
     (case deliveries rc cfg fuel d k s of (rs, t) \<Rightarrow>
        case apply_containment rc cfg fuel d t of (r, u) \<Rightarrow> (rs @ [r], u))"

context redis_shared
begin

definition at_most_once ::
  "RedisConfig \<Rightarrow> DetectionEvent \<Rightarrow> (exn + string list option) list \<Rightarrow> keyspace \<Rightarrow> keyspace \<Rightarrow> bool" where
  "at_most_once cfg d rs m0 m1 \<longleftrightarrow>
     oth m0 m1 \<and> (\<forall>a. Inr (Some a) \<notin> set rs) \<or>
     (\<exists>m a m'. oth m0 m \<and> contain cfg d m = (Inr a, m') \<and> oth m' m1 \<and> (\<forall>b. Inr (Some b) \<in> set rs \<longrightarrow> b = a))"

lemma at_most_once_step:
  assumes lasting: "\<forall>W m m'. others W m m' \<longrightarrow> unchanged m m' (receipt_key d)"
    and before: "at_most_once cfg d rs m0 m1" and step: "atomically cfg d r m1 m2"
  shows "at_most_once cfg d (rs @ [r]) m0 m2"
proof -
  obtain m m' where o: "oth m1 m" "oth m' m2" and c: "contained cfg d r m m'"
    using step by (auto simp: atomically_def)
  from before consider (no) "oth m0 m1" "\<forall>a. Inr (Some a) \<notin> set rs"
    | (once) k a k' where "oth m0 k" "contain cfg d k = (Inr a, k')" "oth k' m1" "\<forall>b. Inr (Some b) \<in> set rs \<longrightarrow> b = a"
    unfolding at_most_once_def by blast
  then show ?thesis
  proof cases
    case no
    note o1 = oth_trans [OF no(1) o(1)]
    show ?thesis
    proof (cases rule: contained_cases [OF c])
      case (1 a)
      with no(2) have "\<forall>b. Inr (Some b) \<in> set (rs @ [r]) \<longrightarrow> b = a" by auto
      with 1(1) o1 o(2) show ?thesis unfolding at_most_once_def by blast
    next
      case 2
      with no(2) oth_trans [OF o1] o(2) show ?thesis unfolding at_most_once_def by auto
    qed
  next
    case once
    have "oth k' m" using oth_trans once(3) o(1) by blast
    then have "unchanged k' m (receipt_key d)" using lasting by (auto simp: oth_def)
    from contain_again [OF once(2) this] have again: "contain cfg d m = (Inr a, m)" .
    then have "m' = m" "\<forall>b. r = Inr (Some b) \<longrightarrow> b = a"
      by (cases rule: contained_cases [OF c]; simp)+
    moreover from this once(4) have "\<forall>b. Inr (Some b) \<in> set (rs @ [r]) \<longrightarrow> b = a" by auto
    moreover have "oth k' m2" using \<open>oth k' m\<close> \<open>m' = m\<close> o(2) oth_trans by blast
    ultimately show ?thesis using once(1,2) unfolding at_most_once_def by blast
  qed
qed

lemma deliveries_at_most_once:
  assumes "config_ok cfg" and "\<forall>W m m'. others W m m' \<longrightarrow> unchanged m m' (receipt_key d)"
  shows "deliveries rc cfg fuel d k s = (rs, s') \<Longrightarrow> at_most_once cfg d rs (ks (obs s)) (ks (obs s'))"
proof (induction k arbitrary: rs s')
  case 0
  then show ?case by (auto simp: at_most_once_def)
next
  case (Suc k)
  obtain rs1 t where first: "deliveries rc cfg fuel d k s = (rs1, t)" by (cases "deliveries rc cfg fuel d k s")
  obtain r u where last: "apply_containment rc cfg fuel d t = (r, u)" by (cases "apply_containment rc cfg fuel d t")
  from at_most_once_step [OF assms(2) Suc.IH [OF first] apply_atomic [OF assms(1) last]] Suc.prems first last
  show ?case by simp
qed

end

text \<open>
  (C1) A detection is contained at most once, however often it is delivered: while its receipt is
  kept, any number of calls, with failures of the connection before or after any command, WATCH
  conflicts and other clients' writes in between, have together either no effect at all, and then no
  call returned actions, or the effect of one single atomic \<open>contain\<close> step, and then every call that
  returned, returned the actions of that step.
\<close>

theorem containment_exactly_once:
  assumes "redis_shared rc obs others" and "config_ok cfg"
    and "\<forall>W m m'. others W m m' \<longrightarrow> unchanged m m' (receipt_key d)"
    and "deliveries rc cfg fuel d k s = (rs, s')"
  shows "(\<exists>W. others W (ks (obs s)) (ks (obs s'))) \<and> (\<forall>a. Inr (Some a) \<notin> set rs) \<or>
    (\<exists>V m a m' W. others V (ks (obs s)) m \<and> contain cfg d m = (Inr a, m') \<and> others W m' (ks (obs s')) \<and>
       (\<forall>b. Inr (Some b) \<in> set rs \<longrightarrow> b = a))"
  using redis_shared.deliveries_at_most_once [OF assms]
  unfolding redis_shared.at_most_once_def [OF assms(1)] redis_shared.oth_def [OF assms(1)] by blast

end
