(* ===== verification/ContainmentRuns.thy ===== *)
theory ContainmentRuns
  imports ContainmentProps
begin

text \<open>
  Containment on concrete servers: undisturbed runs, which rules each detection sets, and the end of
  the retry loop on a server with finitely many disturbances.
\<close>

subsection \<open>Clients that simulate each other\<close>

lemma sim_resetting:
  assumes "sim h (rc UNWATCH) (rc' UNWATCH)" and "sim h m m'"
  shows "sim h (resetting rc m) (resetting rc' m')"
proof (rule simI)
  fix s
  obtain r t where mt: "m s = (r, t)" by (cases "m s")
  obtain r' t' where mt': "m' (h s) = (r', t')" by (cases "m' (h s)")
  have "r' = r" "t' = h t" using simD [OF assms(2), of s] mt mt' by simp_all
  then show "fst (resetting rc m s) = fst (resetting rc' m' (h s))"
    "h (snd (resetting rc m s)) = snd (resetting rc' m' (h s))"
    using simD(2) [OF assms(1), of t] mt mt' by (auto simp: resetting_def reset_pipe_def split: sum.splits)
qed

lemma sim_reset_pipe: "sim h (rc UNWATCH) (rc' UNWATCH) \<Longrightarrow> sim h (reset_pipe rc) (reset_pipe rc')"
  by (simp add: sim_def reset_pipe_def)

lemma sim_exec_writes:
  assumes "sim h (rc (containment_tx cfg d actions writes)) (rc' (containment_tx cfg d actions writes))"
  shows "sim h (exec_writes rc cfg d actions writes) (exec_writes rc' cfg d actions writes)"
proof (rule simI)
  fix s
  note sd = simD [OF assms, of s]
  show "fst (exec_writes rc cfg d actions writes s) = fst (exec_writes rc' cfg d actions writes (h s))"
    "h (snd (exec_writes rc cfg d actions writes s)) = snd (exec_writes rc' cfg d actions writes (h s))"
    using sd by (auto simp: exec_writes_def split: prod.splits sum.splits exn.splits)
qed

lemma sim_case_reply:
  "(\<And>v. sim h (f v) (f' v)) \<Longrightarrow> sim h g g' \<Longrightarrow>
   sim h (case x of RBulk v \<Rightarrow> f v | _ \<Rightarrow> g) (case x of RBulk v \<Rightarrow> f' v | _ \<Rightarrow> g')"
  by (cases x) simp_all

lemma sim_plan:
  assumes "\<And>k. sim h (rc (EXISTS k)) (rc' (EXISTS k))"
  shows "sim h (plan rc d cfg) (plan rc' d cfg)"
  unfolding plan_def Let_def by (intro sim_intros assms)

lemma sim_containment_turn:
  assumes "\<And>c. \<not> is_scan c \<Longrightarrow> sim h (rc c) (rc' c)"
  shows "sim h (containment_turn rc cfg d) (containment_turn rc' cfg d)"
  unfolding containment_turn_def
  by (intro sim_bindE sim_case_reply sim_reset_pipe sim_resetting sim_case_prod sim_if sim_plan
      sim_exec_writes assms sim_ret)
    (simp_all add: sim_def containment_tx_def)

lemma sim_apply_containment:
  assumes "\<And>c. \<not> is_scan c \<Longrightarrow> sim h (rc c) (rc' c)"
  shows "sim h (apply_containment rc cfg n d) (apply_containment rc' cfg n d)"
proof (induction n)
  case (Suc n)
  then show ?case
    unfolding apply_containment.simps
    by (intro sim_bindE sim_containment_turn assms sim_case_option sim_ret)
qed (simp add: sim_ret)

subsection \<open>Undisturbed runs\<close>

lemma mem_reads:
  "redis_step (WATCH keys) s = (Inr ROk, s\<lparr>watched := watched s @ keys\<rparr>)"
  "redis_step UNWATCH s = (Inr ROk, s\<lparr>watched := [], touched := False\<rparr>)"
  "redis_step (EXISTS k) s = (Inr (RInt (if live (ks s) k then 1 else 0)), s)"
  by (simp_all add: redis_step.simps kv_simps)

lemma mem_get:
  "redis_step (GET k) s =
     (case fmlookup (ks s) k of
        None \<Rightarrow> (Inr RNil, s)
      | Some e \<Rightarrow> (case e_val e of RStr v \<Rightarrow> (Inr (RBulk v), s) | _ \<Rightarrow> (Inl wrongtype, s)))"
  by (auto simp: redis_step.simps kv_simps split: option.splits rval.splits)

lemma mem_plan: "plan redis_step d cfg s = (Inr (policy (live (ks s) (guard_key d)) d cfg), s)"
  using plan_policy [of redis_step d s "live (ks s) (guard_key d)" s cfg] mem_reads(3) [of "guard_key d" s] by auto

lemma turn_mem:
  assumes "config_ok cfg" and "\<not> touched s"
  shows "\<exists>s'. containment_turn redis_step cfg d s = (map_sum id Some (fst (contain cfg d (ks s))), s') \<and>
    ks s' = snd (contain cfg d (ks s)) \<and> \<not> touched s' \<and> watched s' = []"
proof -
  let ?s1 = "s\<lparr>watched := watched s @ [receipt_key d, guard_key d]\<rparr>"
  obtain actions writes where pol: "policy (live (ks s) (guard_key d)) d cfg = (actions, writes)"
    by (cases "policy (live (ks s) (guard_key d)) d cfg")
  have turn: "containment_turn redis_step cfg d s =
      bindE (resetting redis_step (redis_step (GET (receipt_key d)))) (\<lambda>prior.
        case prior of
          RBulk v \<Rightarrow> bindE (reset_pipe redis_step) (\<lambda>_. (\<lambda>s. (map_sum id Some (load_actions v), s)))
        | _ \<Rightarrow> bindE (resetting redis_step (plan redis_step d cfg)) (\<lambda>(actions, writes).
               if actions = [] then bindE (resetting redis_step (redis_step UNWATCH)) (\<lambda>_. ret (Some []))
               else exec_writes redis_step cfg d actions writes)) ?s1"
    unfolding containment_turn_def by (simp add: bindE_def mem_reads)
  show ?thesis
  proof (cases "fmlookup (ks s) (receipt_key d)")
    case (Some e)
    then show ?thesis
      by (cases "e_val e")
        (simp_all add: turn contain_def bindE_def resetting_def reset_pipe_def mem_get mem_reads)
  next
    case None
    show ?thesis
    proof (cases "actions = []")
      case True
      with None pol show ?thesis
        by (simp add: turn contain_def bindE_def resetting_def reset_pipe_def mem_get mem_reads mem_plan ret_def)
    next
      case False
      obtain x where "redis_step (containment_tx cfg d actions writes) ?s1 =
          (Inr x, s\<lparr>ks := write_rules cfg d actions writes (ks s), watched := [], touched := False\<rparr>)"
        using exec_write_rules [OF assms(1) pol, of "ks s"] assms(2)
        by (auto simp: containment_tx_def redis_step.simps)
      with False None pol show ?thesis
        by (simp add: turn contain_def bindE_def resetting_def mem_get mem_plan exec_writes_def)
    qed
  qed
qed

context redis_up
begin

lemma apply_containment_run:
  assumes "config_ok cfg" and "\<not> touched (obs s)" and "contain cfg d (ks (obs s)) = (Inr actions, m')"
  shows "\<exists>s'. apply_containment rc cfg (Suc n) d s = (Inr (Some actions), s') \<and>
    ks (obs s') = m' \<and> \<not> touched (obs s') \<and> watched (obs s') = []"
proof -
  obtain t where t: "containment_turn redis_step cfg d (obs s) = (Inr (Some actions), t)"
    and "ks t = m'" "\<not> touched t" "watched t = []"
    using turn_mem [OF assms(1,2), of d] assms(3) by auto
  moreover obtain s' where "containment_turn rc cfg d s = (Inr (Some actions), s')" "obs s' = t"
    using sim_run [OF sim_containment_turn [OF sim_rc] t] by blast
  ultimately show ?thesis by (simp add: bindE_def ret_def)
qed

end

subsection \<open>Which rules a detection sets\<close>

definition blocks_ip :: "DetectionEvent \<Rightarrow> string \<Rightarrow> bool" where
  "blocks_ip d k \<longleftrightarrow> detection_type d = ''credential_stuffing'' \<and>
     dict_get (details d) ''scope'' = Some (JStr ''ip'') \<and>
     (case de_ip_address d of None \<Rightarrow> False | Some ip \<Rightarrow> ip \<noteq> [] \<and> k = ip_block_key ip)"

definition quarantines :: "keyspace \<Rightarrow> DetectionEvent \<Rightarrow> bool" where
  "quarantines m d \<longleftrightarrow>
     detection_type d \<in> {''replay_attack'', ''fraud_burst'', ''credential_stuffing''} \<or>
     detection_type d = ''geo_velocity_anomaly'' \<and> live m (step_up_key (de_user_id d))"

text \<open>What is stored under a key after a detection was contained for the first time.\<close>

definition entry_after :: "RedisConfig \<Rightarrow> DetectionEvent \<Rightarrow> keyspace \<Rightarrow> string list \<Rightarrow> string \<Rightarrow> entry option" where
  "entry_after cfg d m actions k =
     (if k = quarantine_key (de_user_id d) \<and> quarantines m d
      then Some (mk_entry (RStr (detection_id d)) (Some (quarantine_ttl_seconds cfg)))
      else if k = step_up_key (de_user_id d) \<and> detection_type d = ''geo_velocity_anomaly''
      then Some (mk_entry (RStr (detection_id d)) (Some (step_up_ttl_seconds cfg)))
      else if blocks_ip d k
      then Some (mk_entry (RStr (detection_id d)) (Some (ip_block_ttl_seconds cfg)))
      else if k = receipt_key d \<and> actions \<noteq> []
      then Some (mk_entry (RStr (json_dumps_strs actions)) (Some (containment_receipt_ttl_seconds cfg)))
      else fmlookup m k)"

lemma contain_fresh:
  assumes "\<not> live m (receipt_key d)"
  shows "\<exists>actions m'. contain cfg d m = (Inr actions, m') \<and>
    (actions = [] \<longleftrightarrow> detection_type d \<notin>
       {''replay_attack'', ''fraud_burst'', ''credential_stuffing'', ''geo_velocity_anomaly''}) \<and>
    (\<forall>k. fmlookup m' k = entry_after cfg d m actions k)"
  using assms
  by (auto simp: contain_def policy_def write_rules_def Let_def quarantines_def blocks_ip_def guard_key_def
      entry_after_def split: option.splits)

text \<open>
  (C21) The containment policy: on an undisturbed server a detection that was not contained before
  changes exactly these keys. Its user is quarantined for a replay, a burst or credential stuffing,
  and for a geo anomaly if a step-up was already pending; a geo anomaly demands step-up
  authentication; the address is blocked exactly for IP-scope credential stuffing that names one;
  and every known detection leaves its receipt. Every rule names the detection and has its
  configured time to live. An unknown detection type changes nothing.
\<close>

theorem containment_policy:
  assumes "redis_up rc obs" and "config_ok cfg" and "\<not> touched (obs s)"
    and "\<not> live (ks (obs s)) (receipt_key d)"
  shows "\<exists>actions s'. apply_containment rc cfg (Suc n) d s = (Inr (Some actions), s') \<and>
    (actions = [] \<longleftrightarrow> detection_type d \<notin>
       {''replay_attack'', ''fraud_burst'', ''credential_stuffing'', ''geo_velocity_anomaly''}) \<and>
    (\<forall>k. fmlookup (ks (obs s')) k = entry_after cfg d (ks (obs s)) actions k)"
proof -
  obtain actions m' where c: "contain cfg d (ks (obs s)) = (Inr actions, m')"
    and k: "actions = [] \<longleftrightarrow> detection_type d \<notin>
       {''replay_attack'', ''fraud_burst'', ''credential_stuffing'', ''geo_velocity_anomaly''}"
      "\<forall>k. fmlookup m' k = entry_after cfg d (ks (obs s)) actions k"
    using contain_fresh [OF assms(4)] by blast
  obtain s' where "apply_containment rc cfg (Suc n) d s = (Inr (Some actions), s')" "ks (obs s') = m'"
    using redis_up.apply_containment_run [OF assms(1-3) c] by blast
  with k show ?thesis by blast
qed

subsection \<open>The end of the retry loop\<close>

text \<open>Actions on the busy server that never lengthen its list of disturbances.\<close>

definition consumes :: "nat \<Rightarrow> (busy, 'a) action \<Rightarrow> bool" where
  "consumes n m \<longleftrightarrow> (\<forall>s. length (snd (snd (m s))) \<le> length (snd s) - n)"

lemma consumes_step: "consumes 1 (busy_step c)"
  unfolding consumes_def
proof
  fix s :: busy
  show "length (snd (snd (busy_step c s))) \<le> length (snd s) - 1"
    by (cases "(c, s)" rule: busy_step.cases) (auto split: prod.splits)
qed

lemma consumesI: "(\<And>s. length (snd (snd (m s))) \<le> length (snd s) - n) \<Longrightarrow> consumes n m"
  unfolding consumes_def by blast

lemma consumesD: "consumes n m \<Longrightarrow> length (snd (snd (m s))) \<le> length (snd s) - n"
  by (simp only: consumes_def)

lemma consumes_0: "consumes n m \<Longrightarrow> consumes 0 m"
  using consumesD [of n m] by (intro consumesI) (metis diff_le_self le_trans minus_nat.diff_0)

lemma consumes_bindE:
  assumes m: "consumes n m" and f: "\<And>x. consumes 0 (f x)"
  shows "consumes n (bindE m f)"
proof (rule consumesI)
  fix s
  obtain r t where mt: "m s = (r, t)" by (cases "m s")
  have "length (snd t) \<le> length (snd s) - n" using consumesD [OF m, of s] mt by simp
  moreover have "length (snd (snd (f x t))) \<le> length (snd t)" for x
    using consumesD [OF f [of x], of t] by simp
  ultimately show "length (snd (snd (bindE m f s))) \<le> length (snd s) - n"
    using mt by (cases r) (simp_all add: bindE_def, meson le_trans)
qed

lemma consumes_reset: "consumes 0 (reset_pipe busy_step)"
  using consumes_0 [OF consumes_step [of UNWATCH]] by (simp add: consumes_def reset_pipe_def)

lemma consumes_resetting:
  assumes "consumes 0 m"
  shows "consumes 0 (resetting busy_step m)"
proof (rule consumesI)
  fix s
  obtain r t where mt: "m s = (r, t)" by (cases "m s")
  have "length (snd t) \<le> length (snd s)" using consumesD [OF assms, of s] mt by simp
  with consumesD [OF consumes_reset, of t] show "length (snd (snd (resetting busy_step m s))) \<le> length (snd s) - 0"
    using mt by (cases r) (simp_all add: resetting_def)
qed

lemma consumes_ret: "consumes 0 (ret x)"
  by (simp add: consumes_def ret_def)

lemma consumes_plan: "consumes 0 (plan busy_step d cfg)"
  unfolding plan_def Let_def
  by (auto simp: consumes_ret split: option.splits intro!: consumes_bindE consumes_0 [OF consumes_step])

lemma exec_writes_state: "snd (exec_writes rc cfg d a ws s) = snd (rc (containment_tx cfg d a ws) s)"
  by (simp add: exec_writes_def split: prod.splits sum.splits exn.splits)

lemma consumes_exec: "consumes 0 (exec_writes busy_step cfg d actions writes)"
  using consumes_0 [OF consumes_step [of "containment_tx cfg d actions writes"]]
  by (simp add: consumes_def exec_writes_state)

lemma consumes_const: "consumes 0 (\<lambda>s. (r, s))"
  by (simp add: consumes_def)

lemma consumes_turn: "consumes 1 (containment_turn busy_step cfg d)"
  unfolding containment_turn_def
  by (intro consumes_bindE [OF consumes_step])
    (auto split: reply.splits intro!: consumes_bindE consumes_resetting consumes_plan consumes_exec consumes_ret
      consumes_reset consumes_const consumes_0 [OF consumes_step])

text \<open>A conflict leaves the connection unmarked.\<close>

lemma busy_conflict: "busy_step (containment_tx cfg d a ws) s = (Inl WatchError, s') \<Longrightarrow> \<not> touched (fst s')"
  by (cases "(containment_tx cfg d a ws, s)" rule: busy_step.cases)
    (auto simp: containment_tx_def redis_step.simps split: prod.splits if_splits)

lemma turn_conflict:
  assumes "containment_turn busy_step cfg d s = (Inr None, s')"
  shows "\<not> touched (fst s')"
proof -
  have load: "map_sum id Some x \<noteq> Inr None" for x :: "exn + string list" by (cases x) simp_all
  obtain t a ws where "exec_writes busy_step cfg d a ws t = (Inr None, s')"
  proof -
    from assms obtain x t where "(case x of
         RBulk v \<Rightarrow> bindE (reset_pipe busy_step) (\<lambda>_. (\<lambda>s. (map_sum id Some (load_actions v), s)))
       | _ \<Rightarrow> bindE (resetting busy_step (plan busy_step d cfg)) (\<lambda>(actions, writes).
          if actions = [] then bindE (resetting busy_step (busy_step UNWATCH)) (\<lambda>_. ret (Some []))
          else exec_writes busy_step cfg d actions writes)) t = (Inr None, s')"
      unfolding containment_turn_def bindE_Inr_iff by blast
    then show thesis
      using that load by (cases x) (auto simp: bindE_Inr_iff ret_def split: if_splits)
  qed
  then show ?thesis
    using busy_conflict by (auto simp: exec_writes_def split: prod.splits sum.splits exn.splits)
qed

lemma busy_quiet: "sim (\<lambda>s. (s, [])) (redis_step c) (busy_step c)"
  by (simp add: sim_def split: prod.splits)

lemma quiet_turn:
  assumes "config_ok cfg" and "\<not> touched s"
  shows "fst (containment_turn busy_step cfg d (s, [])) \<noteq> Inr None"
proof -
  have "fst (containment_turn busy_step cfg d (s, [])) = fst (containment_turn redis_step cfg d s)"
    by (rule simD(1) [OF sim_containment_turn [OF busy_quiet], symmetric])
  with turn_mem [OF assms, of d] show ?thesis by (cases "fst (contain cfg d (ks s))") auto
qed

lemma busy_ends:
  assumes "config_ok cfg"
  shows "\<not> touched s \<Longrightarrow> length ps < n \<Longrightarrow> fst (apply_containment busy_step cfg n d (s, ps)) \<noteq> Inr None"
proof (induction n arbitrary: s ps)
  case (Suc n)
  obtain q s' ps' where turn: "containment_turn busy_step cfg d (s, ps) = (q, s', ps')"
    by (metis prod.collapse)
  show ?case
  proof (cases "q = Inr None")
    case True
    with turn have "ps \<noteq> []" using quiet_turn [OF assms Suc.prems(1), of d] by auto
    then have "length ps' < n"
      using consumesD [OF consumes_turn, of cfg d "(s, ps)"] turn Suc.prems(2) by (cases ps) simp_all
    moreover have "\<not> touched s'" using turn_conflict turn True by fastforce
    ultimately show ?thesis using Suc.IH turn True by (simp add: bindE_def)
  next
    case False
    with turn show ?thesis by (auto simp: bindE_def ret_def split: sum.splits option.splits)
  qed
qed simp

text \<open>
  (C33) The retry loop ends: on a server whose other clients disturb a connection finitely often, the
  loop around the WATCH conflicts never runs out of a number of turns greater than the number of
  disturbances; it returns or raises.
\<close>

theorem containment_terminates:
  assumes "config_ok cfg" and "\<not> touched s" and "length ps < n"
  shows "fst (apply_containment busy_step cfg n d (s, ps)) \<noteq> Inr None"
  using busy_ends [OF assms] .

subsection \<open>Concrete runs\<close>

lemmas run_simps =
  containment_turn_def exec_writes_def resetting_def reset_pipe_def plan_def containment_tx_def
  HARD_QUARANTINE_TYPES_def guard_key_def disturbed_by_def disturb_def run_others_def
  redis_step.simps kv_simps action_simps pipe_execute_def unchanged_def eval_nat_numeral

definition sample_geo :: DetectionEvent where
  "sample_geo = (sample_detection ''det-geo-1'' ''u'')\<lparr>detection_type := ''geo_velocity_anomaly''\<rparr>"

definition raced :: busy where
  "raced = (empty_conn, [([], None), ([], None), ([], None),
     ([SET_EX (step_up_key ''u'') ''det-geo-0'' 900], None)])"

lemma sample_geo_sel [simp]:
  "detection_type sample_geo = ''geo_velocity_anomaly''" "de_user_id sample_geo = ''u''"
  "detection_id sample_geo = ''det-geo-1''"
  by (simp_all add: sample_geo_def sample_detection_def)



lemma load_quarantine: "load_actions (json_dumps_strs [''quarantine'']) = Inr [''quarantine'']"
  using load_dumped [of False "sample_detection ''d1'' ''u''"] by (simp add: policy_def sample_detection_def Let_def)

lemma timeout_run:
  "\<exists>s'. deliveries flaky_step default_redis_config 1 (sample_detection ''d1'' ''u'') 2
       (empty_conn, [None, None, Some (TimeoutError, True)]) =
     ([Inl TimeoutError, Inr (Some [''quarantine''])], s')"
  by (simp add: empty_conn_def run_simps default_redis_config_def sample_detection_def load_quarantine)

theorem containment_exactly_once_witness:
  "\<exists>a m' s'. deliveries flaky_step default_redis_config 1 (sample_detection ''d1'' ''u'') 2
       (empty_conn, [None, None, Some (TimeoutError, True)]) =
     ([Inl TimeoutError, Inr (Some [''quarantine''])], s') \<and>
   contain default_redis_config (sample_detection ''d1'' ''u'') fmempty = (Inr a, m') \<and> ks (fst s') = m' \<and>
   a = [''quarantine'']"
proof -
  obtain s' where run: "deliveries flaky_step default_redis_config 1 (sample_detection ''d1'' ''u'') 2
       (empty_conn, [None, None, Some (TimeoutError, True)]) =
     ([Inl TimeoutError, Inr (Some [''quarantine''])], s')" using timeout_run by blast
  have "\<forall>W m m'. W = {} \<and> m' = m \<longrightarrow> unchanged m m' (receipt_key (sample_detection ''d1'' ''u''))" by simp
  from containment_exactly_once [OF flaky.undisturbed.redis_shared_axioms default_config_ok this run] run
  show ?thesis by (auto simp: empty_conn_def)
qed

theorem containment_policy_witness:
  "\<exists>actions s'. apply_containment redis_step default_redis_config 1 (sample_detection ''d1'' ''u'') empty_conn =
       (Inr (Some actions), s') \<and>
     fmlookup (ks s') (quarantine_key ''u'') = Some (mk_entry (RStr ''d1'') (Some 3600)) \<and>
     fmlookup (ks s') (step_up_key ''u'') = None"
  using containment_policy [OF mem.redis_up_axioms default_config_ok, of empty_conn "sample_detection ''d1'' ''u''" 0]
  by (auto simp: empty_conn_def entry_after_def quarantines_def blocks_ip_def sample_detection_def default_redis_config_def)

theorem containment_terminates_witness:
  "fst (apply_containment busy_step default_redis_config 5 sample_geo raced) \<noteq> Inr None"
  unfolding raced_def
  by (rule containment_terminates) (simp_all add: empty_conn_def)

subsection \<open>The audit trail\<close>

text \<open>
  Every handled detection is audited with the actions that were taken, also when it is handled
  again: on an undisturbed server, with a producer that takes every record, \<open>handle_detection\<close> has the
  effect of \<open>contain\<close>, sends one audit record with its actions and counts each action; handling the
  detection a second time changes no rule and sends the very same audit record. The counter of
  executed actions, however, goes up a second time.
\<close>

theorem redelivery_audits_same:
  assumes "redis_up (cp_redis P) obs" and "config_ok (cp_redis_config P)"
    and "\<not> touched (obs (w_redis w))"
    and "contain (cp_redis_config P) d (ks (obs (w_redis w))) = (Inr actions, m)"
    and "\<forall>x p. fst (cp_emit_audit P x p) = Inr ()"
  shows "\<exists>w1 w2. handle_detection P (Suc n) d w = (Inr (Some actions), w1) \<and>
    handle_detection P (Suc n) d w1 = (Inr (Some actions), w2) \<and>
    ks (obs (w_redis w1)) = m \<and> ks (obs (w_redis w2)) = m \<and>
    cp_emit_audit P (audit_record d actions) (w_out w) = (Inr (), w_out w1) \<and>
    cp_emit_audit P (audit_record d actions) (w_out w1) = (Inr (), w_out w2) \<and>
    w_metrics w1 = w_metrics w @ map (\<lambda>a. (''containment_actions_total'', [detection_type d, a])) actions \<and>
    w_metrics w2 = w_metrics w1 @ map (\<lambda>a. (''containment_actions_total'', [detection_type d, a])) actions"
proof -
  note run = redis_up.apply_containment_run [OF assms(1,2)]
  obtain s1 where 1: "apply_containment (cp_redis P) (cp_redis_config P) (Suc n) d (w_redis w) = (Inr (Some actions), s1)"
    and k1: "ks (obs s1) = m" "\<not> touched (obs s1)"
    using run [OF assms(3,4)] by blast
  have "contain (cp_redis_config P) d (ks (obs s1)) = (Inr actions, m)"
    using contain_again [OF assms(4), of m] k1 by simp
  then obtain s2 where 2: "apply_containment (cp_redis P) (cp_redis_config P) (Suc n) d s1 = (Inr (Some actions), s2)"
    and k2: "ks (obs s2) = m"
    using run [OF k1(2)] by blast
  have emit: "cp_emit_audit P x p = (Inr (), snd (cp_emit_audit P x p))" for x p
    using assms(5) by (metis prod.collapse)
  show ?thesis
    using 1 2 k1 k2 emit [of "audit_record d actions"]
    by (simp add: handle_detection_def on_redis_def on_out_def bindE_def ret_def split_beta assms(5) del: apply_containment.simps)
qed

definition sample_containment :: "(conn, json list) ContainmentPipeline" where
  "sample_containment = \<lparr>cp_redis = redis_step, cp_emit_audit = (\<lambda>a out. (Inr (), out @ [a])),
     cp_redis_config = default_redis_config\<rparr>"

theorem redelivery_audits_same_witness:
  "\<exists>w1 w2. handle_detection sample_containment 1 (sample_detection ''d1'' ''u'') empty_world =
       (Inr (Some [''quarantine'']), w1) \<and>
     handle_detection sample_containment 1 (sample_detection ''d1'' ''u'') w1 = (Inr (Some [''quarantine'']), w2) \<and>
     ks (w_redis w2) = ks (w_redis w1) \<and>
     w_out w2 = [audit_record (sample_detection ''d1'' ''u'') [''quarantine''],
                 audit_record (sample_detection ''d1'' ''u'') [''quarantine'']]"
proof -
  let ?d = "sample_detection ''d1'' ''u''"
  have up: "redis_up (cp_redis sample_containment) (\<lambda>s. s)" and ok: "config_ok (cp_redis_config sample_containment)"
    and emit: "\<forall>x p. fst (cp_emit_audit sample_containment x p) = Inr ()"
    and idle: "\<not> touched (w_redis (empty_world :: (conn, json list) world))"
    using mem.redis_up_axioms by (simp_all add: sample_containment_def empty_world_def empty_conn_def)
  obtain m where c: "contain (cp_redis_config sample_containment) ?d (ks (w_redis (empty_world :: (conn, json list) world))) =
      (Inr [''quarantine''], m)"
    by (simp add: contain_def policy_def sample_detection_def Let_def sample_containment_def empty_world_def empty_conn_def)
  have log: "cp_emit_audit sample_containment x out = (Inr (), out')  \<longleftrightarrow> out' = out @ [x]" for x out out'
    by (auto simp: sample_containment_def)
  from redelivery_audits_same [OF up ok idle c emit, of 0] show ?thesis
    unfolding log One_nat_def by (elim exE conjE) (intro exI conjI, assumption+, simp_all add: empty_world_def)
qed

end
