(* ===== verification/KafkaClient.thy ===== *)
theory KafkaClient
  imports World
begin

text \<open>
  \<open>common/kafka_client.py\<close>: decoding record values, sending with a latched error, and the flush that
  verifies delivery. The Kafka client library is an argument: a record of its \<open>send\<close> and \<open>flush\<close>
  over a state \<open>'k\<close>. Delivery is asynchronous: each call also reports the error callbacks that fired
  in the meantime, as pairs of a topic and an error. The contract the code relies on is the locale
  \<open>kafka_producer\<close>: an accepted message stays pending until it is delivered or its error callback
  fires, and a flush that returns leaves nothing pending.
\<close>

subsection \<open>Decoding\<close>

text \<open>
  Strict UTF-8 (Unicode table 3-7): for the first sequence of a text, whether it is well-formed and
  how many bytes it takes up; of an ill-formed one, its maximal subpart.
\<close>

definition byte :: "char \<Rightarrow> nat" where
  "byte c = of_char c"

definition tail_byte :: "char \<Rightarrow> bool" where
  "tail_byte c \<longleftrightarrow> 128 \<le> byte c \<and> byte c \<le> 191"

definition second_ok :: "nat \<Rightarrow> char \<Rightarrow> bool" where
  "second_ok lead c \<longleftrightarrow>
     (if lead = 224 then 160 \<le> byte c \<and> byte c \<le> 191
      else if lead = 237 then 128 \<le> byte c \<and> byte c \<le> 159
      else if lead = 240 then 144 \<le> byte c \<and> byte c \<le> 191
      else if lead = 244 then 128 \<le> byte c \<and> byte c \<le> 143
      else tail_byte c)"

definition utf8_tails :: "nat \<Rightarrow> nat option" where
  "utf8_tails lead =
     (if lead < 128 then Some 0
      else if 194 \<le> lead \<and> lead \<le> 223 then Some 1
      else if 224 \<le> lead \<and> lead \<le> 239 then Some 2
      else if 240 \<le> lead \<and> lead \<le> 244 then Some 3
      else None)"

fun utf8_seq :: "string \<Rightarrow> bool \<times> nat" where
  "utf8_seq [] = (True, 0)"
| "utf8_seq (c # cs) =
     (case utf8_tails (byte c) of
        None \<Rightarrow> (False, 1)
      | Some n \<Rightarrow>
          (if n = 0 then (True, 1)
           else case cs of
                  [] \<Rightarrow> (False, 1)
                | d # ds \<Rightarrow>
                    (if \<not> second_ok (byte c) d then (False, 1)
                     else let k = length (takeWhile tail_byte (take (n - 1) ds))
                          in if k = n - 1 then (True, n + 1) else (False, k + 2))))"

lemma utf8_seq_pos: "cs \<noteq> [] \<Longrightarrow> 0 < snd (utf8_seq cs)"
  by (cases cs) (auto simp: Let_def split: option.splits list.splits)

lemma utf8_seq_drop: "cs \<noteq> [] \<Longrightarrow> (ok, n) = utf8_seq cs \<Longrightarrow> length cs - n < length cs"
  using utf8_seq_pos [of cs] by (cases "utf8_seq cs") simp

text \<open>\<open>raw.decode("utf-8")\<close> succeeds, and \<open>raw.decode("utf-8", "replace")\<close>, again as UTF-8 bytes.\<close>

function valid_utf8 :: "string \<Rightarrow> bool" where
  "valid_utf8 cs = (if cs = [] then True
     else case utf8_seq cs of (ok, n) \<Rightarrow> ok \<and> valid_utf8 (drop n cs))"
  by auto
termination
  by (relation "measure length") (auto dest: utf8_seq_drop)

definition replacement :: string where
  "replacement = [CHR 0xEF, CHR 0xBF, CHR 0xBD]"

function decode_replace :: "string \<Rightarrow> string" where
  "decode_replace cs = (if cs = [] then []
     else case utf8_seq cs of (ok, n) \<Rightarrow>
       (if ok then take n cs else replacement) @ decode_replace (drop n cs))"
  by auto
termination
  by (relation "measure length") (auto dest: utf8_seq_drop)

declare valid_utf8.simps [simp del] decode_replace.simps [simp del]

text \<open>A tombstone is Python's \<open>None\<close>, which is also what the JSON text \<open>null\<close> decodes to.\<close>

definition decode_json :: "string option \<Rightarrow> exn + json" where
  "decode_json raw =
     (case raw of
        None \<Rightarrow> Inr JNull
      | Some b \<Rightarrow>
          (if b = [] then Inr JNull
           else if \<not> valid_utf8 b then Inl (ValueError ''undecodable record value'')
           else case json_loads b of
                  None \<Rightarrow> Inl (ValueError ''undecodable record value'')
                | Some v \<Rightarrow> Inr v))"

subsection \<open>Sending\<close>

record kafka_msg =
  m_topic :: string
  m_value :: json
  m_key :: "string option"

record 'k kafka_lib =
  k_send :: "kafka_msg \<Rightarrow> 'k \<Rightarrow> exn option \<times> (string \<times> exn) list \<times> 'k"
  k_flush :: "'k \<Rightarrow> exn option \<times> (string \<times> exn) list \<times> 'k"

record 'k producer =
  p_client :: 'k
  rtace_last_error :: "exn option"
  p_failures :: "metric list"

definition on_error :: "string \<Rightarrow> exn \<Rightarrow> 'k producer \<Rightarrow> 'k producer" where
  "on_error topic e p = p\<lparr>rtace_last_error := Some e,
     p_failures := p_failures p @ [(''kafka_send_failures_total'', [topic])]\<rparr>"

definition called_back :: "(string \<times> exn) list \<Rightarrow> 'k producer \<Rightarrow> 'k producer" where
  "called_back cbs p = fold (\<lambda>(t, e). on_error t e) cbs p"

definition send_message ::
  "'k kafka_lib \<Rightarrow> string \<Rightarrow> json \<Rightarrow> string option \<Rightarrow> ('k producer, unit) action" where
  "send_message K topic value key p =
     (case k_send K \<lparr>m_topic = topic, m_value = value, m_key = key\<rparr> (p_client p) of (r, cbs, c) \<Rightarrow>
        let p' = called_back cbs (p\<lparr>p_client := c\<rparr>)
        in case r of
             None \<Rightarrow> (Inr (), p')
           | Some e \<Rightarrow> if e = KafkaError then (Inr (), on_error topic e p') else (Inl e, p'))"

definition reset_send_errors :: "('k producer, unit) action" where
  "reset_send_errors p = (Inr (), p\<lparr>rtace_last_error := None\<rparr>)"

definition flush_and_verify :: "'k kafka_lib \<Rightarrow> ('k producer, unit) action" where
  "flush_and_verify K p =
     (case k_flush K (p_client p) of (r, cbs, c) \<Rightarrow>
        let p' = called_back cbs (p\<lparr>p_client := c\<rparr>)
        in case r of
             Some e \<Rightarrow> (Inl e, p')
           | None \<Rightarrow>
               (case rtace_last_error p' of
                  None \<Rightarrow> (Inr (), p')
                | Some _ \<Rightarrow> (Inl KafkaError, p'\<lparr>rtace_last_error := None\<rparr>)))"

subsection \<open>The library's contract\<close>

locale kafka_producer =
  fixes K :: "'k kafka_lib"
    and delivered :: "'k \<Rightarrow> kafka_msg list"
    and pending :: "'k \<Rightarrow> kafka_msg list"
  assumes sent: "k_send K m c = (r, cbs, c') \<Longrightarrow> set (delivered c) \<subseteq> set (delivered c') \<and>
      (cbs = [] \<longrightarrow> set (pending c) \<union> (if r = None then {m} else {}) \<subseteq> set (delivered c') \<union> set (pending c'))"
    and flushed: "k_flush K c = (r, cbs, c') \<Longrightarrow> set (delivered c) \<subseteq> set (delivered c') \<and>
      (cbs = [] \<longrightarrow> set (pending c) \<subseteq> set (delivered c') \<union> set (pending c')) \<and>
      (r = None \<longrightarrow> pending c' = [])"

text \<open>
  What a client of these functions can do with the producer: send messages, have a message refused
  by an exception, and pass verifications.
  \<open>uses K ms p p'\<close> says that it sent \<open>ms\<close> and took the producer from \<open>p\<close> to \<open>p'\<close>.
\<close>

inductive uses :: "'k kafka_lib \<Rightarrow> kafka_msg list \<Rightarrow> 'k producer \<Rightarrow> 'k producer \<Rightarrow> bool" for K where
  uses_nothing: "uses K [] p p"
| uses_send: "uses K ms p p' \<Longrightarrow> send_message K t v k p' = (Inr (), p'') \<Longrightarrow>
    uses K (ms @ [\<lparr>m_topic = t, m_value = v, m_key = k\<rparr>]) p p''"
| uses_refused: "uses K ms p p' \<Longrightarrow> send_message K t v k p' = (Inl e, p'') \<Longrightarrow> uses K ms p p''"
| uses_flush: "uses K ms p p' \<Longrightarrow> flush_and_verify K p' = (Inr (), p'') \<Longrightarrow> uses K ms p p''"

lemma uses_trans: "uses K ns p' p'' \<Longrightarrow> uses K ms p p' \<Longrightarrow> uses K (ms @ ns) p p''"
proof (induction rule: uses.induct)
  case (uses_send ns p' q t v k q')
  then show ?case using uses.uses_send [of K "ms @ ns" p q t v k q'] by simp
qed (auto intro: uses.intros)

lemma called_back_client [simp]: "p_client (called_back cbs p) = p_client p"
  unfolding called_back_def by (induction cbs arbitrary: p) (auto simp: on_error_def)

lemma called_back_latch: "cbs \<noteq> [] \<Longrightarrow> rtace_last_error (called_back cbs p) \<noteq> None"
  unfolding called_back_def by (induction cbs rule: rev_induct) (auto simp: on_error_def)

lemma called_back_Nil [simp]: "called_back [] p = p"
  by (simp add: called_back_def)

context kafka_producer
begin

text \<open>Unless an error is latched, every one of the messages is delivered or still pending.\<close>

definition tracked :: "kafka_msg set \<Rightarrow> 'k producer \<Rightarrow> bool" where
  "tracked M p \<longleftrightarrow> (rtace_last_error p = None \<longrightarrow> M \<subseteq> set (delivered (p_client p)) \<union> set (pending (p_client p)))"

lemma send_tracked:
  assumes "tracked M p" and run: "send_message K t v k p = (Inr (), p')"
  shows "tracked (insert \<lparr>m_topic = t, m_value = v, m_key = k\<rparr> M) p'"
proof -
  let ?m = "\<lparr>m_topic = t, m_value = v, m_key = k\<rparr>"
  obtain r cbs c where s: "k_send K ?m (p_client p) = (r, cbs, c)" by (cases "k_send K ?m (p_client p)") auto
  show ?thesis
    unfolding tracked_def
  proof
    assume none: "rtace_last_error p' = None"
    with run s have r: "r = None" and p': "p' = called_back cbs (p\<lparr>p_client := c\<rparr>)"
      by (auto simp: send_message_def Let_def on_error_def split: option.splits if_splits)
    with none called_back_latch have "cbs = []" by blast
    with p' none assms(1) sent [OF s] r show
      "insert ?m M \<subseteq> set (delivered (p_client p')) \<union> set (pending (p_client p'))"
      by (auto simp: tracked_def)
  qed
qed

lemma refused_tracked:
  assumes "tracked M p" and run: "send_message K t v k p = (Inl e, p')"
  shows "tracked M p'"
proof -
  let ?m = "\<lparr>m_topic = t, m_value = v, m_key = k\<rparr>"
  obtain r cbs c where s: "k_send K ?m (p_client p) = (r, cbs, c)" by (cases "k_send K ?m (p_client p)") auto
  with run have p': "p' = called_back cbs (p\<lparr>p_client := c\<rparr>)"
    by (auto simp: send_message_def Let_def split: option.splits if_splits)
  show ?thesis
    unfolding tracked_def
  proof
    assume none: "rtace_last_error p' = None"
    with p' called_back_latch have "cbs = []" by blast
    with p' none assms(1) sent [OF s] show "M \<subseteq> set (delivered (p_client p')) \<union> set (pending (p_client p'))"
      by (auto simp: tracked_def)
  qed
qed

lemma flush_ok:
  assumes "tracked M p" and run: "flush_and_verify K p = (Inr (), p')"
  shows "M \<subseteq> set (delivered (p_client p'))" and "pending (p_client p') = []"
    and "set (delivered (p_client p)) \<subseteq> set (delivered (p_client p'))" and "rtace_last_error p' = None"
proof -
  obtain r cbs c where f: "k_flush K (p_client p) = (r, cbs, c)" by (cases "k_flush K (p_client p)") auto
  with run have r: "r = None" and p': "p' = called_back cbs (p\<lparr>p_client := c\<rparr>)"
    and none: "rtace_last_error p' = None"
    by (auto simp: flush_and_verify_def Let_def split: option.splits)
  with called_back_latch have cbs: "cbs = []" by blast
  with p' none assms(1) have "M \<subseteq> set (delivered (p_client p)) \<union> set (pending (p_client p))"
    by (simp add: tracked_def)
  with p' cbs flushed [OF f] r show "M \<subseteq> set (delivered (p_client p'))" by fastforce
  from p' cbs r flushed [OF f] show "pending (p_client p') = []"
    and "set (delivered (p_client p)) \<subseteq> set (delivered (p_client p'))" by auto
  show "rtace_last_error p' = None" by (rule none)
qed

lemma uses_tracked: "uses K ms p p' \<Longrightarrow> tracked M p \<Longrightarrow> tracked (M \<union> set ms) p'"
proof (induction rule: uses.induct)
  case (uses_send ms p p' t v k p'')
  from send_tracked [OF uses_send.IH [OF uses_send.prems] uses_send.hyps(2)] show ?case by simp
next
  case (uses_refused ms p p' t v k e p'')
  from refused_tracked [OF uses_refused.IH [OF uses_refused.prems] uses_refused.hyps(2)] show ?case .
next
  case (uses_flush ms p p' p'')
  from flush_ok(1) [OF uses_flush.IH [OF uses_flush.prems] uses_flush.hyps(2)] show ?case
    by (auto simp: tracked_def)
qed simp

end

subsection \<open>A broker with a ledger\<close>

text \<open>
  A library that keeps what was sent until the next flush, which delivers each pending message or
  fails it as a list of fates says (delivery, when the list is used up).
\<close>

record ledger =
  l_delivered :: "kafka_msg list"
  l_pending :: "kafka_msg list"
  l_fates :: "bool list"

fun settle :: "kafka_msg list \<Rightarrow> bool list \<Rightarrow> kafka_msg list \<times> kafka_msg list \<times> bool list" where
  "settle [] fs = ([], [], fs)"
| "settle (m # ms) [] = (case settle ms [] of (ok, bad, fs) \<Rightarrow> (m # ok, bad, fs))"
| "settle (m # ms) (f # fs) =
     (case settle ms fs of (ok, bad, fs') \<Rightarrow> if f then (m # ok, bad, fs') else (ok, m # bad, fs'))"

definition ledger_lib :: "ledger kafka_lib" where
  "ledger_lib = \<lparr>
     k_send = (\<lambda>m c. (None, [], c\<lparr>l_pending := l_pending c @ [m]\<rparr>)),
     k_flush = (\<lambda>c. case settle (l_pending c) (l_fates c) of (ok, bad, fs) \<Rightarrow>
       (None, map (\<lambda>m. (m_topic m, KafkaError)) bad,
        \<lparr>l_delivered = l_delivered c @ ok, l_pending = [], l_fates = fs\<rparr>))\<rparr>"

lemma settle_sets: "set (fst (settle ms fs)) \<union> set (fst (snd (settle ms fs))) = set ms"
  by (induction ms fs rule: settle.induct) (auto simp: split_beta)

lemma settle_all: "settle ms fs = (ok, bad, fs') \<Longrightarrow> set ms = set ok \<union> set bad"
  using settle_sets [of ms fs] by simp

interpretation ledger: kafka_producer ledger_lib l_delivered l_pending
proof unfold_locales
  fix m c r cbs c'
  assume "k_send ledger_lib m c = (r, cbs, c')"
  then show "set (l_delivered c) \<subseteq> set (l_delivered c') \<and>
      (cbs = [] \<longrightarrow> set (l_pending c) \<union> (if r = None then {m} else {}) \<subseteq> set (l_delivered c') \<union> set (l_pending c'))"
    by (auto simp: ledger_lib_def)
next
  fix c r cbs c'
  assume flush: "k_flush ledger_lib c = (r, cbs, c')"
  obtain ok bad fs where st: "settle (l_pending c) (l_fates c) = (ok, bad, fs)"
    by (cases "settle (l_pending c) (l_fates c)") auto
  with flush have "cbs = map (\<lambda>m. (m_topic m, KafkaError)) bad"
    and "c' = \<lparr>l_delivered = l_delivered c @ ok, l_pending = [], l_fates = fs\<rparr>"
    by (simp_all add: ledger_lib_def)
  with settle_all [OF st] show "set (l_delivered c) \<subseteq> set (l_delivered c') \<and>
      (cbs = [] \<longrightarrow> set (l_pending c) \<subseteq> set (l_delivered c') \<union> set (l_pending c')) \<and>
      (r = None \<longrightarrow> l_pending c' = [])"
    by simp
qed

definition empty_ledger :: "ledger producer" where
  "empty_ledger = \<lparr>p_client = \<lparr>l_delivered = [], l_pending = [], l_fates = []\<rparr>,
     rtace_last_error = None, p_failures = []\<rparr>"

text \<open>
  The verified flush is a durability barrier: whatever was sent since the errors were last reset,
  if \<open>flush_and_verify\<close> returns, then every message has been delivered, nothing is pending, and what had
  been delivered before still is.
\<close>

theorem flush_and_verify_durable:
  assumes "kafka_producer K delivered pending"
    and "reset_send_errors p0 = (Inr (), p1)" and "uses K ms p1 p2"
    and "flush_and_verify K p2 = (Inr (), p3)"
  shows "set ms \<subseteq> set (delivered (p_client p3)) \<and> pending (p_client p3) = [] \<and>
    set (delivered (p_client p2)) \<subseteq> set (delivered (p_client p3))"
proof -
  note kp = assms(1)
  have "kafka_producer.tracked delivered pending {} p1" by (simp add: kafka_producer.tracked_def [OF kp])
  from kafka_producer.uses_tracked [OF kp assms(3) this]
  have "kafka_producer.tracked delivered pending (set ms) p2" by simp
  from kafka_producer.flush_ok [OF kp this assms(4)] show ?thesis by blast
qed

theorem flush_and_verify_durable_witness:
  "\<exists>p3. flush_and_verify ledger_lib (snd (send_message ledger_lib ''t'' JNull None empty_ledger)) = (Inr (), p3) \<and>
     set [\<lparr>m_topic = ''t'', m_value = JNull, m_key = None\<rparr>] \<subseteq> set (l_delivered (p_client p3))"
proof -
  obtain p2 where send: "send_message ledger_lib ''t'' JNull None empty_ledger = (Inr (), p2)"
    by (simp add: send_message_def ledger_lib_def Let_def)
  obtain p3 where flush: "flush_and_verify ledger_lib p2 = (Inr (), p3)"
    using send by (auto simp: send_message_def flush_and_verify_def ledger_lib_def empty_ledger_def Let_def)
  have "reset_send_errors empty_ledger = (Inr (), empty_ledger)"
    by (simp add: reset_send_errors_def empty_ledger_def)
  moreover have "uses ledger_lib [\<lparr>m_topic = ''t'', m_value = JNull, m_key = None\<rparr>] empty_ledger p2"
    using uses_send [OF uses_nothing send] by simp
  ultimately have "set [\<lparr>m_topic = ''t'', m_value = JNull, m_key = None\<rparr>] \<subseteq> set (l_delivered (p_client p3))"
    using flush_and_verify_durable [OF ledger.kafka_producer_axioms _ _ flush] by blast
  with send flush show ?thesis by simp
qed

end
