(* ===== verification/ConsumerLoop.thy ===== *)
theory ConsumerLoop
  imports KafkaClient "HOL-Library.AList"
begin

text \<open>
  \<open>common/consumer_loop.py\<close>: poll, handle with retries, commit. The state is a \<open>service\<close>: the world the
  handler works on (Redis, producer, counters), the consumer's state, the number of further readings
  of the shutdown event until it is set (\<open>None\<close>: never), the seconds slept so far, and whether the
  clients are closed. The Kafka consumer is a library: its \<open>poll\<close> and \<open>commit\<close> are arguments. The two
  loops take a fuel each; a result \<open>None\<close> means that a loop was still running when it was used up.
\<close>

subsection \<open>Records, settings, state\<close>

record krecord =
  r_topic :: string
  r_partition :: int
  r_offset :: int
  r_key :: "string option"
  r_value :: "string option"

type_synonym decoded = "string \<times> int \<times> int \<times> json"

type_synonym failures = "(nat \<times> exn) list"

record LoopSettings =
  stage :: string
  settings_poll_timeout_ms :: int
  retry_initial_seconds :: real
  retry_max_seconds :: real
  kafka_error_pause_seconds :: real

definition default_settings :: "string \<Rightarrow> LoopSettings" where
  "default_settings st = \<lparr>stage = st, settings_poll_timeout_ms = 1000, retry_initial_seconds = 1 / 2,
     retry_max_seconds = 30, kafka_error_pause_seconds = 1\<rparr>"

record ('r, 'k, 'c) service =
  sv_world :: "('r, 'k producer) world"
  sv_consumer :: 'c
  sv_until :: "nat option"
  sv_slept :: "real list"
  sv_closed :: bool

record ('r, 'k, 'c) loop_env =
  le_handler :: "decoded list \<Rightarrow> (('r, 'k producer) world, failures option) action"
  le_lib :: "'k kafka_lib"
  le_producer :: bool
  le_dlq_topic :: "string option"
  le_settings :: LoopSettings
  le_poll :: "int \<Rightarrow> ('c, krecord list list) action"
  le_commit :: "((string \<times> int) \<times> int) list \<Rightarrow> ('c, unit) action"
  le_now :: string
  le_str :: "exn \<Rightarrow> string"

definition on_world :: "(('r, 'k producer) world, 'a) action \<Rightarrow> (('r, 'k, 'c) service, 'a) action" where
  "on_world m s = (case m (sv_world s) of (r, w) \<Rightarrow> (r, s\<lparr>sv_world := w\<rparr>))"

text \<open>An action that may run out of fuel, then another.\<close>

definition bindO :: "('s, 'a option) action \<Rightarrow> ('a \<Rightarrow> ('s, 'b option) action) \<Rightarrow> ('s, 'b option) action" where
  "bindO m f = bindE m (\<lambda>x. case x of None \<Rightarrow> ret None | Some y \<Rightarrow> f y)"

definition is_set :: "(('r, 'k, 'c) service, bool) action" where
  "is_set s = (case sv_until s of
     None \<Rightarrow> (Inr False, s)
   | Some 0 \<Rightarrow> (Inr True, s)
   | Some (Suc n) \<Rightarrow> (Inr False, s\<lparr>sv_until := Some n\<rparr>))"

definition sleep :: "real \<Rightarrow> (('r, 'k, 'c) service, unit) action" where
  "sleep t s = (Inr (), s\<lparr>sv_slept := sv_slept s @ [t]\<rparr>)"

subsection \<open>Failures\<close>

definition is_transient :: "exn \<Rightarrow> bool" where
  "is_transient e \<longleftrightarrow> outage e \<or> e = TransientError \<or> e = KafkaError"

fun per_record_from :: "nat \<Rightarrow> (decoded \<Rightarrow> ('s, unit option) action) \<Rightarrow> decoded list \<Rightarrow> ('s, failures option) action" where
  "per_record_from i handler [] = ret (Some [])"
| "per_record_from i handler (r # rs) = (\<lambda>s.
     case handler r s of (q, s') \<Rightarrow>
       (case q of
          Inl e \<Rightarrow>
            (if is_transient e then (Inl e, s')
             else bindO (per_record_from (Suc i) handler rs) (\<lambda>fs. ret (Some ((i, e) # fs))) s')
        | Inr None \<Rightarrow> (Inr None, s')
        | Inr (Some _) \<Rightarrow> per_record_from (Suc i) handler rs s'))"

definition per_record :: "(decoded \<Rightarrow> ('s, unit option) action) \<Rightarrow> decoded list \<Rightarrow> ('s, failures option) action" where
  "per_record handler = per_record_from 0 handler"

definition backoff ::
  "('r, 'k, 'c) loop_env \<Rightarrow> krecord list \<Rightarrow> real \<Rightarrow> (('r, 'k, 'c) service, bool) action" where
  "backoff E records delay =
     bindE (on_world (inc (''processing_errors_total'', [stage (le_settings E), ''transient'']))) (\<lambda>_.
     if records = [] then raise_exn (OtherError ''IndexError'')
     else
       bindE is_set (\<lambda>down.
       if down then raise_exn ShutdownRequested
       else bindE (sleep delay) (\<lambda>_.
            bindE is_set (\<lambda>down'.
            if down' then raise_exn ShutdownRequested else ret True))))"

subsection \<open>Dead letters\<close>

definition b64_digit :: "nat \<Rightarrow> char" where
  "b64_digit n = (if n < 26 then char_of (65 + n) else if n < 52 then char_of (71 + n)
     else if n < 62 then char_of (n - 4) else if n = 62 then CHR ''+'' else CHR ''/'')"

fun b64encode :: "string \<Rightarrow> string" where
  "b64encode [] = []"
| "b64encode [a] = [b64_digit (byte a div 4), b64_digit ((byte a mod 4) * 16), CHR ''='', CHR ''='']"
| "b64encode [a, b] =
     [b64_digit (byte a div 4), b64_digit ((byte a mod 4) * 16 + byte b div 16),
      b64_digit ((byte b mod 16) * 4), CHR ''='']"
| "b64encode (a # b # c # rest) =
     b64_digit (byte a div 4) # b64_digit ((byte a mod 4) * 16 + byte b div 16) #
     b64_digit ((byte b mod 16) * 4 + byte c div 64) # b64_digit (byte c mod 64) # b64encode rest"

text \<open>\<open>type(exc).__name__\<close>. The text \<open>str(exc)\<close> is an argument, \<open>le_str\<close>.\<close>

fun exn_name :: "exn \<Rightarrow> string" where
  "exn_name ConnectionError = ''ConnectionError''"
| "exn_name TimeoutError = ''TimeoutError''"
| "exn_name BusyLoadingError = ''BusyLoadingError''"
| "exn_name OutOfMemoryError = ''OutOfMemoryError''"
| "exn_name ReadOnlyError = ''ReadOnlyError''"
| "exn_name (ResponseError _) = ''ResponseError''"
| "exn_name WatchError = ''WatchError''"
| "exn_name TransientError = ''TransientError''"
| "exn_name KafkaError = ''KafkaError''"
| "exn_name ShutdownRequested = ''ShutdownRequested''"
| "exn_name (ValidationError _) = ''ValidationError''"
| "exn_name (ValueError _) = ''ValueError''"
| "exn_name (HTTPException _ _) = ''HTTPException''"
| "exn_name (OtherError n) = n"

definition dlq_key :: "krecord \<Rightarrow> string option" where
  "dlq_key r = (case r_key r of None \<Rightarrow> None | Some k \<Rightarrow> if k = [] then None else Some (decode_replace k))"

definition dlq_payload :: "('r, 'k, 'c) loop_env \<Rightarrow> krecord \<Rightarrow> exn \<Rightarrow> json" where
  "dlq_payload E r e = JObj
     [(''stage'', JStr (stage (le_settings E))), (''source_topic'', JStr (r_topic r)), (''partition'', JInt (r_partition r)),
      (''offset'', JInt (r_offset r)), (''key'', case dlq_key r of None \<Rightarrow> JNull | Some k \<Rightarrow> JStr k),
      (''value_base64'', case r_value r of None \<Rightarrow> JNull
                         | Some v \<Rightarrow> if v = [] then JNull else JStr (b64encode v)),
      (''error_type'', JStr (exn_name e)), (''error'', JStr (le_str E e)), (''failed_at'', JStr (le_now E))]"

definition send_to_dlq ::
  "('r, 'k, 'c) loop_env \<Rightarrow> krecord \<times> exn \<Rightarrow> (('r, 'k, 'c) service, unit) action" where
  "send_to_dlq E re =
     (case re of (r, e) \<Rightarrow>
        (case le_dlq_topic E of
           None \<Rightarrow> ret ()
         | Some topic \<Rightarrow>
             if \<not> le_producer E \<or> topic = [] then ret ()
             else on_world (on_out (send_message (le_lib E) topic
                    (dlq_payload E r e) (dlq_key r)))))"

subsection \<open>One attempt and the retry loop\<close>

text \<open>Decoding: the records with their values, those that cannot be decoded, and the number skipped.\<close>

fun classify :: "krecord list \<Rightarrow> (krecord \<times> json) list \<times> (krecord \<times> exn) list \<times> nat" where
  "classify [] = ([], [], 0)"
| "classify (r # rs) =
     (case classify rs of (decoded, poison, skipped) \<Rightarrow>
        (case decode_json (r_value r) of
           Inl e \<Rightarrow> (decoded, (r, e) # poison, skipped)
         | Inr v \<Rightarrow> (if v = JNull then (decoded, poison, Suc skipped)
                    else ((r, v) # decoded, poison, skipped))))"

definition to_decoded :: "krecord \<times> json \<Rightarrow> decoded" where
  "to_decoded rv = (r_topic (fst rv), r_partition (fst rv), r_offset (fst rv), snd rv)"

definition dlq_of :: "krecord list \<Rightarrow> failures \<Rightarrow> (krecord \<times> exn) list" where
  "dlq_of rs fs = List.map_filter (\<lambda>(i, r). map_option (Pair r) (map_of fs i)) (enumerate 0 rs)"

definition processed_of :: "krecord list \<Rightarrow> failures \<Rightarrow> krecord list" where
  "processed_of rs fs = map snd (filter (\<lambda>(i, r). map_of fs i = None) (enumerate 0 rs))"

definition account ::
  "('r, 'k, 'c) loop_env \<Rightarrow> krecord list \<Rightarrow> (krecord \<times> exn) list \<Rightarrow> (('r, 'k, 'c) service, unit) action" where
  "account E processed dlq =
     (let st = stage (le_settings E)
      in on_world (incs
           (map (\<lambda>_. (''consumer_records_total'', [st, ''processed''])) processed @
            concat (map (\<lambda>_. [(''processing_errors_total'', [st, ''permanent'']), (''dlq_messages_total'', [st]),
                             (''consumer_records_total'', [st, ''dlq''])]) dlq))))"

text \<open>The end of an attempt: \<open>True\<close> to try again.\<close>

definition settle_batch ::
  "('r, 'k, 'c) loop_env \<Rightarrow> krecord list \<Rightarrow> real \<Rightarrow> (krecord \<times> exn) list \<Rightarrow> krecord list \<Rightarrow>
   (('r, 'k, 'c) service, bool option) action" where
  "settle_batch E batch delay dlq processed =
     bindE (forE (send_to_dlq E) dlq) (\<lambda>_.
     let finish = bindE (account E processed dlq) (\<lambda>_. ret (Some False))
     in if le_producer E
        then (\<lambda>s. case on_world (on_out (flush_and_verify (le_lib E))) s of (q, s') \<Rightarrow>
               (case q of
                  Inr _ \<Rightarrow> finish s'
                | Inl e \<Rightarrow>
                    (if e = KafkaError
                     then bindE (backoff E batch delay) (\<lambda>again. if again then ret (Some True) else finish) s'
                     else (Inl e, s'))))
        else finish)"

definition attempt ::
  "('r, 'k, 'c) loop_env \<Rightarrow> (krecord \<times> json) list \<Rightarrow> (krecord \<times> exn) list \<Rightarrow> real \<Rightarrow>
   (('r, 'k, 'c) service, bool option) action" where
  "attempt E decoded poison delay =
     (let records = map fst decoded;
          batch = (if records = [] then map fst poison else records)
      in bindE (if le_producer E then on_world (on_out reset_send_errors) else ret ()) (\<lambda>_.
         (\<lambda>s. case (if decoded = [] then (Inr (Some []), s)
                   else on_world (le_handler E (map to_decoded decoded)) s) of (q, s') \<Rightarrow>
           (case q of
              Inr None \<Rightarrow> (Inr None, s')
            | Inr (Some failures) \<Rightarrow>
                settle_batch E batch delay (poison @ dlq_of records failures) (processed_of records failures) s'
            | Inl e \<Rightarrow>
                (let dead = settle_batch E batch delay (poison @ map (\<lambda>r. (r, e)) records) []
                 in if is_transient e
                    then bindE (backoff E batch delay) (\<lambda>again. if again then ret (Some True) else dead) s'
                    else dead s')))))"

fun retry ::
  "('r, 'k, 'c) loop_env \<Rightarrow> (krecord \<times> json) list \<Rightarrow> (krecord \<times> exn) list \<Rightarrow> real \<Rightarrow> nat \<Rightarrow>
   (('r, 'k, 'c) service, unit option) action" where
  "retry E decoded poison delay 0 = ret None"
| "retry E decoded poison delay (Suc n) =
     bindO (attempt E decoded poison delay) (\<lambda>again.
     if again then retry E decoded poison (min (delay * 2) (retry_max_seconds (le_settings E))) n
     else ret (Some ()))"

definition handle_batch_with_retry ::
  "('r, 'k, 'c) loop_env \<Rightarrow> nat \<Rightarrow> krecord list \<Rightarrow> (('r, 'k, 'c) service, unit option) action" where
  "handle_batch_with_retry E n records =
     (case classify records of (decoded, poison, skipped) \<Rightarrow>
        bindE (on_world (incs (replicate skipped (''consumer_records_total'', [stage (le_settings E), ''skipped''])))) (\<lambda>_.
        if decoded = [] \<and> poison = [] then ret (Some ())
        else retry E decoded poison (retry_initial_seconds (le_settings E)) n))"

subsection \<open>The loop\<close>

definition offsets_of :: "krecord list \<Rightarrow> ((string \<times> int) \<times> int) list" where
  "offsets_of records = fold (\<lambda>r. AList.update (r_topic r, r_partition r) (r_offset r + 1)) records []"

definition on_consumer :: "('c, 'a) action \<Rightarrow> (('r, 'k, 'c) service, 'a) action" where
  "on_consumer m s = (case m (sv_consumer s) of (r, c) \<Rightarrow> (r, s\<lparr>sv_consumer := c\<rparr>))"

definition commit :: "('r, 'k, 'c) loop_env \<Rightarrow> krecord list \<Rightarrow> (('r, 'k, 'c) service, unit) action" where
  "commit E records s =
     (case on_consumer (le_commit E (offsets_of records)) s of (q, s') \<Rightarrow>
        (if q = Inl KafkaError then (Inr (), s') else (q, s')))"

fun poll_loop :: "('r, 'k, 'c) loop_env \<Rightarrow> nat \<Rightarrow> nat \<Rightarrow> (('r, 'k, 'c) service, unit option) action" where
  "poll_loop E n 0 = ret None"
| "poll_loop E n (Suc m) =
     bindE is_set (\<lambda>down.
     if down then ret (Some ())
     else (\<lambda>s. case on_consumer (le_poll E (settings_poll_timeout_ms (le_settings E))) s of (q, s') \<Rightarrow>
       (case q of
          Inl e \<Rightarrow>
            (if e = KafkaError
             then bindE (sleep (kafka_error_pause_seconds (le_settings E))) (\<lambda>_. poll_loop E n m) s'
             else (Inl e, s'))
        | Inr batch \<Rightarrow>
            (if batch = [] then poll_loop E n m s'
             else case handle_batch_with_retry E n (concat batch) s' of (h, s'') \<Rightarrow>
               (case h of
                  Inl e \<Rightarrow> (if e = ShutdownRequested then (Inr (Some ()), s'') else (Inl e, s''))
                | Inr None \<Rightarrow> (Inr None, s'')
                | Inr (Some _) \<Rightarrow> bindE (commit E (concat batch)) (\<lambda>_. poll_loop E n m) s'')))))"

text \<open>The \<open>finally\<close> block: a last flush whose failure is ignored, and both clients closed.\<close>

definition stop_clients :: "('r, 'k, 'c) loop_env \<Rightarrow> ('r, 'k, 'c) service \<Rightarrow> ('r, 'k, 'c) service" where
  "stop_clients E s =
     (let w = sv_world s; p = w_out w;
          p' = (if le_producer E
                then (case k_flush (le_lib E) (p_client p) of (_, cbs, c) \<Rightarrow> called_back cbs (p\<lparr>p_client := c\<rparr>))
                else p)
      in s\<lparr>sv_world := w\<lparr>w_out := p'\<rparr>, sv_closed := True\<rparr>)"

definition run_consumer_loop ::
  "('r, 'k, 'c) loop_env \<Rightarrow> nat \<Rightarrow> nat \<Rightarrow> (('r, 'k, 'c) service, unit option) action" where
  "run_consumer_loop E n m s =
     (case poll_loop E n m s of (q, s') \<Rightarrow>
        (if q = Inr None then (q, s') else (q, stop_clients E s')))"

end
