(* ===== verification/LoopProps.thy ===== *)
theory LoopProps
  imports ConsumerLoop
begin

text \<open>
  The consumer loop for any handler that keeps the contract \<open>batch_handler\<close>: when a batch is reported
  as handled, everything its last attempt sent has been delivered; every record is counted once,
  however often the batch was retried; the delays grow as documented; and offsets are committed only
  for handled batches.
\<close>

subsection \<open>The contract of a handler\<close>

abbreviation records_counter :: string where
  "records_counter \<equiv> ''consumer_records_total''"

definition counted :: "metric list \<Rightarrow> nat" where
  "counted ms = length (filter (\<lambda>m. fst m = records_counter) ms)"

lemma counted_append [simp]: "counted (xs @ ys) = counted xs + counted ys"
  by (simp add: counted_def)

lemma counted_simps [simp]: "counted [] = 0"
  "counted (m # ms) = (if fst m = records_counter then Suc (counted ms) else counted ms)"
  by (simp_all add: counted_def)

text \<open>
  A handler of one record: however it ends, short of a transient failure, it has sent messages
  through the producer in the way \<open>uses\<close> describes, and on success those it owes for the record.
  It leaves the counter of consumed records to the loop.
\<close>

locale record_handler =
  fixes K :: "'k kafka_lib"
    and handler :: "decoded \<Rightarrow> (('r, 'k producer) world, unit option) action"
    and owes :: "decoded \<Rightarrow> kafka_msg set \<Rightarrow> bool"
  assumes record_sends: "handler d w = (Inr (Some u), w') \<Longrightarrow>
      \<exists>ms. uses K ms (w_out w) (w_out w') \<and> owes d (set ms)"
    and record_fails: "handler d w = (Inl e, w') \<Longrightarrow> \<not> is_transient e \<Longrightarrow> \<exists>ms. uses K ms (w_out w) (w_out w')"
    and record_counts: "handler d w = (q, w') \<Longrightarrow> counted (w_metrics w') = counted (w_metrics w)"
    and owes_mono: "owes d M \<Longrightarrow> M \<subseteq> M' \<Longrightarrow> owes d M'"

locale batch_handler =
  fixes K :: "'k kafka_lib"
    and handler :: "decoded list \<Rightarrow> (('r, 'k producer) world, failures option) action"
    and owed :: "('r, 'k producer) world \<Rightarrow> decoded list \<Rightarrow> failures \<Rightarrow> kafka_msg set \<Rightarrow> bool"
  assumes sends: "handler ds w = (Inr (Some fs), w') \<Longrightarrow>
      \<exists>ms. uses K ms (w_out w) (w_out w') \<and> owed w ds fs (set ms)"
    and counts: "handler ds w = (q, w') \<Longrightarrow> counted (w_metrics w') = counted (w_metrics w)"
    and owed_mono: "owed w ds fs M \<Longrightarrow> M \<subseteq> M' \<Longrightarrow> owed w ds fs M'"

text \<open>A record handler gives a batch handler: every record it did not fail has what it is owed.\<close>

definition all_owed :: "(decoded \<Rightarrow> kafka_msg set \<Rightarrow> bool) \<Rightarrow> nat \<Rightarrow> decoded list \<Rightarrow> failures \<Rightarrow> kafka_msg set \<Rightarrow> bool" where
  "all_owed owes i ds fs M \<longleftrightarrow> (\<forall>j < length ds. map_of fs (i + j) = None \<longrightarrow> owes (ds ! j) M)"

context record_handler
begin

lemma per_record_sends:
  "per_record_from i handler ds w = (Inr (Some fs), w') \<Longrightarrow>
   \<exists>ms. uses K ms (w_out w) (w_out w') \<and> all_owed owes i ds fs (set ms)"
proof (induction ds arbitrary: i w fs)
  case Nil
  then show ?case by (auto simp: ret_def all_owed_def intro: uses_nothing)
next
  case (Cons d ds)
  obtain q w1 where first: "handler d w = (q, w1)" by (cases "handler d w")
  have step: "\<exists>ms. uses K ms (w_out w) (w_out w') \<and> all_owed owes i (d # ds) fs (set ms)"
    if u1: "uses K ms1 (w_out w) (w_out w1)" and rest: "per_record_from (Suc i) handler ds w1 = (Inr (Some fs'), w')"
      and fs: "\<And>j. map_of fs (Suc i + j) = map_of fs' (Suc i + j)" and d: "map_of fs i = None \<Longrightarrow> owes d (set ms1)"
    for ms1 fs'
  proof -
    from Cons.IH [OF rest] obtain ms2 where u2: "uses K ms2 (w_out w1) (w_out w')"
      and o2: "all_owed owes (Suc i) ds fs' (set ms2)" by blast
    have "all_owed owes i (d # ds) fs (set (ms1 @ ms2))"
      unfolding all_owed_def
    proof (intro allI impI)
      fix j
      assume j: "j < length (d # ds)" "map_of fs (i + j) = None"
      show "owes ((d # ds) ! j) (set (ms1 @ ms2))"
      proof (cases j)
        case 0
        with j d owes_mono [of d "set ms1"] show ?thesis by simp
      next
        case (Suc k)
        with j fs [of k] o2 have "owes (ds ! k) (set ms2)" by (simp add: all_owed_def)
        with owes_mono [of "ds ! k" "set ms2"] Suc show ?thesis by simp
      qed
    qed
    with uses_trans [OF u2 u1] show ?thesis by blast
  qed
  show ?case
  proof (cases q)
    case (Inl e)
    with first Cons.prems obtain fs' where "\<not> is_transient e" "fs = (i, e) # fs'"
      and rest: "per_record_from (Suc i) handler ds w1 = (Inr (Some fs'), w')"
      by (auto simp: bindO_def bindE_Inr_iff ret_def split: if_splits option.splits)
    with record_fails [OF first [unfolded Inl]] step show ?thesis by fastforce
  next
    case (Inr u)
    with first Cons.prems obtain v where u: "u = Some v" and rest: "per_record_from (Suc i) handler ds w1 = (Inr (Some fs), w')"
      by (auto split: option.splits)
    obtain ms1 where "uses K ms1 (w_out w) (w_out w1)" "owes d (set ms1)"
      using record_sends first Inr u by blast
    with step rest show ?thesis by blast
  qed
qed

lemma per_record_counts:
  "per_record_from i handler ds w = (q, w') \<Longrightarrow> counted (w_metrics w') = counted (w_metrics w)"
proof (induction ds arbitrary: i w q w')
  case (Cons d ds)
  obtain p w1 where first: "handler d w = (p, w1)" by (cases "handler d w")
  note c1 = record_counts [OF first]
  obtain q2 w2 where rest: "per_record_from (Suc i) handler ds w1 = (q2, w2)" by (cases "per_record_from (Suc i) handler ds w1")
  note c2 = Cons.IH [OF rest]
  from Cons.prems first rest have "w' = w1 \<or> w' = w2"
    by (auto simp: bindO_def bindE_def ret_def split: sum.splits option.splits if_splits)
  with c1 c2 show ?case by auto
qed (simp add: ret_def)

end

sublocale record_handler \<subseteq> each: batch_handler K "per_record handler" "\<lambda>_. all_owed owes 0"
proof unfold_locales
  fix ds w fs w'
  assume "per_record handler ds w = (Inr (Some fs), w')"
  then show "\<exists>ms. uses K ms (w_out w) (w_out w') \<and> all_owed owes 0 ds fs (set ms)"
    unfolding per_record_def by (rule per_record_sends)
next
  fix ds w q w'
  assume "per_record handler ds w = (q, w')"
  then show "counted (w_metrics w') = counted (w_metrics w)"
    unfolding per_record_def by (rule per_record_counts)
next
  fix ds fs M M'
  assume "all_owed owes 0 ds fs M" "M \<subseteq> M'"
  then show "all_owed owes 0 ds fs M'" unfolding all_owed_def using owes_mono by blast
qed

subsection \<open>Steps of the loop\<close>

abbreviation prod_of :: "('r, 'k, 'c) service \<Rightarrow> 'k producer" where
  "prod_of s \<equiv> w_out (sv_world s)"

abbreviation total :: "('r, 'k, 'c) service \<Rightarrow> nat" where
  "total s \<equiv> counted (w_metrics (sv_world s))"

lemma is_set_service [simp]:
  "sv_world (snd (is_set s)) = sv_world s" "sv_consumer (snd (is_set s)) = sv_consumer s"
  "sv_slept (snd (is_set s)) = sv_slept s"
  by (simp_all add: is_set_def split: option.splits nat.splits)

lemma is_set_bool: "\<exists>b. fst (is_set s) = Inr b"
proof (cases "sv_until s")
  case (Some n)
  then show ?thesis by (cases n) (auto simp: is_set_def)
qed (auto simp: is_set_def)

text \<open>A backoff counts a transient failure and sleeps, or ends in a shutdown; nothing else changes.\<close>

lemma backoff_cases:
  assumes "backoff E batch delay s = (q, s')"
  shows "prod_of s' = prod_of s \<and> w_redis (sv_world s') = w_redis (sv_world s) \<and> total s' = total s \<and>
    sv_consumer s' = sv_consumer s \<and>
    (q = Inr True \<and> sv_slept s' = sv_slept s @ [delay] \<or>
     q = Inl ShutdownRequested \<or> batch = [] \<and> q = Inl (OtherError ''IndexError''))"
proof -
  obtain b1 s1 where 1: "is_set (s\<lparr>sv_world := (sv_world s)\<lparr>w_metrics := w_metrics (sv_world s) @
      [(''processing_errors_total'', [stage (le_settings E), ''transient''])]\<rparr>\<rparr>) = (Inr b1, s1)" (is "is_set ?s0 = _")
    using is_set_bool by (metis prod.collapse)
  obtain b2 s2 where 2: "is_set (s1\<lparr>sv_slept := sv_slept s1 @ [delay]\<rparr>) = (Inr b2, s2)" (is "is_set ?s1 = _")
    using is_set_bool by (metis prod.collapse)
  note f1 = is_set_service [of ?s0, unfolded 1 snd_conv]
  note f2 = is_set_service [of ?s1, unfolded 2 snd_conv]
  have "backoff E batch delay s =
      (if batch = [] then (Inl (OtherError ''IndexError''), ?s0)
       else if b1 then (Inl ShutdownRequested, s1)
       else if b2 then (Inl ShutdownRequested, s2) else (Inr True, s2))"
    using 1 2 by (simp add: backoff_def bindE_def on_world_def inc_def raise_exn_def sleep_def ret_def)
  with assms f1 f2 show ?thesis by (auto split: if_splits)
qed

definition dlq_msg :: "('r, 'k, 'c) loop_env \<Rightarrow> string \<Rightarrow> krecord \<times> exn \<Rightarrow> kafka_msg" where
  "dlq_msg E t re = \<lparr>m_topic = t, m_value = dlq_payload E (fst re) (snd re), m_key = dlq_key (fst re)\<rparr>"

lemma send_to_dlq_state:
  assumes "send_to_dlq E re s = (q, s')"
  shows "w_metrics (sv_world s') = w_metrics (sv_world s) \<and> sv_consumer s' = sv_consumer s \<and> sv_slept s' = sv_slept s"
  using assms by (auto simp: send_to_dlq_def on_world_def on_out_def ret_def split: prod.splits option.splits if_splits)

lemma dlqs_state:
  "forE (send_to_dlq E) dlq s = (q, s') \<Longrightarrow>
   w_metrics (sv_world s') = w_metrics (sv_world s) \<and> sv_consumer s' = sv_consumer s \<and> sv_slept s' = sv_slept s"
proof (induction dlq arbitrary: s)
  case (Cons re dlq)
  obtain p t where first: "send_to_dlq E re s = (p, t)" by (cases "send_to_dlq E re s")
  note st = send_to_dlq_state [OF first]
  from Cons.prems first have "s' = t \<or> forE (send_to_dlq E) dlq t = (q, s')"
    by (auto simp: bindE_def split: sum.splits)
  with st Cons.IH [of t] show ?case by auto
qed (simp add: ret_def)

lemma dlqs_sent:
  assumes "le_producer E" and "le_dlq_topic E = Some t" and "t \<noteq> []"
  shows "forE (send_to_dlq E) dlq s = (Inr (), s') \<Longrightarrow> uses (le_lib E) (map (dlq_msg E t) dlq) (prod_of s) (prod_of s')"
proof (induction dlq arbitrary: s)
  case Nil
  then show ?case by (simp add: ret_def uses_nothing)
next
  case (Cons re dlq)
  then obtain s1 where first: "send_to_dlq E re s = (Inr (), s1)" and rest: "forE (send_to_dlq E) dlq s1 = (Inr (), s')"
    by (auto simp: bindE_Inr_iff)
  from first assms have "send_message (le_lib E) t (dlq_payload E (fst re) (snd re)) (dlq_key (fst re)) (prod_of s) =
      (Inr (), prod_of s1)"
    by (auto simp: send_to_dlq_def on_world_def on_out_def split: prod.splits)
  from uses_send [OF uses_nothing this] have "uses (le_lib E) [dlq_msg E t re] (prod_of s) (prod_of s1)"
    by (simp add: dlq_msg_def)
  from uses_trans [OF Cons.IH [OF rest] this] show ?case by simp
qed

lemma counted_processed: "counted (map (\<lambda>_. (records_counter, l)) xs) = length xs"
  by (induction xs) simp_all

lemma counted_dlq:
  "counted (concat (map (\<lambda>_. [(''processing_errors_total'', a), (''dlq_messages_total'', b), (records_counter, c)]) ys)) =
     length ys"
  by (induction ys) simp_all

lemma account_run:
  "\<exists>s'. account E processed dlq s = (Inr (), s') \<and> prod_of s' = prod_of s \<and> sv_consumer s' = sv_consumer s \<and>
    sv_slept s' = sv_slept s \<and> total s' = total s + length processed + length dlq"
  by (simp add: account_def on_world_def Let_def counted_processed counted_dlq)

text \<open>How settling a batch can end: the records are counted, or the batch is to be tried again.\<close>

definition verify :: "('r, 'k, 'c) loop_env \<Rightarrow> (('r, 'k, 'c) service, unit) action" where
  "verify E = (if le_producer E then on_world (on_out (flush_and_verify (le_lib E))) else ret ())"

lemma verify_state:
  assumes "verify E s = (q, s')"
  shows "w_metrics (sv_world s') = w_metrics (sv_world s) \<and> sv_consumer s' = sv_consumer s \<and> sv_slept s' = sv_slept s"
  using assms by (auto simp: verify_def on_world_def on_out_def ret_def split: prod.splits if_splits)

lemma settle_cases:
  assumes "settle_batch E batch delay dlq processed s = (q, s')"
  obtains (Done) t u where "q = Inr (Some False)" "forE (send_to_dlq E) dlq s = (Inr (), t)"
      "verify E t = (Inr (), u)" "prod_of s' = prod_of u"
      "sv_consumer s' = sv_consumer s" "sv_slept s' = sv_slept s" "total s' = total s + length processed + length dlq"
  | (Again) "q = Inr (Some True)" "sv_consumer s' = sv_consumer s" "sv_slept s' = sv_slept s @ [delay]" "total s' = total s"
  | (Fail) e where "q = Inl e" "sv_consumer s' = sv_consumer s" "total s' = total s"
proof -
  obtain p t where sent: "forE (send_to_dlq E) dlq s = (p, t)" by (cases "forE (send_to_dlq E) dlq s")
  note st = dlqs_state [OF sent]
  obtain r u where ver: "verify E t = (r, u)" by (cases "verify E t")
  note su = verify_state [OF ver]
  obtain v where acc: "account E processed dlq u = (Inr (), v)" and sv: "prod_of v = prod_of u"
    "sv_consumer v = sv_consumer u" "sv_slept v = sv_slept u" "total v = total u + length processed + length dlq"
    using account_run by blast
  obtain b w where bo: "backoff E batch delay u = (b, w)" by (cases "backoff E batch delay u")
  note sw = backoff_cases [OF bo]
  show thesis
  proof (cases p)
    case (Inl e)
    with sent assms have "q = Inl e" "s' = t" by (simp_all add: settle_batch_def bindE_def)
    with st show thesis by (intro Fail) auto
  next
    case (Inr x)
    with sent assms have run: "(if le_producer E
        then (case verify E t of (q, s') \<Rightarrow>
               (case q of
                  Inr _ \<Rightarrow> bindE (account E processed dlq) (\<lambda>_. ret (Some False)) s'
                | Inl e \<Rightarrow>
                    (if e = KafkaError
                     then bindE (backoff E batch delay) (\<lambda>again. if again then ret (Some True)
                            else bindE (account E processed dlq) (\<lambda>_. ret (Some False))) s'
                     else (Inl e, s'))))
        else bindE (account E processed dlq) (\<lambda>_. ret (Some False)) t) = (q, s')"
      by (cases "le_producer E") (simp_all add: settle_batch_def bindE_def verify_def Let_def)
    show thesis
    proof (cases r)
      case (Inr y)
      have "u = t" if "\<not> le_producer E" using that ver by (simp add: verify_def ret_def)
      with run ver Inr acc have "q = Inr (Some False)" "s' = v"
        by (cases "le_producer E"; simp add: bindE_def ret_def)+
      with sent \<open>p = Inr x\<close> ver Inr st su sv show thesis by (intro Done [of t u]) auto
    next
      case (Inl e)
      then have "le_producer E" using ver by (auto simp: verify_def ret_def split: if_splits)
      with run ver Inl bo sw have "q = Inl e \<and> s' = u \<or> q = Inr (Some True) \<and> b = Inr True \<and> s' = w \<or>
          (\<exists>e. q = Inl e) \<and> s' = w"
        by (auto simp: bindE_def ret_def split: if_splits)
      with sw st su Again Fail show thesis by auto
    qed
  qed
qed

subsection \<open>One attempt\<close>

definition run_handler ::
  "('r, 'k, 'c) loop_env \<Rightarrow> (krecord \<times> json) list \<Rightarrow> (('r, 'k producer) world, failures option) action" where
  "run_handler E decoded w =
     (if decoded = [] then (Inr (Some []), w) else le_handler E (map to_decoded decoded) w)"

text \<open>The records an attempt dead-letters and those it processed, given how the handler ended.\<close>

fun dead_of :: "(krecord \<times> exn) list \<Rightarrow> krecord list \<Rightarrow> exn + failures option \<Rightarrow> (krecord \<times> exn) list" where
  "dead_of poison records (Inl e) = poison @ map (\<lambda>r. (r, e)) records"
| "dead_of poison records (Inr None) = poison"
| "dead_of poison records (Inr (Some fs)) = poison @ dlq_of records fs"

fun done_of :: "krecord list \<Rightarrow> exn + failures option \<Rightarrow> krecord list" where
  "done_of records (Inr (Some fs)) = processed_of records fs"
| "done_of records _ = []"

lemma processed_or_dead: "length (processed_of rs fs) + length (dlq_of rs fs) = length rs"
proof -
  have "length (filter (\<lambda>(i, r). map_of fs i = None) xs) +
      length (List.map_filter (\<lambda>(i, r). map_option (Pair r) (map_of fs i)) xs) = length xs" for xs :: "(nat \<times> krecord) list"
    by (induction xs) (auto simp: List.map_filter_def)
  from this [of "enumerate 0 rs"] show ?thesis by (simp add: processed_of_def dlq_of_def)
qed

lemma done_and_dead:
  "h \<noteq> Inr None \<Longrightarrow> length (done_of records h) + length (dead_of poison records h) = length records + length poison"
  using processed_or_dead by (cases "(poison, records, h)" rule: dead_of.cases) (auto simp: add.commute add.left_commute)

definition reset :: "('r, 'k, 'c) loop_env \<Rightarrow> ('r, 'k, 'c) service \<Rightarrow> ('r, 'k, 'c) service" where
  "reset E s = (if le_producer E then snd (on_world (on_out reset_send_errors) s) else s)"

lemma reset_state [simp]:
  "w_metrics (sv_world (reset E s)) = w_metrics (sv_world s)" "w_redis (sv_world (reset E s)) = w_redis (sv_world s)"
  "sv_consumer (reset E s) = sv_consumer s" "sv_slept (reset E s) = sv_slept s"
  by (simp_all add: reset_def on_world_def on_out_def reset_send_errors_def)

lemma reset_clears: "le_producer E \<Longrightarrow> rtace_last_error (prod_of (reset E s)) = None"
  by (simp add: reset_def on_world_def on_out_def reset_send_errors_def)

lemma attempt_unfold:
  assumes "run_handler E decoded (sv_world (reset E s)) = (h, w)"
  shows "attempt E decoded poison delay s =
    (let s' = (reset E s)\<lparr>sv_world := w\<rparr>; batch = (if decoded = [] then map fst poison else map fst decoded);
         settle = settle_batch E batch delay (dead_of poison (map fst decoded) h) (done_of (map fst decoded) h)
     in if h = Inr None then (Inr None, s')
        else if \<exists>e. h = Inl e \<and> is_transient e
             then bindE (backoff E batch delay) (\<lambda>again. if again then ret (Some True) else settle) s'
             else settle s')"
proof -
  have r1: "bindE (if le_producer E then on_world (on_out reset_send_errors) else ret ()) f s = f () (reset E s)" for f
    by (simp add: reset_def bindE_def on_world_def on_out_def reset_send_errors_def ret_def)
  have r2: "(if decoded = [] then (Inr (Some []), reset E s)
      else on_world (le_handler E (map to_decoded decoded)) (reset E s)) = (h, (reset E s)\<lparr>sv_world := w\<rparr>)"
    using assms by (auto simp: run_handler_def on_world_def)
  show ?thesis
  proof (cases h)
    case (Inl e)
    show ?thesis unfolding attempt_def Let_def r1 r2 prod.case map_is_Nil_conv Inl dead_of.simps done_of.simps by simp
  next
    case (Inr x)
    show ?thesis unfolding attempt_def Let_def r1 r2 prod.case map_is_Nil_conv Inr by (cases x) simp_all
  qed
qed

text \<open>
  The state and the delay of a later attempt: every attempt in between asked for another one.
\<close>

inductive retried ::
  "('r, 'k, 'c) loop_env \<Rightarrow> (krecord \<times> json) list \<Rightarrow> (krecord \<times> exn) list \<Rightarrow> real \<Rightarrow> ('r, 'k, 'c) service \<Rightarrow> real \<Rightarrow>
   ('r, 'k, 'c) service \<Rightarrow> bool" for E decoded poison where
  first_attempt: "retried E decoded poison delay s delay s"
| next_attempt: "attempt E decoded poison delay s = (Inr (Some True), t) \<Longrightarrow>
    retried E decoded poison (min (delay * 2) (retry_max_seconds (le_settings E))) t delay' s' \<Longrightarrow>
    retried E decoded poison delay s delay' s'"

context batch_handler
begin

lemma attempt_cases:
  assumes env: "le_handler E = handler" and run: "attempt E decoded poison delay s = (q, s')"
  obtains (Done) h w t u where "q = Inr (Some False)" "run_handler E decoded (sv_world (reset E s)) = (h, w)"
      "h \<noteq> Inr None" "\<forall>e. h = Inl e \<longrightarrow> \<not> is_transient e"
      "forE (send_to_dlq E) (dead_of poison (map fst decoded) h) ((reset E s)\<lparr>sv_world := w\<rparr>) = (Inr (), t)"
      "verify E t = (Inr (), u)" "prod_of s' = prod_of u"
      "sv_consumer s' = sv_consumer s" "sv_slept s' = sv_slept s" "total s' = total s + length decoded + length poison"
  | (Again) "q = Inr (Some True)" "sv_consumer s' = sv_consumer s" "sv_slept s' = sv_slept s @ [delay]" "total s' = total s"
  | (Stuck) "q = Inr None" "sv_consumer s' = sv_consumer s" "total s' = total s"
  | (Fail) e where "q = Inl e" "sv_consumer s' = sv_consumer s" "total s' = total s"
proof -
  obtain h w where hw: "run_handler E decoded (sv_world (reset E s)) = (h, w)"
    by (cases "run_handler E decoded (sv_world (reset E s))")
  let ?s = "(reset E s)\<lparr>sv_world := w\<rparr>"
  have tot: "total ?s = total s"
    using hw counts [of "map to_decoded decoded" "sv_world (reset E s)" h w] env
    by (auto simp: run_handler_def split: if_splits)
  define batch where "batch = (if decoded = [] then map fst poison else map fst decoded)"
  note unf = attempt_unfold [OF hw, of poison delay, folded batch_def, unfolded Let_def, unfolded run]
  consider (none) "h = Inr None" | (trans) e where "h = Inl e" "is_transient e"
    | (settle) "h \<noteq> Inr None" "\<forall>e. h = Inl e \<longrightarrow> \<not> is_transient e" by blast
  then show thesis
  proof cases
    case none
    with unf have "q = Inr None" "s' = ?s" by simp_all
    with tot show thesis by (intro Stuck) auto
  next
    case trans
    obtain b v where bo: "backoff E batch delay ?s = (b, v)" by (cases "backoff E batch delay ?s")
    note sv = backoff_cases [OF bo]
    from trans unf bo sv have "q = Inr (Some True) \<and> b = Inr True \<and> s' = v \<or> (\<exists>e. q = Inl e) \<and> s' = v"
      by (auto simp: bindE_def ret_def)
    with sv tot Again Fail show thesis by auto
  next
    case settle
    with unf have "settle_batch E batch delay (dead_of poison (map fst decoded) h) (done_of (map fst decoded) h) ?s = (q, s')"
      by auto
    then show thesis
    proof (cases rule: settle_cases)
      case (Done t u)
      from Done settle hw tot done_and_dead [of h "map fst decoded" poison] that(1) [of h w t u] show thesis by simp
    qed (use tot that in auto)
  qed
qed

lemma retry_total:
  assumes env: "le_handler E = handler"
  shows "retry E decoded poison delay n s = (q, s') \<Longrightarrow> sv_consumer s' = sv_consumer s \<and>
    total s' = total s + (if q = Inr (Some ()) then length decoded + length poison else 0)"
proof (induction n arbitrary: delay s)
  case (Suc n)
  obtain a t where att: "attempt E decoded poison delay s = (a, t)" by (cases "attempt E decoded poison delay s")
  from Suc.prems att Suc.IH [of "min (delay * 2) (retry_max_seconds (le_settings E))" t] show ?case
    by (cases rule: attempt_cases [OF env att]) (auto simp: bindO_def bindE_def ret_def)
qed (auto simp: ret_def)

lemma retry_last:
  assumes env: "le_handler E = handler"
  shows "retry E decoded poison delay n s = (Inr (Some ()), s') \<Longrightarrow>
    \<exists>s0 delay'. retried E decoded poison delay s delay' s0 \<and> attempt E decoded poison delay' s0 = (Inr (Some False), s')"
proof (induction n arbitrary: delay s)
  case (Suc n)
  obtain a t where att: "attempt E decoded poison delay s = (a, t)" by (cases "attempt E decoded poison delay s")
  from Suc.prems att show ?case
    by (cases rule: attempt_cases [OF env att])
      (auto simp: bindO_def bindE_def ret_def dest!: Suc.IH intro: retried.intros)
qed (simp add: ret_def)

lemma retry_slept:
  assumes env: "le_handler E = handler"
  shows "retry E decoded poison delay n s = (Inr (Some ()), s') \<Longrightarrow> 0 \<le> delay \<Longrightarrow>
    delay \<le> retry_max_seconds (le_settings E) \<Longrightarrow>
    \<exists>k<n. sv_slept s' = sv_slept s @ map (\<lambda>i. min (delay * 2 ^ i) (retry_max_seconds (le_settings E))) [0..<k]"
proof (induction n arbitrary: delay s)
  case (Suc n)
  let ?max = "retry_max_seconds (le_settings E)"
  obtain a t where att: "attempt E decoded poison delay s = (a, t)" by (cases "attempt E decoded poison delay s")
  show ?case
  proof (cases rule: attempt_cases [OF env att])
    case 1
    with Suc.prems(1) att have "s' = t" by (simp add: bindO_def bindE_def ret_def)
    with 1 show ?thesis by (intro exI [of _ 0]) simp
  next
    case 2
    have IH: "\<exists>k<n. sv_slept s' = sv_slept t @ map (\<lambda>i. min (min (delay * 2) ?max * 2 ^ i) ?max) [0..<k]"
      using Suc.prems att 2 by (intro Suc.IH) (auto simp: bindO_def bindE_def)
    have "min (min (delay * 2) ?max * 2 ^ i) ?max = min (delay * 2 ^ Suc i) ?max" for i
    proof (cases "delay * 2 \<le> ?max")
      case False
      have "1 \<le> (2::real) ^ i" by simp
      then have "?max \<le> ?max * 2 ^ i" "delay * 2 \<le> delay * 2 * 2 ^ i"
        using Suc.prems(2,3) by (simp_all add: mult_le_cancel_left1)
      with False show ?thesis by (simp add: mult.assoc)
    qed (simp add: mult.assoc)
    with IH obtain k where "k < n" "sv_slept s' = sv_slept t @ map (\<lambda>i. min (delay * 2 ^ Suc i) ?max) [0..<k]" by auto
    with 2 Suc.prems(3) show ?thesis
      by (intro exI [of _ "Suc k"]) (simp add: upt_conv_Cons map_Suc_upt [symmetric] comp_def del: upt_Suc)
  qed (use Suc.prems att in \<open>auto simp: bindO_def bindE_def ret_def\<close>)
qed (simp add: ret_def)

text \<open>What the last attempt of a handled batch has delivered.\<close>

lemma attempt_delivers:
  assumes env: "le_handler E = handler" "le_lib E = K" and kp: "kafka_producer K delivered pending"
    and dlq: "le_producer E" "le_dlq_topic E = Some t" "t \<noteq> []"
    and run: "attempt E decoded poison delay s = (Inr (Some False), s')"
  shows "\<exists>h w1. run_handler E decoded (sv_world (reset E s)) = (h, w1) \<and> h \<noteq> Inr None \<and> (\<forall>e. h = Inl e \<longrightarrow> \<not> is_transient e) \<and>
    dlq_msg E t ` set (dead_of poison (map fst decoded) h) \<subseteq> set (delivered (p_client (prod_of s'))) \<and>
    (\<forall>fs. h = Inr (Some fs) \<longrightarrow> decoded \<noteq> [] \<longrightarrow>
       owed (sv_world (reset E s)) (map to_decoded decoded) fs (set (delivered (p_client (prod_of s'))))) \<and>
    pending (p_client (prod_of s')) = []"
proof (cases rule: attempt_cases [OF env(1) run])
  case (1 h w u v)
  note kp_facts = kafka_producer.uses_tracked [OF kp] kafka_producer.flush_ok [OF kp]
  let ?p0 = "prod_of (reset E s)" and ?dead = "dead_of poison (map fst decoded) h"
  have flush: "flush_and_verify K (prod_of u) = (Inr (), prod_of s')"
    using 1 dlq(1) env by (auto simp: verify_def on_world_def on_out_def split: prod.splits)
  have sent: "uses K (map (dlq_msg E t) ?dead) (w_out w) (prod_of u)"
    using dlqs_sent [OF dlq 1(5)] env by simp
  have start: "kafka_producer.tracked delivered pending {} p" for p
    by (simp add: kafka_producer.tracked_def [OF kp])
  have dead: "set (map (dlq_msg E t) ?dead) \<subseteq> set (delivered (p_client (prod_of s')))"
    using kafka_producer.flush_ok(1) [OF kp kafka_producer.uses_tracked [OF kp sent start] flush] by simp
  have owed: "owed (sv_world (reset E s)) (map to_decoded decoded) fs (set (delivered (p_client (prod_of s'))))"
    if fs: "h = Inr (Some fs)" "decoded \<noteq> []" for fs
  proof -
    obtain ms where ms: "uses K ms ?p0 (w_out w)" and ow: "owed (sv_world (reset E s)) (map to_decoded decoded) fs (set ms)"
      using sends [of "map to_decoded decoded" "sv_world (reset E s)" fs w] 1(2) fs env by (auto simp: run_handler_def)
    from kafka_producer.uses_tracked [OF kp uses_trans [OF sent ms] start]
    have "kafka_producer.tracked delivered pending (set ms) (prod_of u)"
      by (simp add: kafka_producer.tracked_def [OF kp])
    from kafka_producer.flush_ok(1) [OF kp this flush] owed_mono [OF ow] show ?thesis by blast
  qed
  have "pending (p_client (prod_of s')) = []"
    by (rule kafka_producer.flush_ok(2) [OF kp start flush])
  with 1(2-4) dead owed show ?thesis
    by (intro exI [of _ "sv_world (reset E s)"] exI [of _ h] exI [of _ w]) simp
qed simp_all

end

end
