(* ===== verification/ContainmentService.thy ===== *)
theory ContainmentService
  imports ContainmentRuns LoopProps
begin

text \<open>
  \<open>containment_engine/consumer.py\<close>: the containment engine is the consumer loop around the containment
  pipeline, whose audit records go to the audit-log topic. The handler keeps the loop's contract: for
  every record it does not fail it has sent the audit record of the detection.
\<close>

definition emit_audit :: "'k kafka_lib \<Rightarrow> string \<Rightarrow> json \<Rightarrow> ('k producer, unit) action" where
  "emit_audit K topic audit =
     (case audit of
        JObj kvs \<Rightarrow>
          (case dict_get kvs ''user_id'' of
             Some (JStr u) \<Rightarrow> send_message K topic audit (Some u)
           | Some _ \<Rightarrow> raise_exn (OtherError ''AttributeError'')
           | None \<Rightarrow> raise_exn (OtherError ''KeyError''))
      | _ \<Rightarrow> raise_exn (OtherError ''TypeError''))"

definition containment_pipeline ::
  "'k kafka_lib \<Rightarrow> KafkaConfig \<Rightarrow> RedisConfig \<Rightarrow> 'r redis \<Rightarrow> ('r, 'k producer) ContainmentPipeline" where
  "containment_pipeline K kcfg rcfg rc =
     \<lparr>cp_redis = rc, cp_emit_audit = emit_audit K (audit_log_topic kcfg), cp_redis_config = rcfg\<rparr>"

definition containment_record ::
  "'k kafka_lib \<Rightarrow> KafkaConfig \<Rightarrow> RedisConfig \<Rightarrow> 'r redis \<Rightarrow> (json \<Rightarrow> exn + DetectionEvent) \<Rightarrow> nat \<Rightarrow>
   decoded \<Rightarrow> (('r, 'k producer) world, unit option) action" where
  "containment_record K kcfg rcfg rc model_validate fuel d =
     (case d of (topic, part, off, value) \<Rightarrow>
        containment_handle_record (containment_pipeline K kcfg rcfg rc) model_validate fuel value)"

text \<open>
  The loop as \<open>run_containment_engine\<close> starts it; the Kafka consumer, the clock and the texts of
  exceptions are arguments.
\<close>

definition containment_engine ::
  "'k kafka_lib \<Rightarrow> KafkaConfig \<Rightarrow> RedisConfig \<Rightarrow> 'r redis \<Rightarrow> (json \<Rightarrow> exn + DetectionEvent) \<Rightarrow> nat \<Rightarrow>
   (int \<Rightarrow> ('c, krecord list list) action) \<Rightarrow> (((string \<times> int) \<times> int) list \<Rightarrow> ('c, unit) action) \<Rightarrow>
   string \<Rightarrow> (exn \<Rightarrow> string) \<Rightarrow> ('r, 'k, 'c) loop_env" where
  "containment_engine K kcfg rcfg rc model_validate fuel poll commit_offsets now str =
     \<lparr>le_handler = per_record (containment_record K kcfg rcfg rc model_validate fuel),
      le_lib = K, le_producer = True, le_dlq_topic = Some (dlq_topic kcfg),
      le_settings = (default_settings ''containment'')\<lparr>settings_poll_timeout_ms := poll_timeout_ms kcfg\<rparr>,
      le_poll = poll, le_commit = commit_offsets, le_now = now, le_str = str\<rparr>"

subsection \<open>The handler keeps the contract\<close>

definition audit_msg :: "KafkaConfig \<Rightarrow> DetectionEvent \<Rightarrow> string list \<Rightarrow> kafka_msg" where
  "audit_msg kcfg d actions =
     \<lparr>m_topic = audit_log_topic kcfg, m_value = audit_record d actions, m_key = Some (de_user_id d)\<rparr>"

definition owes_audit :: "KafkaConfig \<Rightarrow> (json \<Rightarrow> exn + DetectionEvent) \<Rightarrow> decoded \<Rightarrow> kafka_msg set \<Rightarrow> bool" where
  "owes_audit kcfg model_validate d M \<longleftrightarrow>
     (\<exists>det actions. model_validate (snd (snd (snd d))) = Inr det \<and> audit_msg kcfg det actions \<in> M)"

lemma emit_audit_record:
  "emit_audit K topic (audit_record d actions) = send_message K topic (audit_record d actions) (Some (de_user_id d))"
  by (simp add: emit_audit_def audit_record_def dict_get_def)

text \<open>How the handling of a detection can end, as the producer and the counters see it.\<close>

lemma handle_detection_cases:
  assumes "handle_detection (containment_pipeline K kcfg rcfg rc) fuel d w = (q, w')"
  obtains (Stopped) "w_out w' = w_out w" "w_metrics w' = w_metrics w" "\<forall>a. q \<noteq> Inr (Some a)"
  | (Audited) actions where
      "send_message K (audit_log_topic kcfg) (audit_record d actions) (Some (de_user_id d)) (w_out w) =
         (map_sum id (\<lambda>_. ()) q, w_out w')" "counted (w_metrics w') = counted (w_metrics w)" "\<forall>x. q = Inr x \<longrightarrow> x \<noteq> None"
proof -
  obtain r s where ac: "apply_containment rc rcfg fuel d (w_redis w) = (r, s)"
    by (cases "apply_containment rc rcfg fuel d (w_redis w)")
  have no_count: "counted (map (\<lambda>a. (''containment_actions_total'', f a)) xs) = 0" for f and xs :: "string list"
    by (induction xs) simp_all
  show thesis
  proof (cases "\<exists>actions. r = Inr (Some actions)")
    case True
    then obtain actions where r: "r = Inr (Some actions)" by blast
    obtain x p where em: "send_message K (audit_log_topic kcfg) (audit_record d actions) (Some (de_user_id d)) (w_out w) = (x, p)"
      by (cases "send_message K (audit_log_topic kcfg) (audit_record d actions) (Some (de_user_id d)) (w_out w)")
    show thesis
      using assms ac r em no_count
      by (intro Audited [of actions]; cases x)
        (auto simp: handle_detection_def containment_pipeline_def bindE_def on_redis_def on_out_def emit_audit_record ret_def)
  next
    case False
    then have "r = Inr None \<or> (\<exists>e. r = Inl e)" by (cases r) auto
    then show thesis
      using assms ac
      by (intro Stopped) (auto simp: handle_detection_def containment_pipeline_def bindE_def on_redis_def ret_def)
  qed
qed

interpretation containment: record_handler K "containment_record K kcfg rcfg rc model_validate fuel"
  "owes_audit kcfg model_validate"
  for K :: "'k kafka_lib" and kcfg rcfg and rc :: "'r redis" and model_validate fuel
proof unfold_locales
  fix d u and w w' :: "('r, 'k producer) world"
  assume "containment_record K kcfg rcfg rc model_validate fuel d w = (Inr (Some u), w')"
  then obtain det a where v: "model_validate (snd (snd (snd d))) = Inr det"
    and run: "handle_detection (containment_pipeline K kcfg rcfg rc) fuel det w = (Inr (Some a), w')"
    by (auto simp: containment_record_def containment_handle_record_def raise_exn_def bindE_Inr_iff ret_def
        split: prod.splits sum.splits)
  show "\<exists>ms. uses K ms (w_out w) (w_out w') \<and> owes_audit kcfg model_validate d (set ms)"
  proof (cases rule: handle_detection_cases [OF run])
    case (2 actions)
    then have "send_message K (audit_log_topic kcfg) (audit_record det actions) (Some (de_user_id det)) (w_out w) = (Inr (), w_out w')"
      by simp
    from uses_send [OF uses_nothing this] have "uses K [audit_msg kcfg det actions] (w_out w) (w_out w')"
      by (simp add: audit_msg_def)
    with v show ?thesis by (intro exI [of _ "[audit_msg kcfg det actions]"]) (auto simp: owes_audit_def)
  qed simp
next
  fix d e and w w' :: "('r, 'k producer) world"
  assume fail: "containment_record K kcfg rcfg rc model_validate fuel d w = (Inl e, w')"
  show "\<exists>ms. uses K ms (w_out w) (w_out w')"
  proof (cases "model_validate (snd (snd (snd d)))")
    case (Inl x)
    with fail have "w' = w" by (auto simp: containment_record_def containment_handle_record_def raise_exn_def split: prod.splits)
    then show ?thesis using uses_nothing by blast
  next
    case (Inr det)
    with fail have "handle_detection (containment_pipeline K kcfg rcfg rc) fuel det w = (Inl e, w')"
      by (auto simp: containment_record_def containment_handle_record_def bindE_Inl_iff ret_def split: prod.splits)
    from handle_detection_cases [OF this] show ?thesis
      using uses_nothing uses_refused [OF uses_nothing] by (metis id_apply map_sum.simps(1))
  qed
next
  fix d q and w w' :: "('r, 'k producer) world"
  assume run: "containment_record K kcfg rcfg rc model_validate fuel d w = (q, w')"
  show "counted (w_metrics w') = counted (w_metrics w)"
  proof (cases "model_validate (snd (snd (snd d)))")
    case (Inl x)
    with run show ?thesis by (auto simp: containment_record_def containment_handle_record_def raise_exn_def split: prod.splits)
  next
    case (Inr det)
    obtain q' where "handle_detection (containment_pipeline K kcfg rcfg rc) fuel det w = (q', w')"
      using run Inr by (auto simp: containment_record_def containment_handle_record_def bindE_def ret_def split: prod.splits sum.splits)
    from handle_detection_cases [OF this] show ?thesis by metis
  qed
next
  fix d M M'
  assume "owes_audit kcfg model_validate d M" "M \<subseteq> M'"
  then show "owes_audit kcfg model_validate d M'" by (auto simp: owes_audit_def)
qed

end
