(* ===== verification/DetectionService.thy ===== *)
theory DetectionService
  imports PipelineTheorems ContainmentService
begin

text \<open>
  \<open>detection_engine/consumer.py\<close>: the detection engine is the consumer loop around the detection
  pipeline. Its handler confirms delivery before it keeps the cooldowns of a batch, and gives them
  back when delivery fails. \<open>model_dump(mode="json")\<close> of a detection is Pydantic's and an argument.
\<close>

definition emit_detection ::
  "'k kafka_lib \<Rightarrow> KafkaConfig \<Rightarrow> (DetectionEvent \<Rightarrow> json) \<Rightarrow> DetectionEvent \<Rightarrow> ('k producer, unit) action" where
  "emit_detection K kcfg model_dump d =
     send_message K (detections_topic kcfg) (model_dump d) (Some (de_user_id d))"

text \<open>The pipeline object with its callbacks; the other fields are those of the argument.\<close>

definition detection_pipeline ::
  "'k kafka_lib \<Rightarrow> (DetectionEvent \<Rightarrow> json) \<Rightarrow> ('r, 'k producer) DetectionPipeline \<Rightarrow> ('r, 'k producer) DetectionPipeline" where
  "detection_pipeline K model_dump P =
     P\<lparr>dp_emit := emit_detection K (dp_kafka_config P) model_dump,
       dp_emit_audit := Some (emit_audit K (audit_log_topic (dp_kafka_config P)))\<rparr>"

definition detection_handler ::
  "'k kafka_lib \<Rightarrow> ('r, 'k producer) DetectionPipeline \<Rightarrow> decoded list \<Rightarrow> (('r, 'k producer) world, failures option) action" where
  "detection_handler K P records =
     bindE (handle_batch P records) (\<lambda>result w.
       case on_out (flush_and_verify K) w of (q, w') \<Rightarrow>
         (case q of
            Inr _ \<Rightarrow> (Inr (Some (br_failures result)), w')
          | Inl e \<Rightarrow>
              (if e = KafkaError
               then bindE (release_claims P (claimed_cooldown_keys result)) (\<lambda>_. raise_exn e) w'
               else (Inl e, w'))))"

definition detection_engine ::
  "'k kafka_lib \<Rightarrow> (DetectionEvent \<Rightarrow> json) \<Rightarrow> ('r, 'k producer) DetectionPipeline \<Rightarrow>
   (int \<Rightarrow> ('c, krecord list list) action) \<Rightarrow> (((string \<times> int) \<times> int) list \<Rightarrow> ('c, unit) action) \<Rightarrow>
   string \<Rightarrow> (exn \<Rightarrow> string) \<Rightarrow> ('r, 'k, 'c) loop_env" where
  "detection_engine K model_dump P poll commit_offsets now str =
     \<lparr>le_handler = detection_handler K (detection_pipeline K model_dump P),
      le_lib = K, le_producer = True, le_dlq_topic = Some (dlq_topic (dp_kafka_config P)),
      le_settings = (default_settings ''detection'')\<lparr>settings_poll_timeout_ms := poll_timeout_ms (dp_kafka_config P)\<rparr>,
      le_poll = poll, le_commit = commit_offsets, le_now = now, le_str = str\<rparr>"

subsection \<open>The handler keeps the contract\<close>

definition detection_msg :: "KafkaConfig \<Rightarrow> (DetectionEvent \<Rightarrow> json) \<Rightarrow> DetectionEvent \<Rightarrow> kafka_msg" where
  "detection_msg kcfg model_dump d =
     \<lparr>m_topic = detections_topic kcfg, m_value = model_dump d, m_key = Some (de_user_id d)\<rparr>"

text \<open>What is owed for a batch: the detections that the run of the pipeline on it emitted.\<close>

definition owes_detections ::
  "'k kafka_lib \<Rightarrow> (DetectionEvent \<Rightarrow> json) \<Rightarrow> ('r, 'k producer) DetectionPipeline \<Rightarrow>
   ('r, 'k producer) world \<Rightarrow> decoded list \<Rightarrow> failures \<Rightarrow> kafka_msg set \<Rightarrow> bool" where
  "owes_detections K model_dump P w records fs M \<longleftrightarrow>
     (\<exists>r w'. handle_batch (detection_pipeline K model_dump P) records w = (Inr r, w') \<and> br_failures r = fs \<and>
        detection_msg (dp_kafka_config P) model_dump ` set (emitted r) \<subseteq> M)"

lemma pipeline_sel [simp]:
  "dp_emit (detection_pipeline K model_dump P) = emit_detection K (dp_kafka_config P) model_dump"
  "dp_emit_audit (detection_pipeline K model_dump P) = Some (emit_audit K (audit_log_topic (dp_kafka_config P)))"
  "dp_redis (detection_pipeline K model_dump P) = dp_redis P"
  "dp_kafka_config (detection_pipeline K model_dump P) = dp_kafka_config P"
  "dp_redis_config (detection_pipeline K model_dump P) = dp_redis_config P"
  "dp_validate_tx (detection_pipeline K model_dump P) = dp_validate_tx P"
  "dp_validate_auth (detection_pipeline K model_dump P) = dp_validate_auth P"
  by (simp_all add: detection_pipeline_def)

lemma emit_blocked_audit:
  "emit_audit K topic (blocked_audit ev) =
     send_message K topic (blocked_audit ev) (Some (case ev of Tx tx \<Rightarrow> tx_user_id tx | Auth au \<Rightarrow> au_user_id au))"
  by (cases ev) (simp_all add: emit_audit_def blocked_audit_def dict_get_def)

subsection \<open>What a run of the pipeline does to the world\<close>

text \<open>The increments the two pipelines make.\<close>

fun pipeline_metric :: "metric \<Rightarrow> bool" where
  "pipeline_metric (n, vs) =
     (n = ''transactions_processed_total'' \<and> vs \<in> {[''clean''], [''detected''], [''prescored''], [''blocked'']} \<or>
      n = ''events_blocked_total'' \<and> vs \<in> {[''transaction'', ''quarantine''], [''auth'', ''ip_block'']} \<or>
      n = ''replay_redeliveries_total'' \<and> vs = [] \<or> n = ''containment_actions_total'' \<and> (\<exists>t a. vs = [t, a]) \<or>
      n \<in> {''replay_detections_total'', ''geo_velocity_detections_total'', ''fraud_burst_detections_total'',
           ''credential_stuffing_detections_total'', ''detections_suppressed_total''} \<and> length vs = 1)"

text \<open>
  A run of a pipeline calls Redis, sends messages and counts. If each of these moves the world along
  an order, so does the run, however it ends.
\<close>

locale pipeline_effects = state_order R
  for R :: "('r, 'k producer) world \<Rightarrow> ('r, 'k producer) world \<Rightarrow> bool" +
  fixes K :: "'k kafka_lib"
  assumes calls_redis: "R w (w\<lparr>w_redis := s\<rparr>)"
    and sends_message: "leads R (on_out (send_message K t v k))"
    and pipeline_counts: "pipeline_metric x \<Longrightarrow> leads R (inc x)"
begin

lemma leads_redis: "leads R (on_redis m)"
  using calls_redis by (auto simp: leads_def on_redis_def split: prod.splits)

lemma leads_incs: "list_all pipeline_metric xs \<Longrightarrow> leads R (incs xs)"
  unfolding incs_def by (induction xs) (auto intro!: leads_intros pipeline_counts)

lemmas effect_intros = leads_intros leads_redis sends_message leads_incs

lemma leads_blocked: "leads R (blocked (detection_pipeline K model_dump P) it)"
  unfolding blocked_def pipeline_sel option.case emit_blocked_audit
  by (intro effect_intros) (simp add: blocked_metrics_def)

lemma leads_interpret: "leads R (interpret_item P it)"
  unfolding interpret_item_def Let_def
  by (cases "it_event it"; cases "it_result it")
    (auto simp: replay_interpret_def split: check_result.splits sum.splits intro!: effect_intros pipeline_counts)

lemma leads_decided: "leads R (decided_item P itr)"
  unfolding decided_item_def
  by (cases itr) (auto split: event.splits sum.splits intro!: effect_intros pipeline_counts)

lemma leads_cooled: "leads R (filter_cooled_down rc cfg ds)"
proof -
  have "list_all pipeline_metric (snd (snd (split_acquired prs)))" for prs
    by (induction prs rule: split_acquired.induct) (auto split: prod.splits)
  then have step: "leads R (case split_acquired prs of (allowed, claimed, ms) \<Rightarrow> bindE (incs ms) (\<lambda>_. ret (allowed, claimed)))" for prs
    by (cases "split_acquired prs") (metis (no_types, lifting) leads_bindE leads_ret leads_incs prod.case snd_conv)
  show ?thesis
    unfolding filter_cooled_down_def
    by (intro leads_if leads_ret leads_bindE leads_redis step)
qed

end

text \<open>A run up to the emission of its detections.\<close>

definition gather :: "('r, 'p) DetectionPipeline \<Rightarrow> Item list \<Rightarrow> (('r, 'p) world, DetectionEvent list \<times> string list) action" where
  "gather P items =
     bindE (enforce P items) (\<lambda>marked.
     bindE (check P marked) (\<lambda>active.
     bindE (mapE (interpret_item P) active) (\<lambda>cs.
     bindE (decide P (prescored_items active cs)) (\<lambda>decided.
     let finished = map2 (\<lambda>it ds. it\<lparr>it_candidates := map (assign_stable_id P (it_ref it)) ds\<rparr>) active (fill cs decided);
         candidates = concat (map it_candidates finished)
     in bindE (incs (concat (map (count_detection P) candidates))) (\<lambda>_.
        filter_cooled_down (dp_redis P) (dp_redis_config P) candidates)))))"

lemma run_batch_gather:
  "items \<noteq> [] \<Longrightarrow> run_batch P items =
     bindE (gather P items) (\<lambda>(allowed, claimed).
     bindE (forE (\<lambda>d. on_out (dp_emit P d)) allowed) (\<lambda>_.
     ret \<lparr>emitted = allowed, br_failures = [], claimed_cooldown_keys = claimed\<rparr>))"
  by (simp add: run_batch_def gather_def bindE_assoc Let_def)

lemma emit_all_sends:
  "forE (\<lambda>d. on_out (emit_detection K kcfg model_dump d)) ds w = (Inr (), w') \<Longrightarrow>
   uses K (map (detection_msg kcfg model_dump) ds) (w_out w) (w_out w')"
proof (induction ds arbitrary: w)
  case Nil
  then show ?case by (simp add: ret_def uses_nothing)
next
  case (Cons d ds)
  then obtain w1 where first: "on_out (emit_detection K kcfg model_dump d) w = (Inr (), w1)"
    and rest: "forE (\<lambda>d. on_out (emit_detection K kcfg model_dump d)) ds w1 = (Inr (), w')"
    by (auto simp: bindE_Inr_iff)
  from first have "send_message K (detections_topic kcfg) (model_dump d) (Some (de_user_id d)) (w_out w) = (Inr (), w_out w1)"
    by (auto simp: on_out_def emit_detection_def split: prod.splits)
  from uses_trans [OF Cons.IH [OF rest] uses_send [OF uses_nothing this]] show ?case
    by (simp add: detection_msg_def)
qed

context pipeline_effects
begin

lemma leads_gather: "leads R (gather (detection_pipeline K model_dump P) items)"
proof -
  have "list_all pipeline_metric (concat (map (count_detection Q) ds))" for Q :: "('r, 'k producer) DetectionPipeline" and ds
    by (induction ds) (simp_all add: count_detection_def Let_def)
  then show ?thesis
    unfolding gather_def enforce_def check_def decide_def Let_def
    by (intro effect_intros leads_blocked leads_interpret leads_decided leads_cooled)
qed

lemma leads_emits: "leads R (forE (\<lambda>d. on_out (dp_emit (detection_pipeline K model_dump P) d)) ds)"
  unfolding pipeline_sel emit_detection_def by (intro effect_intros)

lemma leads_run_batch: "leads R (run_batch (detection_pipeline K model_dump P) items)"
proof (cases "items = []")
  case True
  then show ?thesis by (simp add: run_batch_def leads_ret)
next
  case False
  then show ?thesis
    unfolding run_batch_gather [OF False] by (intro effect_intros leads_gather leads_emits)
qed

lemma leads_handle_batch: "leads R (handle_batch (detection_pipeline K model_dump P) records)"
  unfolding handle_batch_def
  by (auto split: sum.splits prod.splits intro!: effect_intros leads_run_batch)

text \<open>The handlers of the two engines.\<close>

lemma leads_detection_handler:
  assumes flush: "leads R (on_out (flush_and_verify K))"
  shows "leads R (detection_handler K (detection_pipeline K model_dump P) records)"
proof -
  let ?flush = "on_out (flush_and_verify K)"
  let ?failed = "\<lambda>result e. if e = KafkaError
    then bindE (release_claims (detection_pipeline K model_dump P) (claimed_cooldown_keys result)) (\<lambda>_. raise_exn e) else raise_exn e"
  have failed: "leads R (?failed result e)" for result e
    unfolding release_claims_def by (intro effect_intros)
  have "leads R (\<lambda>w. case ?flush w of (q, w') \<Rightarrow>
      (case q of Inr _ \<Rightarrow> (Inr (Some (br_failures result)), w') | Inl e \<Rightarrow>
        (if e = KafkaError
         then bindE (release_claims (detection_pipeline K model_dump P) (claimed_cooldown_keys result)) (\<lambda>_. raise_exn e) w'
         else (Inl e, w'))))" for result
    by (rule leads_handled [where m = ?flush and f = "\<lambda>_. ret (Some (br_failures result))" and g = "?failed result"])
      (rule flush, rule leads_ret, rule failed, auto simp: ret_def raise_exn_def split: prod.splits sum.splits)
  then show ?thesis
    unfolding detection_handler_def by (intro leads_bindE leads_handle_batch)
qed

lemma leads_containment_record: "leads R (containment_record K kcfg rcfg rc model_validate fuel d)"
proof -
  have "leads R (handle_detection (containment_pipeline K kcfg rcfg rc) fuel det)" for det
    unfolding handle_detection_def containment_pipeline_def ContainmentPipeline.select_convs emit_audit_record
    by (auto simp: list_all_iff split: option.splits intro!: effect_intros)
  then show ?thesis
    unfolding containment_record_def containment_handle_record_def
    by (auto split: prod.splits sum.splits intro!: leads_intros)
qed

end

text \<open>Nothing but messages and counters other than the loop's.\<close>

definition lawful :: "'k kafka_lib \<Rightarrow> ('r, 'k producer) world \<Rightarrow> ('r, 'k producer) world \<Rightarrow> bool" where
  "lawful K w w' \<longleftrightarrow> counted (w_metrics w') = counted (w_metrics w) \<and> (\<exists>ms. uses K ms (w_out w) (w_out w'))"

lemma lawful_send: "leads (lawful K) (on_out (send_message K t v k))"
proof -
  have "\<exists>ms. uses K ms p (snd (send_message K t v k p))" for p
  proof (cases "send_message K t v k p")
    case (Pair q p')
    then show ?thesis
      using uses_send [OF uses_nothing, of K t v k p] uses_refused [OF uses_nothing, of K t v k p] by (cases q) auto
  qed
  then show ?thesis
    by (auto simp: leads_def lawful_def on_out_def split: prod.splits) (metis snd_conv)
qed

text \<open>The counter of consumed records is not one of theirs.\<close>

lemma uncounted_metric: "\<not> pipeline_metric (records_counter, vs)"
  by simp

interpretation lawful: pipeline_effects "lawful K" K for K :: "'k kafka_lib"
proof unfold_locales
  fix w v u :: "('r, 'k producer) world"
  show "lawful K w w" using uses_nothing by (auto simp: lawful_def)
  show "lawful K w u" if "lawful K w v" "lawful K v u"
    using that uses_trans unfolding lawful_def by metis
  show "lawful K w (w\<lparr>w_redis := s\<rparr>)" for s using uses_nothing by (auto simp: lawful_def)
  show "leads (lawful K :: ('r, 'k producer) world \<Rightarrow> _) (on_out (send_message K t m k))" for t m k by (rule lawful_send)
  show "leads (lawful K :: ('r, 'k producer) world \<Rightarrow> _) (inc x)" if "pipeline_metric x" for x
  proof -
    have "counted [x] = 0" using that uncounted_metric by (cases x) (auto simp: counted_def)
    then show ?thesis using uses_nothing by (auto simp: leads_def lawful_def inc_def)
  qed
qed

lemma run_batch_sends:
  assumes "run_batch (detection_pipeline K model_dump P) items w = (Inr r, w')"
  shows "\<exists>ms. uses K ms (w_out w) (w_out w') \<and> detection_msg (dp_kafka_config P) model_dump ` set (emitted r) \<subseteq> set ms"
proof (cases "items = []")
  case True
  with assms show ?thesis by (auto simp: run_batch_def ret_def intro!: exI [of _ "[]"] uses_nothing)
next
  case False
  then obtain allowed claimed w1 where
    g: "gather (detection_pipeline K model_dump P) items w = (Inr (allowed, claimed), w1)"
    and e: "forE (\<lambda>d. on_out (emit_detection K (dp_kafka_config P) model_dump d)) allowed w1 = (Inr (), w')"
    and r: "emitted r = allowed"
    using assms unfolding run_batch_gather [OF False] pipeline_sel by (auto simp: bindE_Inr_iff ret_def)
  obtain ms where "uses K ms (w_out w) (w_out w1)" using leadsD [OF lawful.leads_gather g] by (auto simp: lawful_def)
  from uses_trans [OF emit_all_sends [OF e] this] r show ?thesis by (intro exI) auto
qed

lemma detection_handler_ok:
  assumes "detection_handler K P ds w = (Inr (Some fs), w')"
  obtains r w1 where "handle_batch P ds w = (Inr r, w1)" "br_failures r = fs" "on_out (flush_and_verify K) w1 = (Inr (), w')"
proof -
  from assms obtain r w1 where run: "handle_batch P ds w = (Inr r, w1)"
    by (auto simp: detection_handler_def bindE_Inr_iff)
  obtain q w2 where fl: "on_out (flush_and_verify K) w1 = (q, w2)" by (cases "on_out (flush_and_verify K) w1")
  with assms run have "q = Inr ()" "br_failures r = fs" "w2 = w'"
    by (cases q; auto simp: detection_handler_def bindE_def raise_exn_def split: if_splits prod.splits sum.splits)+
  with run fl that show thesis by blast
qed

interpretation detection: batch_handler K "detection_handler K (detection_pipeline K model_dump P)" "owes_detections K model_dump P"
  for K :: "'k kafka_lib" and model_dump and P :: "('r, 'k producer) DetectionPipeline"
proof unfold_locales
  let ?P = "detection_pipeline K model_dump P"
  fix ds fs and w w' :: "('r, 'k producer) world"
  assume "detection_handler K ?P ds w = (Inr (Some fs), w')"
  then obtain r w1 where run: "handle_batch ?P ds w = (Inr r, w1)" and fs: "br_failures r = fs"
    and fl: "on_out (flush_and_verify K) w1 = (Inr (), w')"
    by (rule detection_handler_ok)
  from run obtain items r' where "run_batch ?P items w = (Inr r', w1)" "emitted r' = emitted r"
    by (auto simp: handle_batch_def bindE_Inr_iff raise_exn_def ret_def split: sum.splits prod.splits)
  then obtain ms where u: "uses K ms (w_out w) (w_out w1)"
    and ms: "detection_msg (dp_kafka_config P) model_dump ` set (emitted r) \<subseteq> set ms"
    using run_batch_sends by metis
  have "uses K ms (w_out w) (w_out w')"
    using uses_flush [OF u] fl by (auto simp: on_out_def split: prod.splits)
  with run fs ms show "\<exists>ms. uses K ms (w_out w) (w_out w') \<and> owes_detections K model_dump P w ds fs (set ms)"
    by (auto simp: owes_detections_def)
next
  let ?P = "detection_pipeline K model_dump P"
  fix ds q and w w' :: "('r, 'k producer) world"
  assume run: "detection_handler K ?P ds w = (q, w')"
  obtain q1 w1 where h: "handle_batch ?P ds w = (q1, w1)" by (cases "handle_batch ?P ds w")
  have "counted (w_metrics w1) = counted (w_metrics w)" using leadsD [OF lawful.leads_handle_batch h] by (simp add: lawful_def)
  moreover have "w_metrics w' = w_metrics w1"
    using run h by (auto simp: detection_handler_def bindE_def on_out_def release_claims_def on_redis_def raise_exn_def
        split: prod.splits sum.splits if_splits)
  ultimately show "counted (w_metrics w') = counted (w_metrics w)" by simp
next
  fix ds fs M M' and w :: "('r, 'k producer) world"
  assume "owes_detections K model_dump P w ds fs M" "M \<subseteq> M'"
  then show "owes_detections K model_dump P w ds fs M'" by (fastforce simp: owes_detections_def)
qed

end
