(* ===== verification/LoopOrder.thy ===== *)
theory LoopOrder
  imports LoopProps
begin

text \<open>
  What a run of the consumer loop cannot undo. \<open>loop_effects R E\<close> lists what the loop does to a
  service: it reads the shutdown event, sleeps, uses the consumer and the producer, counts, and calls
  the handler. If each of these moves the service along the order \<open>R\<close>, so does the whole loop,
  however it ends and however often it retries.
\<close>

text \<open>A handler of one record makes a handler of a batch.\<close>

context state_order
begin

lemma leads_per_record: "(\<And>d. leads R (h d)) \<Longrightarrow> leads R (per_record_from i h ds)"
proof (induction ds arbitrary: i)
  case Nil
  then show ?case by (simp add: leads_ret)
next
  case (Cons d ds)
  let ?more = "\<lambda>e. if is_transient e then raise_exn e
    else bindO (per_record_from (Suc i) h ds) (\<lambda>fs. ret (Some ((i, e) # fs)))"
  let ?next = "\<lambda>x. case x of None \<Rightarrow> ret None | Some _ \<Rightarrow> per_record_from (Suc i) h ds"
  have rest: "leads R (per_record_from j h ds)" for j using Cons by blast
  have "leads R (case x of None \<Rightarrow> ret None | Some fs \<Rightarrow> ret (Some ((i, e) # fs)))" for x and e
    by (cases x) (simp_all add: leads_ret)
  then have more: "leads R (?more e)" for e
    unfolding bindO_def by (intro leads_intros rest)
  have go_on: "leads R (?next x)" for x using rest by (cases x) (auto intro: leads_ret)
  show ?case
    unfolding per_record_from.simps
    by (rule leads_handled [where m = "h d" and f = ?next and g = ?more])
      (rule Cons.prems, rule go_on, rule more, auto simp: ret_def raise_exn_def split: prod.splits sum.splits option.splits)
qed

end

text \<open>The increments the loop makes for a stage.\<close>

fun loop_metric :: "string \<Rightarrow> metric \<Rightarrow> bool" where
  "loop_metric st (n, vs) =
     (n = ''consumer_records_total'' \<and> vs \<in> {[st, ''processed''], [st, ''dlq''], [st, ''skipped'']} \<or>
      n = ''processing_errors_total'' \<and> vs \<in> {[st, ''transient''], [st, ''permanent'']} \<or>
      n = ''dlq_messages_total'' \<and> vs = [st])"

locale loop_effects = state_order R
  for R :: "('r, 'k, 'c) service \<Rightarrow> ('r, 'k, 'c) service \<Rightarrow> bool" +
  fixes E :: "('r, 'k, 'c) loop_env"
  assumes reads_event: "leads R is_set"
    and sleeps: "leads R (sleep t)"
    and consumes: "R s (s\<lparr>sv_consumer := c\<rparr>)"
    and resets: "R s (reset E s)"
    and dead_letters: "leads R (on_world (on_out (send_message (le_lib E) topic v k)))"
    and flushes: "leads R (on_world (on_out (flush_and_verify (le_lib E))))"
    and loop_counts: "loop_metric (stage (le_settings E)) x \<Longrightarrow> leads R (on_world (inc x))"
    and handles: "leads R (on_world (le_handler E ds))"
    and stops: "R s (stop_clients E s)"
begin

lemma on_consumer_leads: "leads R (on_consumer m)"
  using consumes by (auto simp: leads_def on_consumer_def split: prod.splits)

lemma on_world_incs: "list_all (loop_metric (stage (le_settings E))) xs \<Longrightarrow> leads R (on_world (incs xs))"
proof (induction xs)
  case Nil
  then show ?case by (simp add: leads_def on_world_def state_refl)
next
  case (Cons x xs)
  have "(on_world (incs (x # xs)) :: (('r, 'k, 'c) service, unit) action) = bindE (on_world (inc x)) (\<lambda>_. on_world (incs xs))"
    by (rule ext) (simp add: on_world_def inc_def bindE_def)
  moreover have "leads R (bindE (on_world (inc x)) (\<lambda>_. on_world (incs xs)))"
    using Cons by (intro leads_bindE loop_counts) (simp_all del: incs_run)
  ultimately show ?case by (simp only:)
qed

lemmas loop_intros = leads_intros reads_event sleeps on_consumer_leads dead_letters flushes

lemma leads_backoff: "leads R (backoff E batch delay)"
  unfolding backoff_def by (intro loop_intros loop_counts) simp

lemma leads_dlq: "leads R (send_to_dlq E re)"
  unfolding send_to_dlq_def by (cases re; cases "le_dlq_topic E") (auto intro!: loop_intros)

lemma leads_account: "leads R (account E processed dlq)"
  unfolding account_def Let_def by (rule on_world_incs) (auto simp: list_all_iff)

lemma leads_settle: "leads R (settle_batch E batch delay dlq processed)"
proof -
  let ?finish = "bindE (account E processed dlq) (\<lambda>_. ret (Some False))"
  let ?again = "\<lambda>e. if e = KafkaError then bindE (backoff E batch delay) (\<lambda>again. if again then ret (Some True) else ?finish)
    else raise_exn e"
  have finish: "leads R ?finish" by (intro loop_intros leads_account)
  have again: "leads R (?again e)" for e by (intro loop_intros leads_backoff leads_account)
  have flush: "leads R (\<lambda>s. case on_world (on_out (flush_and_verify (le_lib E))) s of (q, s') \<Rightarrow>
      (case q of
         Inr _ \<Rightarrow> ?finish s'
       | Inl e \<Rightarrow>
           (if e = KafkaError
            then bindE (backoff E batch delay) (\<lambda>again. if again then ret (Some True) else ?finish) s'
            else (Inl e, s'))))"
    by (rule leads_handled [OF flushes, where f = "\<lambda>_. ?finish" and g = ?again])
      (rule finish, rule again, auto simp: raise_exn_def split: prod.splits sum.splits)
  show ?thesis
    unfolding settle_batch_def Let_def by (intro loop_intros leads_dlq finish flush)
qed

lemma leads_attempt: "leads R (attempt E decoded poison delay)"
  unfolding leads_def
proof
  fix s
  obtain h w where h: "run_handler E decoded (sv_world (reset E s)) = (h, w)" by fastforce
  let ?s = "(reset E s)\<lparr>sv_world := w\<rparr>"
  have "R (reset E s) ?s"
  proof (cases "decoded = []")
    case True
    with h have "?s = reset E s" by (auto simp: run_handler_def)
    then show ?thesis using state_refl by metis
  next
    case False
    with h have "on_world (le_handler E (map to_decoded decoded)) (reset E s) = (h, ?s)"
      by (simp add: run_handler_def on_world_def)
    from leadsD [OF handles this] show ?thesis .
  qed
  with resets [of s] have "R s ?s" by (rule state_trans)
  moreover have "leads R (bindE (backoff E batch delay) (\<lambda>again. if again then ret (Some True)
      else settle_batch E batch delay dlq processed))" for batch dlq processed
    by (intro loop_intros leads_backoff leads_settle)
  ultimately show "R s (snd (attempt E decoded poison delay s))"
    unfolding attempt_unfold [OF h] Let_def
    using leads_settle by (auto simp: leads_def intro: state_trans)
qed

lemma leads_retry: "leads R (retry E decoded poison delay n)"
proof (induction n arbitrary: delay)
  case (Suc n)
  have "leads R (case x of None \<Rightarrow> ret None
      | Some again \<Rightarrow> if again then retry E decoded poison d n else ret (Some ()))" for x d
    using Suc by (cases x) (auto intro!: loop_intros)
  then show ?case unfolding retry.simps bindO_def by (intro loop_intros leads_attempt)
qed (auto intro: loop_intros)

lemma leads_batch: "leads R (handle_batch_with_retry E n records)"
proof (cases "classify records")
  case (fields decoded poison skipped)
  have "leads R (on_world (incs (replicate skipped (''consumer_records_total'', [stage (le_settings E), ''skipped'']))))"
    by (rule on_world_incs) (simp add: list_all_iff)
  then show ?thesis
    unfolding handle_batch_with_retry_def fields prod.case by (intro loop_intros leads_retry)
qed

lemma leads_commit: "leads R (commit E rs)"
  by (rule leads_handled [where m = "on_consumer (le_commit E (offsets_of rs))" and f = "\<lambda>x. ret x"
        and g = "\<lambda>e. if e = KafkaError then ret () else raise_exn e"])
    (auto simp: commit_def ret_def raise_exn_def split: prod.splits sum.splits intro!: loop_intros)

lemma leads_poll_loop: "leads R (poll_loop E n m)"
proof (induction m)
  case (Suc m)
  let ?poll = "on_consumer (le_poll E (settings_poll_timeout_ms (le_settings E)))"
  let ?after = "\<lambda>batch h. case h of None \<Rightarrow> ret None | Some _ \<Rightarrow> bindE (commit E (concat batch)) (\<lambda>_. poll_loop E n m)"
  let ?down = "\<lambda>e. if e = ShutdownRequested then ret (Some ()) else raise_exn e"
  let ?handle = "\<lambda>batch s. case handle_batch_with_retry E n (concat batch) s of (h, s'') \<Rightarrow>
        (case h of Inr x \<Rightarrow> ?after batch x s'' | Inl e \<Rightarrow> ?down e s'')"
  let ?batch = "\<lambda>batch. if batch = [] then poll_loop E n m else ?handle batch"
  let ?error = "\<lambda>e. if e = KafkaError then bindE (sleep (kafka_error_pause_seconds (le_settings E))) (\<lambda>_. poll_loop E n m)
      else raise_exn e"
  have after: "leads R (?after batch h)" for batch h
    using Suc by (cases h) (auto intro!: loop_intros leads_commit)
  have down: "leads R (?down e)" for e by (intro loop_intros)
  have "leads R (?handle batch)" for batch
    by (rule leads_handled [OF leads_batch after down, where k = "?handle batch"]) (rule refl)
  with Suc have batch: "leads R (?batch batch)" for batch by simp
  have error: "leads R (?error e)" for e using Suc by (intro loop_intros)
  have "leads R (\<lambda>s. case ?poll s of (q, s') \<Rightarrow> (case q of Inr b \<Rightarrow> ?batch b s' | Inl e \<Rightarrow> ?error e s'))"
    by (rule leads_handled [OF on_consumer_leads batch error]) simp
  then have "leads R (bindE is_set (\<lambda>down. if down then ret (Some ())
      else (\<lambda>s. case ?poll s of (q, s') \<Rightarrow> (case q of Inr b \<Rightarrow> ?batch b s' | Inl e \<Rightarrow> ?error e s'))))"
    by (intro loop_intros)
  moreover have "poll_loop E n (Suc m) = (bindE is_set (\<lambda>down. if down then ret (Some ())
      else (\<lambda>s. case ?poll s of (q, s') \<Rightarrow> (case q of Inr b \<Rightarrow> ?batch b s' | Inl e \<Rightarrow> ?error e s'))))"
    unfolding poll_loop.simps
    by (intro arg_cong [of _ _ "bindE is_set"] ext)
      (auto simp: ret_def raise_exn_def split: prod.splits sum.splits option.splits)
  ultimately show ?case by simp
qed (simp add: leads_ret)

theorem leads_consumer_loop: "leads R (run_consumer_loop E n m)"
  using leads_poll_loop [of n m] stops unfolding leads_def run_consumer_loop_def
  by (auto split: prod.splits) (metis snd_conv state_trans)+

end

end
