(* ===== verification/LoopTheorems.thy ===== *)
theory LoopTheorems
  imports ContainmentService LoopOrder
begin

text \<open>
  The guarantees of the consumer loop, for any handler under contract and for the containment engine,
  and a concrete Kafka consumer, the journal, which hands out given batches and writes down commits.
\<close>

subsection \<open>Handled means delivered\<close>

lemma classify_length:
  "classify records = (decoded, poison, skipped) \<Longrightarrow> length decoded + length poison + skipped = length records"
  by (induction records arbitrary: decoded poison skipped) (auto split: prod.splits sum.splits if_splits)

text \<open>The state after the records without a value were counted, in which the first attempt begins.\<close>

definition after_skips :: "('r, 'k, 'c) loop_env \<Rightarrow> nat \<Rightarrow> ('r, 'k, 'c) service \<Rightarrow> ('r, 'k, 'c) service" where
  "after_skips E skipped s = s\<lparr>sv_world := (sv_world s)\<lparr>w_metrics := w_metrics (sv_world s) @
     replicate skipped (records_counter, [stage (le_settings E), ''skipped''])\<rparr>\<rparr>"

lemma handle_batch_starts:
  assumes "classify records = (decoded, poison, skipped)"
  shows "handle_batch_with_retry E n records s =
      (if decoded = [] \<and> poison = [] then (Inr (Some ()), after_skips E skipped s)
       else retry E decoded poison (retry_initial_seconds (le_settings E)) n (after_skips E skipped s))"
  using assms by (simp add: handle_batch_with_retry_def after_skips_def bindE_def on_world_def ret_def)

lemma after_skips_state:
  "total (after_skips E skipped s) = total s + skipped" "sv_consumer (after_skips E skipped s) = sv_consumer s"
  "sv_slept (after_skips E skipped s) = sv_slept s"
proof -
  have "counted (replicate k (records_counter, l)) = k" for k l by (induction k) simp_all
  then show "total (after_skips E skipped s) = total s + skipped" "sv_consumer (after_skips E skipped s) = sv_consumer s"
    "sv_slept (after_skips E skipped s) = sv_slept s" by (simp_all add: after_skips_def)
qed

lemma handle_batch_unfold:
  assumes "classify records = (decoded, poison, skipped)"
  shows "\<exists>s1. handle_batch_with_retry E n records s =
      (if decoded = [] \<and> poison = [] then (Inr (Some ()), s1)
       else retry E decoded poison (retry_initial_seconds (le_settings E)) n s1) \<and>
    total s1 = total s + skipped \<and> sv_consumer s1 = sv_consumer s \<and> sv_slept s1 = sv_slept s"
  using handle_batch_starts [OF assms, of E n s] after_skips_state [of E skipped s]
  by (intro exI [of _ "after_skips E skipped s"]) simp

text \<open>
  The last attempt of a batch that was handled from \<open>s\<close> to \<open>s'\<close>: it is reached from the first by
  attempts that each asked for another, the handler finds the world \<open>w\<close>, and the attempt ends in \<open>s'\<close>.
\<close>

definition last_attempt ::
  "('r, 'k, 'c) loop_env \<Rightarrow> krecord list \<Rightarrow> ('r, 'k, 'c) service \<Rightarrow> ('r, 'k producer) world \<Rightarrow> ('r, 'k, 'c) service \<Rightarrow> bool" where
  "last_attempt E records s w s' \<longleftrightarrow>
     (case classify records of (decoded, poison, skipped) \<Rightarrow>
        \<exists>delay t. retried E decoded poison (retry_initial_seconds (le_settings E)) (after_skips E skipped s) delay t \<and>
          attempt E decoded poison delay t = (Inr (Some False), s') \<and> w = sv_world (reset E t))"

lemma batch_handler_durable:
  assumes "kafka_producer (le_lib E) delivered pending" and "batch_handler (le_lib E) (le_handler E) owed"
    and "le_producer E" and "le_dlq_topic E = Some t" and "t \<noteq> []"
    and "classify records = (decoded, poison, skipped)" and "decoded \<noteq> [] \<or> poison \<noteq> []"
    and "handle_batch_with_retry E n records s = (Inr (Some ()), s')"
  shows "\<exists>w0 h w1. last_attempt E records s w0 s' \<and> run_handler E decoded w0 = (h, w1) \<and> h \<noteq> Inr None \<and>
    (\<forall>e. h = Inl e \<longrightarrow> \<not> is_transient e) \<and>
    dlq_msg E t ` set (dead_of poison (map fst decoded) h) \<subseteq> set (delivered (p_client (prod_of s'))) \<and>
    (\<forall>fs. h = Inr (Some fs) \<longrightarrow> decoded \<noteq> [] \<longrightarrow> owed w0 (map to_decoded decoded) fs (set (delivered (p_client (prod_of s'))))) \<and>
    pending (p_client (prod_of s')) = []"
proof -
  have "retry E decoded poison (retry_initial_seconds (le_settings E)) n (after_skips E skipped s) = (Inr (Some ()), s')"
    using handle_batch_starts [OF assms(6), of E n s] assms(7,8) by (auto split: if_splits)
  from batch_handler.retry_last [OF assms(2) refl this]
  obtain s0 delay where way: "retried E decoded poison (retry_initial_seconds (le_settings E)) (after_skips E skipped s) delay s0"
    and att: "attempt E decoded poison delay s0 = (Inr (Some False), s')" by blast
  then have "last_attempt E records s (sv_world (reset E s0)) s'" by (auto simp: last_attempt_def assms(6))
  with batch_handler.attempt_delivers [OF assms(2) refl refl assms(1,3-5) att] show ?thesis by blast
qed

text \<open>
  (C8) A batch is reported as handled only when everything about it is durable: in its last attempt
  the handler came to an end without a transient failure, every message that run of it owes for the
  batch has been delivered, so has a dead letter for every record that could not be decoded or that
  failed, and nothing is left pending in the producer.
\<close>

theorem handled_batch_is_durable:
  assumes "kafka_producer (le_lib E) delivered pending" and "batch_handler (le_lib E) (le_handler E) owed"
    and "le_producer E" and "le_dlq_topic E = Some t" and "t \<noteq> []"
    and "classify records = (decoded, poison, skipped)" and "decoded \<noteq> [] \<or> poison \<noteq> []"
    and "handle_batch_with_retry E n records s = (Inr (Some ()), s')"
  shows "\<exists>w0 h w1. last_attempt E records s w0 s' \<and> run_handler E decoded w0 = (h, w1) \<and> h \<noteq> Inr None \<and>
    (\<forall>e. h = Inl e \<longrightarrow> \<not> is_transient e) \<and>
    dlq_msg E t ` set (dead_of poison (map fst decoded) h) \<subseteq> set (delivered (p_client (prod_of s'))) \<and>
    (\<forall>fs. h = Inr (Some fs) \<longrightarrow> decoded \<noteq> [] \<longrightarrow> owed w0 (map to_decoded decoded) fs (set (delivered (p_client (prod_of s'))))) \<and>
    pending (p_client (prod_of s')) = []"
  using batch_handler_durable [OF assms] .

lemma dlq_of_member:
  assumes "j < length rs" and "map_of fs j = Some e"
  shows "(rs ! j, e) \<in> set (dlq_of rs fs)"
proof -
  have "(j, rs ! j) \<in> set (enumerate 0 rs)" using assms(1) by (simp add: in_set_enumerate_eq)
  with assms(2) show ?thesis by (force simp: dlq_of_def List.map_filter_def image_iff)
qed

lemma classify_member:
  "classify records = (decoded, poison, skipped) \<Longrightarrow> r \<in> set records \<Longrightarrow> decode_json (r_value r) \<noteq> Inr JNull \<Longrightarrow>
   (\<exists>e. decode_json (r_value r) = Inl e \<and> (r, e) \<in> set poison) \<or>
   (\<exists>v. decode_json (r_value r) = Inr v \<and> (r, v) \<in> set decoded)"
  by (induction records arbitrary: decoded poison skipped) (auto split: prod.splits sum.splits if_splits)

lemma containment_engine_sel [simp]:
  "le_handler (containment_engine K kcfg rcfg rc mv fuel poll co now str) = per_record (containment_record K kcfg rcfg rc mv fuel)"
  "le_lib (containment_engine K kcfg rcfg rc mv fuel poll co now str) = K"
  "le_producer (containment_engine K kcfg rcfg rc mv fuel poll co now str)"
  "le_dlq_topic (containment_engine K kcfg rcfg rc mv fuel poll co now str) = Some (dlq_topic kcfg)"
  "le_poll (containment_engine K kcfg rcfg rc mv fuel poll co now str) = poll"
  "le_commit (containment_engine K kcfg rcfg rc mv fuel poll co now str) = co"
  by (simp_all add: containment_engine_def)

text \<open>
  The containment engine loses no record: when a batch is reported as handled, then for every
  record of it that carries a value, either the audit record of its detection or a dead letter with
  the record has been delivered.
\<close>

theorem containment_loses_nothing:
  assumes "kafka_producer K delivered pending" and "dlq_topic kcfg \<noteq> []"
    and "E = containment_engine K kcfg rcfg rc model_validate fuel poll commit_offsets now str"
    and "handle_batch_with_retry E n records s = (Inr (Some ()), s')"
    and "r \<in> set records" and "decode_json (r_value r) \<noteq> Inr JNull"
  shows "(\<exists>v d actions. decode_json (r_value r) = Inr v \<and> model_validate v = Inr d \<and>
        audit_msg kcfg d actions \<in> set (delivered (p_client (prod_of s')))) \<or>
    (\<exists>e. dlq_msg E (dlq_topic kcfg) (r, e) \<in> set (delivered (p_client (prod_of s'))))"
proof -
  obtain decoded poison skipped where cl: "classify records = (decoded, poison, skipped)" by (cases "classify records") auto
  note mem = classify_member [OF cl assms(5,6)]
  then have some: "decoded \<noteq> [] \<or> poison \<noteq> []" by auto
  have E: "le_lib E = K" "le_handler E = per_record (containment_record K kcfg rcfg rc model_validate fuel)"
    "le_producer E" "le_dlq_topic E = Some (dlq_topic kcfg)" by (simp_all add: assms(3))
  have bh: "batch_handler (le_lib E) (le_handler E) (\<lambda>_. all_owed (owes_audit kcfg model_validate) 0)"
    unfolding E by (rule containment.each.batch_handler_axioms)
  let ?D = "set (delivered (p_client (prod_of s')))"
  obtain w0 h w1 where run: "run_handler E decoded w0 = (h, w1)" "h \<noteq> Inr None"
    and dead: "dlq_msg E (dlq_topic kcfg) ` set (dead_of poison (map fst decoded) h) \<subseteq> ?D"
    and owed: "\<forall>fs. h = Inr (Some fs) \<longrightarrow> decoded \<noteq> [] \<longrightarrow>
      all_owed (owes_audit kcfg model_validate) 0 (map to_decoded decoded) fs ?D"
    using batch_handler_durable [OF assms(1) [folded E(1)] bh E(3,4) assms(2) cl some assms(4)] by blast
  have lettered: ?thesis if "(r, e) \<in> set (dead_of poison (map fst decoded) h)" for e
    using dead that by blast
  from mem show ?thesis
  proof (elim disjE exE conjE)
    fix e
    assume "(r, e) \<in> set poison"
    then show ?thesis by (intro lettered [of e]) (cases "(poison, map fst decoded, h)" rule: dead_of.cases; auto)
  next
    fix v
    assume v: "decode_json (r_value r) = Inr v" "(r, v) \<in> set decoded"
    then obtain j where j: "j < length decoded" "decoded ! j = (r, v)" by (auto simp: in_set_conv_nth)
    show ?thesis
    proof (cases h)
      case (Inl e)
      with v show ?thesis by (intro lettered [of e]) force
    next
      case (Inr x)
      with run obtain fs where h: "h = Inr (Some fs)" by (cases x) auto
      show ?thesis
      proof (cases "map_of fs j")
        case (Some e)
        from dlq_of_member [of j "map fst decoded" fs e] Some j h show ?thesis by (intro lettered [of e]) simp
      next
        case None
        with owed h j have "owes_audit kcfg model_validate (to_decoded (r, v)) ?D"
          by (auto simp: all_owed_def)
        with v show ?thesis by (auto simp: owes_audit_def to_decoded_def)
      qed
    qed
  qed
qed

subsection \<open>Counting and waiting\<close>

lemma handle_batch_total:
  assumes bh: "batch_handler K (le_handler E) owed"
    and cl: "classify records = (decoded, poison, skipped)"
    and run: "handle_batch_with_retry E n records s = (q, s')"
  shows "total s' = total s + (if q = Inr (Some ()) then length records else skipped) \<and> sv_consumer s' = sv_consumer s"
proof -
  obtain s1 where s1: "handle_batch_with_retry E n records s =
      (if decoded = [] \<and> poison = [] then (Inr (Some ()), s1)
       else retry E decoded poison (retry_initial_seconds (le_settings E)) n s1)"
    "total s1 = total s + skipped" "sv_consumer s1 = sv_consumer s"
    using handle_batch_unfold [OF cl, of E n s] by blast
  show ?thesis
  proof (cases "decoded = [] \<and> poison = []")
    case True
    with s1 run classify_length [OF cl] show ?thesis by auto
  next
    case False
    with s1 run have "retry E decoded poison (retry_initial_seconds (le_settings E)) n s1 = (q, s')" by simp
    from batch_handler.retry_total [OF bh refl this] s1 classify_length [OF cl] show ?thesis by auto
  qed
qed

text \<open>
  Every record is counted exactly once however often its batch is retried: when a batch is
  reported as handled, the counter of consumed records has gone up by the number of its records,
  the skipped, the processed and the dead-lettered ones together; when the batch is abandoned (by an
  exception, for example at shutdown) only the skipped records were counted. In no case is the
  consumer touched.
\<close>

theorem records_counted_once:
  assumes "batch_handler K (le_handler E) owed"
    and "classify records = (decoded, poison, skipped)"
    and "handle_batch_with_retry E n records s = (q, s')"
  shows "total s' = total s + (if q = Inr (Some ()) then length records else skipped) \<and> sv_consumer s' = sv_consumer s"
  by (rule handle_batch_total [OF assms])

text \<open>
  (C39) The waits between the attempts of a handled batch double from the initial delay up to the
  maximum: the \<open>i\<close>-th wait, from 0, is the minimum of the maximal delay and the initial delay times
  \<open>2 ^ i\<close>, and there are fewer waits than attempts.
\<close>

theorem retry_delays:
  assumes "batch_handler K (le_handler E) owed"
    and "0 \<le> retry_initial_seconds (le_settings E)"
    and "retry_initial_seconds (le_settings E) \<le> retry_max_seconds (le_settings E)"
    and "handle_batch_with_retry E n records s = (Inr (Some ()), s')"
  shows "\<exists>k\<le>n. sv_slept s' = sv_slept s @
    map (\<lambda>i. min (retry_initial_seconds (le_settings E) * 2 ^ i) (retry_max_seconds (le_settings E))) [0..<k]"
proof -
  obtain decoded poison skipped where cl: "classify records = (decoded, poison, skipped)" by (cases "classify records") auto
  obtain s1 where s1: "handle_batch_with_retry E n records s =
      (if decoded = [] \<and> poison = [] then (Inr (Some ()), s1)
       else retry E decoded poison (retry_initial_seconds (le_settings E)) n s1)" "sv_slept s1 = sv_slept s"
    using handle_batch_unfold [OF cl, of E n s] by blast
  show ?thesis
  proof (cases "decoded = [] \<and> poison = []")
    case True
    with s1 assms(4) show ?thesis by (intro exI [of _ 0]) simp
  next
    case False
    with s1 assms(4) have "retry E decoded poison (retry_initial_seconds (le_settings E)) n s1 = (Inr (Some ()), s')" by simp
    from batch_handler.retry_slept [OF assms(1) refl this assms(2,3)] s1(2) show ?thesis by (auto intro: less_imp_le)
  qed
qed

subsection \<open>Commits\<close>

record journal =
  j_polls :: "(exn + krecord list list) list"
  j_refusals :: "bool list"
  j_commits :: "(((string \<times> int) \<times> int) list \<times> bool) list"

definition journal_poll :: "int \<Rightarrow> (journal, krecord list list) action" where
  "journal_poll timeout j = (case j_polls j of [] \<Rightarrow> (Inr [], j) | p # ps \<Rightarrow> (p, j\<lparr>j_polls := ps\<rparr>))"

definition journal_commit :: "((string \<times> int) \<times> int) list \<Rightarrow> (journal, unit) action" where
  "journal_commit offsets j =
     (let refused = (j_refusals j \<noteq> [] \<and> hd (j_refusals j))
      in (if refused then Inl KafkaError else Inr (),
          j\<lparr>j_refusals := tl (j_refusals j), j_commits := j_commits j @ [(offsets, \<not> refused)]\<rparr>))"

definition batches :: "(exn + krecord list list) list \<Rightarrow> krecord list list" where
  "batches ps = List.map_filter (\<lambda>p. case p of Inr b \<Rightarrow> (if b = [] then None else Some (concat b)) | Inl _ \<Rightarrow> None) ps"

lemma batches_simps [simp]:
  "batches [] = []" "batches (Inl e # ps) = batches ps"
  "batches (Inr b # ps) = (if b = [] then batches ps else concat b # batches ps)"
  by (simp_all add: batches_def List.map_filter_def)

lemma commit_journal:
  assumes "le_commit E = journal_commit"
  shows "\<exists>t. commit E records s = (Inr (), t) \<and> sv_world t = sv_world s \<and>
    j_polls (sv_consumer t) = j_polls (sv_consumer s) \<and>
    map fst (j_commits (sv_consumer t)) = map fst (j_commits (sv_consumer s)) @ [offsets_of records]"
  by (simp add: commit_def on_consumer_def journal_commit_def assms Let_def)

text \<open>
  \<open>arrives E n s b t\<close>: the loop, entered in \<open>s\<close>, comes to handle the batch \<open>b\<close> in the state \<open>t\<close>, after rounds
  in which the poll failed or returned nothing, or in which an earlier batch was handled and committed.
\<close>

inductive arrives ::
  "('r, 'k, 'c) loop_env \<Rightarrow> nat \<Rightarrow> ('r, 'k, 'c) service \<Rightarrow> krecord list \<Rightarrow> ('r, 'k, 'c) service \<Rightarrow> bool" for E n where
  polled: "is_set s = (Inr False, s0) \<Longrightarrow>
    on_consumer (le_poll E (settings_poll_timeout_ms (le_settings E))) s0 = (Inr batch, t) \<Longrightarrow> batch \<noteq> [] \<Longrightarrow>
    arrives E n s (concat batch) t"
| paused: "is_set s = (Inr False, s0) \<Longrightarrow>
    on_consumer (le_poll E (settings_poll_timeout_ms (le_settings E))) s0 = (Inl KafkaError, s1) \<Longrightarrow>
    arrives E n (snd (sleep (kafka_error_pause_seconds (le_settings E)) s1)) b t \<Longrightarrow> arrives E n s b t"
| idle: "is_set s = (Inr False, s0) \<Longrightarrow>
    on_consumer (le_poll E (settings_poll_timeout_ms (le_settings E))) s0 = (Inr [], s1) \<Longrightarrow>
    arrives E n s1 b t \<Longrightarrow> arrives E n s b t"
| later: "arrives E n s b' s1 \<Longrightarrow> handle_batch_with_retry E n b' s1 = (Inr (Some ()), s2) \<Longrightarrow>
    commit E b' s2 = (Inr (), s3) \<Longrightarrow> arrives E n s3 b t \<Longrightarrow> arrives E n s b t"

text \<open>
  What a run of the loop has committed, with the batches still to be polled in between. Each of the
  batches was handled in the state in which it arrived, and what has happened to the service since is
  along the order \<open>R\<close>.
\<close>

definition committed ::
  "(('r, 'k, journal) service \<Rightarrow> ('r, 'k, journal) service \<Rightarrow> bool) \<Rightarrow> ('r, 'k, journal) loop_env \<Rightarrow> nat \<Rightarrow> ('r, 'k, journal) service \<Rightarrow> ('r, 'k, journal) service \<Rightarrow> krecord list list \<Rightarrow> bool" where
  "committed R E n s s' bs \<longleftrightarrow>
     map fst (j_commits (sv_consumer s')) = map fst (j_commits (sv_consumer s)) @ map offsets_of bs \<and>
     prefix bs (batches (j_polls (sv_consumer s))) \<and>
     total s + length (concat bs) \<le> total s' \<and>
     (\<forall>b\<in>set bs. \<exists>t t'. arrives E n s b t \<and> handle_batch_with_retry E n b t = (Inr (Some ()), t') \<and> R t' s')"

lemma committed_none:
  "j_commits (sv_consumer s') = j_commits (sv_consumer s) \<Longrightarrow> total s \<le> total s' \<Longrightarrow> committed R E n s s' []"
  by (simp add: committed_def)

lemma committed_later:
  assumes "committed R E n t s' bs" and "j_commits (sv_consumer t) = j_commits (sv_consumer s)"
    and "batches (j_polls (sv_consumer t)) = batches (j_polls (sv_consumer s))" and "total s \<le> total t"
    and "\<And>b u. arrives E n t b u \<Longrightarrow> arrives E n s b u"
  shows "committed R E n s s' bs"
proof -
  have "\<exists>u u'. arrives E n s b u \<and> handle_batch_with_retry E n b u = (Inr (Some ()), u') \<and> R u' s'" if "b \<in> set bs" for b
    using assms(1,5) that unfolding committed_def by blast
  with assms(1-4) show ?thesis unfolding committed_def by simp
qed

lemma committed_first:
  assumes "handle_batch_with_retry E n b s1 = (Inr (Some ()), s2)" and "committed R E n s3 s' bs"
    and "map fst (j_commits (sv_consumer s3)) = map fst (j_commits (sv_consumer s)) @ [offsets_of b]"
    and "batches (j_polls (sv_consumer s)) = b # batches (j_polls (sv_consumer s3))"
    and "total s + length b \<le> total s3" and "R s2 s'" and "arrives E n s b s1" and "commit E b s2 = (Inr (), s3)"
  shows "\<exists>bs. committed R E n s s' bs"
proof -
  have "arrives E n s b' t" if "arrives E n s3 b' t" for b' t by (rule arrives.later [OF assms(7,1,8) that])
  with assms show ?thesis by (intro exI [of _ "b # bs"]) (auto simp: committed_def, blast+)
qed

text \<open>A round of the loop that handles a batch, given what the remaining rounds commit.\<close>

lemma batch_round:
  assumes loop: "loop_effects R E" and bh: "batch_handler K (le_handler E) owed" and j: "le_commit E = journal_commit"
    and run: "(case handle_batch_with_retry E n b s1 of (h, s2) \<Rightarrow>
        (case h of
           Inl e \<Rightarrow> (if e = ShutdownRequested then (Inr (Some ()), s2) else (Inl e, s2))
         | Inr None \<Rightarrow> (Inr None, s2)
         | Inr (Some _) \<Rightarrow> bindE (commit E b) (\<lambda>_. poll_loop E n m) s2)) = (q, s')"
    and rest: "\<And>t. poll_loop E n m t = (q, s') \<Longrightarrow> \<exists>bs. committed R E n t s' bs"
    and s1: "sv_world s1 = sv_world s" "j_commits (sv_consumer s1) = j_commits (sv_consumer s)"
      "batches (j_polls (sv_consumer s)) = b # batches (j_polls (sv_consumer s1))" "arrives E n s b s1"
  shows "\<exists>bs. committed R E n s s' bs"
proof -
  obtain h s2 where hb: "handle_batch_with_retry E n b s1 = (h, s2)" by fastforce
  obtain decoded poison skipped where cl: "classify b = (decoded, poison, skipped)" by (cases "classify b") auto
  note s2 = handle_batch_total [OF bh cl hb]
  show ?thesis
  proof (cases "h = Inr (Some ())")
    case True
    obtain s3 where com: "commit E b s2 = (Inr (), s3)" "sv_world s3 = sv_world s2"
      "j_polls (sv_consumer s3) = j_polls (sv_consumer s2)"
      "map fst (j_commits (sv_consumer s3)) = map fst (j_commits (sv_consumer s2)) @ [offsets_of b]"
      using commit_journal [OF j] by blast
    with run hb True have go: "poll_loop E n m s3 = (q, s')" by (simp add: bindE_def)
    from leadsD [OF loop_effects.leads_commit [OF loop] com(1)] leadsD [OF loop_effects.leads_poll_loop [OF loop] go]
    have since: "R s2 s'" by (rule state_order.state_trans [OF loop_effects.axioms(1) [OF loop]])
    from rest [OF go] obtain bs where "committed R E n s3 s' bs" by blast
    from committed_first [OF hb [unfolded True] this _ _ _ since s1(4) com(1)] com s1 s2 True show ?thesis by auto
  next
    case False
    with run hb have "s' = s2" by (auto split: sum.splits option.splits if_splits)
    with s1 s2 show ?thesis by (intro exI [of _ "[]"] committed_none) auto
  qed
qed

lemma poll_loop_commits:
  assumes loop: "loop_effects R E" and bh: "batch_handler K (le_handler E) owed" and j: "le_poll E = journal_poll" "le_commit E = journal_commit"
  shows "poll_loop E n m s = (q, s') \<Longrightarrow> \<exists>bs. committed R E n s s' bs"
proof (induction m arbitrary: s q)
  case 0
  then show ?case by (auto simp: ret_def intro: committed_none)
next
  case (Suc m)
  obtain down s0 where down: "is_set s = (Inr down, s0)" using is_set_bool by (metis prod.collapse)
  note s0 = is_set_service [of s, unfolded down snd_conv]
  show ?case
  proof (cases down)
    case True
    with Suc.prems down s0 show ?thesis by (auto simp: bindE_def ret_def intro!: exI [of _ "[]"] committed_none)
  next
    case False
    with down have up: "is_set s = (Inr False, s0)" by simp
    obtain p s1 where poll: "on_consumer (le_poll E (settings_poll_timeout_ms (le_settings E))) s0 = (p, s1)"
      by (cases "on_consumer (le_poll E (settings_poll_timeout_ms (le_settings E))) s0")
    have s1: "sv_world s1 = sv_world s" "j_commits (sv_consumer s1) = j_commits (sv_consumer s)"
      "batches (p # j_polls (sv_consumer s1)) = batches (j_polls (sv_consumer s)) \<or>
       p = Inr [] \<and> j_polls (sv_consumer s1) = j_polls (sv_consumer s)"
      using poll s0 by (auto simp: on_consumer_def j journal_poll_def split: list.splits)
    note run = Suc.prems [unfolded poll_loop.simps bindE_def [of is_set] down prod.case sum.case, simplified False if_False poll prod.case]
    show ?thesis
    proof (cases p)
      case (Inl e)
      show ?thesis
      proof (cases "e = KafkaError")
        case True
        with run Inl have "poll_loop E n m (snd (sleep (kafka_error_pause_seconds (le_settings E)) s1)) = (q, s')"
          by (simp add: bindE_def sleep_def)
        from Suc.IH [OF this] obtain bs where
          "committed R E n (snd (sleep (kafka_error_pause_seconds (le_settings E)) s1)) s' bs" by blast
        from committed_later [OF this, of s] s1 Inl arrives.paused [OF up poll [unfolded Inl True]]
        show ?thesis by (auto simp: sleep_def)
      next
        case False
        with run Inl s1 show ?thesis by (auto intro!: exI [of _ "[]"] committed_none)
      qed
    next
      case (Inr batch)
      show ?thesis
      proof (cases "batch = []")
        case True
        with run Inr have "poll_loop E n m s1 = (q, s')" by simp
        from Suc.IH [OF this] obtain bs where "committed R E n s1 s' bs" by blast
        from committed_later [OF this, of s] s1 Inr True arrives.idle [OF up poll [unfolded Inr True]]
        show ?thesis by auto
      next
        case False
        with run Inr have "(case handle_batch_with_retry E n (concat batch) s1 of (h, s2) \<Rightarrow>
            (case h of
               Inl e \<Rightarrow> (if e = ShutdownRequested then (Inr (Some ()), s2) else (Inl e, s2))
             | Inr None \<Rightarrow> (Inr None, s2)
             | Inr (Some _) \<Rightarrow> bindE (commit E (concat batch)) (\<lambda>_. poll_loop E n m) s2)) = (q, s')" by simp
        from batch_round [OF loop bh j(2) this Suc.IH, where s = s] s1 Inr False
          arrives.polled [OF up poll [unfolded Inr]] show ?thesis by auto
      qed
    qed
  qed
qed

text \<open>Nothing need be known of what happens after a batch was handled.\<close>

lemma loop_effects_any: "loop_effects (\<lambda>_ _. True) E"
  by unfold_locales (simp_all add: leads_def)

lemma consumer_loop_commits:
  assumes "loop_effects R E" and "batch_handler K (le_handler E) owed" and "le_poll E = journal_poll" and "le_commit E = journal_commit"
    and "run_consumer_loop E n m s = (q, s')"
  shows "\<exists>bs. committed R E n s s' bs"
proof -
  obtain s1 where p: "poll_loop E n m s = (q, s1)" and s': "s' = s1 \<or> s' = stop_clients E s1"
    using assms(5) by (auto simp: run_consumer_loop_def split: prod.splits if_splits)
  from poll_loop_commits [OF assms(1-4) p] obtain bs where bs: "committed R E n s s1 bs" by blast
  have "R s1 s'"
    using s' loop_effects.stops [OF assms(1)] state_order.state_refl [OF loop_effects.axioms(1) [OF assms(1)]] by blast
  then have since: "R t s'" if "R t s1" for t
    using that state_order.state_trans [OF loop_effects.axioms(1) [OF assms(1)]] by blast
  have "sv_consumer s' = sv_consumer s1" "total s' = total s1"
    using s' by (auto simp: stop_clients_def Let_def)
  with bs since have "committed R E n s s' bs" unfolding committed_def by metis
  then show ?thesis by blast
qed

text \<open>
  Offsets are committed only for handled batches, in order and without gaps: in any run of the
  consumer loop, however it ends, the commit calls are for exactly the offsets of a prefix of the
  polled batches, each batch once and in the order it was polled; each of these batches had been
  handled; and at least as many records have been counted as the committed batches hold.
\<close>

theorem commits_follow_handling:
  assumes "batch_handler K (le_handler E) owed" and "le_poll E = journal_poll" and "le_commit E = journal_commit"
    and "run_consumer_loop E n m s = (q, s')"
  shows "\<exists>bs. map fst (j_commits (sv_consumer s')) = map fst (j_commits (sv_consumer s)) @ map offsets_of bs \<and>
    prefix bs (batches (j_polls (sv_consumer s))) \<and>
    total s + length (concat bs) \<le> total s' \<and>
    (\<forall>b\<in>set bs. \<exists>t t'. arrives E n s b t \<and> handle_batch_with_retry E n b t = (Inr (Some ()), t'))"
proof -
  from consumer_loop_commits [OF loop_effects_any assms] obtain bs where "committed (\<lambda>_ _. True) E n s s' bs" by blast
  then show ?thesis by (intro exI [of _ bs]) (auto simp: committed_def)
qed

text \<open>
  The offset committed for a partition is one past the last record of the batch, so nothing is
  skipped and nothing but the batch is passed: where the records of each partition come in ascending
  order of offsets, as a poll returns them, the offset committed for a partition is one more than the
  largest offset among its records, and partitions without records are not committed.
\<close>

theorem committed_offset_is_next:
  assumes "sorted_wrt (\<lambda>a b. (r_topic a, r_partition a) = (r_topic b, r_partition b) \<longrightarrow> r_offset a \<le> r_offset b) records"
  shows "map_of (offsets_of records) tp =
    (if \<exists>r\<in>set records. (r_topic r, r_partition r) = tp
     then Some (Max (r_offset ` {r \<in> set records. (r_topic r, r_partition r) = tp}) + 1) else None)"
  using assms
proof (induction records rule: rev_induct)
  case Nil
  then show ?case by (simp add: offsets_of_def)
next
  case (snoc r rs)
  have step: "map_of (offsets_of (rs @ [r])) tp =
      (if tp = (r_topic r, r_partition r) then Some (r_offset r + 1) else map_of (offsets_of rs) tp)"
    by (simp add: offsets_of_def update_conv')
  show ?case
  proof (cases "tp = (r_topic r, r_partition r)")
    case True
    have "Max (r_offset ` {x \<in> set (rs @ [r]). (r_topic x, r_partition x) = tp}) = r_offset r"
      using snoc.prems True by (intro Max_eqI) (auto simp: sorted_wrt_append)
    with step True show ?thesis by auto
  next
    case False
    then have "{x \<in> set (rs @ [r]). (r_topic x, r_partition x) = tp} = {x \<in> set rs. (r_topic x, r_partition x) = tp}"
      by auto
    with step False snoc show ?thesis by (auto simp: sorted_wrt_append)
  qed
qed

subsection \<open>A run of the containment engine\<close>

definition sample_record :: "int \<Rightarrow> string option \<Rightarrow> krecord" where
  "sample_record off v = \<lparr>r_topic = ''detections'', r_partition = 0, r_offset = off, r_key = None, r_value = v\<rparr>"

definition sample_batch :: "krecord list" where
  "sample_batch = [sample_record 7 (Some ''{}''), sample_record 8 (Some ''x''), sample_record 9 None]"

definition sample_engine :: "(conn, ledger, journal) loop_env" where
  "sample_engine = containment_engine ledger_lib default_kafka_config default_redis_config redis_step
     (\<lambda>_. Inr (sample_detection ''d1'' ''u'')) 1 journal_poll journal_commit ''now'' (\<lambda>_. [])"

definition sample_service :: "(conn, ledger, journal) service" where
  "sample_service = \<lparr>sv_world = \<lparr>w_redis = empty_conn, w_out = empty_ledger, w_metrics = []\<rparr>,
     sv_consumer = \<lparr>j_polls = [Inr [sample_batch]], j_refusals = [], j_commits = []\<rparr>,
     sv_until = Some 1, sv_slept = [], sv_closed = False\<rparr>"

lemma sample_decode:
  "decode_json (Some ''{}'') = Inr (JObj [])" "decode_json (Some ''x'') = Inl (ValueError ''undecodable record value'')"
  by code_simp+

lemma sample_classify:
  "classify sample_batch = ([(sample_record 7 (Some ''{}''), JObj [])],
     [(sample_record 8 (Some ''x''), ValueError ''undecodable record value'')], 1)"
  by (simp add: sample_batch_def sample_record_def sample_decode decode_json_def [of None])

lemmas loop_simps =
  handle_batch_with_retry_def attempt_def settle_batch_def account_def backoff_def send_to_dlq_def
  on_world_def on_out_def on_redis_def on_consumer_def bindO_def sleep_def is_set_def send_message_def
  flush_and_verify_def reset_send_errors_def called_back_def on_error_def ledger_lib_def inc_def per_record_def
  containment_record_def containment_handle_record_def containment_pipeline_def handle_detection_def
  dlq_of_def processed_of_def List.map_filter_def emit_audit_record default_settings_def Let_def

lemmas sample_simps =
  sample_engine_def containment_engine_def sample_service_def empty_ledger_def empty_conn_def
  default_redis_config_def default_kafka_config_def is_transient_def sample_detection_def to_decoded_def

text \<open>The same service with a broker that refuses the first message.\<close>

definition refusing_service :: "(conn, ledger, journal) service" where
  "refusing_service = sample_service\<lparr>sv_until := None,
     sv_world := (sv_world sample_service)\<lparr>w_out := empty_ledger\<lparr>p_client :=
       \<lparr>l_delivered = [], l_pending = [], l_fates = [False]\<rparr>\<rparr>\<rparr>\<rparr>"

lemma sample_handled:
  "\<exists>s'. handle_batch_with_retry sample_engine 2 sample_batch sample_service = (Inr (Some ()), s')"
  unfolding handle_batch_with_retry_def sample_classify by (simp add: sample_simps loop_simps run_simps)

lemma refused_handled:
  "\<exists>s'. handle_batch_with_retry sample_engine 2 sample_batch refusing_service = (Inr (Some ()), s') \<and> sv_slept s' = [1 / 2]"
  unfolding handle_batch_with_retry_def sample_classify
  by (simp add: refusing_service_def sample_simps loop_simps run_simps load_quarantine [unfolded sample_detection_def])

lemma sample_handler:
  "batch_handler ledger_lib (le_handler sample_engine)
     (\<lambda>_. all_owed (owes_audit default_kafka_config (\<lambda>_. Inr (sample_detection ''d1'' ''u''))) 0)"
  unfolding sample_engine_def containment_engine_sel by (rule containment.each.batch_handler_axioms)

theorem handled_batch_is_durable_witness:
  "\<exists>s'. handle_batch_with_retry sample_engine 2 sample_batch sample_service = (Inr (Some ()), s') \<and>
     dlq_msg sample_engine ''rtace-dlq'' (sample_record 8 (Some ''x''), ValueError ''undecodable record value'')
       \<in> set (l_delivered (p_client (prod_of s')))"
proof -
  obtain s' where run: "handle_batch_with_retry sample_engine 2 sample_batch sample_service = (Inr (Some ()), s')"
    using sample_handled by blast
  have E: "le_lib sample_engine = ledger_lib" "le_producer sample_engine"
    "le_dlq_topic sample_engine = Some ''rtace-dlq''" "''rtace-dlq'' \<noteq> []"
    by (simp_all add: sample_engine_def default_kafka_config_def)
  from handled_batch_is_durable [OF _ _ E(2-4) sample_classify _ run, of l_delivered l_pending]
  obtain h where "dlq_msg sample_engine ''rtace-dlq'' ` set (dead_of
      [(sample_record 8 (Some ''x''), ValueError ''undecodable record value'')] [sample_record 7 (Some ''{}'')] h)
      \<subseteq> set (l_delivered (p_client (prod_of s')))"
    using ledger.kafka_producer_axioms sample_handler unfolding E(1) by fastforce
  moreover have "(sample_record 8 (Some ''x''), ValueError ''undecodable record value'') \<in> set (dead_of
      [(sample_record 8 (Some ''x''), ValueError ''undecodable record value'')] [sample_record 7 (Some ''{}'')] h)"
    by (cases "([(sample_record 8 (Some ''x''), ValueError ''undecodable record value'')], [sample_record 7 (Some ''{}'')], h)"
        rule: dead_of.cases) auto
  ultimately show ?thesis using run by blast
qed

theorem containment_loses_nothing_witness:
  "\<exists>s'. handle_batch_with_retry sample_engine 2 sample_batch sample_service = (Inr (Some ()), s') \<and>
     ((\<exists>actions. audit_msg default_kafka_config (sample_detection ''d1'' ''u'') actions \<in> set (l_delivered (p_client (prod_of s')))) \<or>
      (\<exists>e. dlq_msg sample_engine ''rtace-dlq'' (sample_record 7 (Some ''{}''), e) \<in> set (l_delivered (p_client (prod_of s')))))"
proof -
  obtain s' where run: "handle_batch_with_retry sample_engine 2 sample_batch sample_service = (Inr (Some ()), s')"
    using sample_handled by blast
  have "dlq_topic default_kafka_config \<noteq> []" "sample_record 7 (Some ''{}'') \<in> set sample_batch"
    "decode_json (r_value (sample_record 7 (Some ''{}''))) \<noteq> Inr JNull" "dlq_topic default_kafka_config = ''rtace-dlq''"
    by (simp_all add: default_kafka_config_def sample_batch_def sample_record_def sample_decode)
  with containment_loses_nothing [OF ledger.kafka_producer_axioms _ sample_engine_def run] run show ?thesis by auto
qed

theorem records_counted_once_witness:
  "\<exists>s'. handle_batch_with_retry sample_engine 2 sample_batch refusing_service = (Inr (Some ()), s') \<and> total s' = 3"
proof -
  obtain s' where run: "handle_batch_with_retry sample_engine 2 sample_batch refusing_service = (Inr (Some ()), s')"
    using refused_handled by blast
  from records_counted_once [OF sample_handler sample_classify run] run show ?thesis
    by (simp add: sample_batch_def refusing_service_def sample_service_def)
qed

theorem retry_delays_witness:
  "\<exists>s' k. handle_batch_with_retry sample_engine 2 sample_batch refusing_service = (Inr (Some ()), s') \<and>
     sv_slept s' = [1 / 2] \<and> sv_slept s' = map (\<lambda>i. min (1 / 2 * 2 ^ i) 30) [0..<k]"
proof -
  obtain s' where run: "handle_batch_with_retry sample_engine 2 sample_batch refusing_service = (Inr (Some ()), s')"
    and slept: "sv_slept s' = [1 / 2]"
    using refused_handled by blast
  have E: "retry_initial_seconds (le_settings sample_engine) = 1 / 2" "retry_max_seconds (le_settings sample_engine) = 30"
    by (simp_all add: sample_engine_def containment_engine_def default_settings_def)
  from retry_delays [OF sample_handler _ _ run, unfolded E] obtain k where
    "sv_slept s' = sv_slept refusing_service @ map (\<lambda>i. min (1 / 2 * 2 ^ i) 30) [0..<k]" by auto
  moreover have "sv_slept refusing_service = []" by (simp add: refusing_service_def sample_service_def)
  ultimately show ?thesis using run slept by (metis append_Nil)
qed

theorem commits_follow_handling_witness:
  "\<exists>bs q s'. run_consumer_loop sample_engine 2 3 sample_service = (q, s') \<and>
     map fst (j_commits (sv_consumer s')) = map offsets_of bs \<and> prefix bs [sample_batch]"
proof -
  obtain q s' where run: "run_consumer_loop sample_engine 2 3 sample_service = (q, s')"
    by (cases "run_consumer_loop sample_engine 2 3 sample_service")
  have "le_poll sample_engine = journal_poll" "le_commit sample_engine = journal_commit"
    by (simp_all add: sample_engine_def)
  from commits_follow_handling [OF sample_handler this run] run show ?thesis
    by (auto simp: sample_service_def)
qed

theorem committed_offset_is_next_witness:
  "map_of (offsets_of sample_batch) (''detections'', 0) = Some 10"
proof -
  have "{r \<in> set sample_batch. (r_topic r, r_partition r) = (''detections'', 0)} = set sample_batch"
    "r_offset ` set sample_batch = {7, 8, 9}"
    by (auto simp: sample_batch_def sample_record_def)
  moreover have "\<exists>r\<in>set sample_batch. (r_topic r, r_partition r) = (''detections'', 0)"
    by (simp add: sample_batch_def sample_record_def)
  ultimately show ?thesis
    using committed_offset_is_next [of sample_batch "(''detections'', 0)"]
    by (simp add: sample_batch_def sample_record_def)
qed

end
