(* ===== verification/DetectionTheorems.thy ===== *)
theory DetectionTheorems
  imports DetectionService LoopTheorems
begin

text \<open>
  The detection engine as a whole: detections are delivered before input is committed, cooldowns are
  given back when delivery fails, and two circumstances under which a retried batch does lose a
  detection.
\<close>

subsection \<open>Nothing is committed undelivered\<close>

lemma detection_engine_sel [simp]:
  "le_handler (detection_engine K dump P poll co now str) = detection_handler K (detection_pipeline K dump P)"
  "le_lib (detection_engine K dump P poll co now str) = K"
  "le_producer (detection_engine K dump P poll co now str)"
  "le_dlq_topic (detection_engine K dump P poll co now str) = Some (dlq_topic (dp_kafka_config P))"
  by (simp_all add: detection_engine_def)

text \<open>
  What is settled for the decoded records of a batch by a run of the handler that found the world \<open>w\<close>:
  when the handler returned, every detection the pipeline emitted and a dead letter for every record
  it found invalid are among the messages \<open>D\<close>; when it raised an error that no retry would mend, a
  dead letter with that error for every record.
\<close>

definition batch_settled ::
  "'k kafka_lib \<Rightarrow> (DetectionEvent \<Rightarrow> json) \<Rightarrow> ('r, 'k producer) DetectionPipeline \<Rightarrow> (krecord \<times> exn \<Rightarrow> kafka_msg) \<Rightarrow>
   kafka_msg set \<Rightarrow> (krecord \<times> json) list \<Rightarrow> ('r, 'k producer) world \<Rightarrow> bool" where
  "batch_settled K model_dump P letter D decoded w \<longleftrightarrow>
     (case fst (detection_handler K (detection_pipeline K model_dump P) (map to_decoded decoded) w) of
        Inl e \<Rightarrow> \<not> is_transient e \<and> (\<forall>rv\<in>set decoded. letter (fst rv, e) \<in> D)
      | Inr None \<Rightarrow> False
      | Inr (Some fs) \<Rightarrow> owes_detections K model_dump P w (map to_decoded decoded) fs D \<and>
          (\<forall>j<length decoded. \<forall>e. map_of fs j = Some e \<longrightarrow> letter (fst (decoded ! j), e) \<in> D))"

text \<open>
  The detection engine delivers before it commits: when a batch is reported as handled, every record
  that could not be decoded has a delivered dead letter, and the others are settled as the run of the
  handler in the last attempt found them.
\<close>

lemma detections_delivered_first:
  assumes "kafka_producer K delivered pending" and "dlq_topic (dp_kafka_config P) \<noteq> []"
    and "E = detection_engine K model_dump P poll commit_offsets now str"
    and "classify records = (decoded, poison, skipped)" and "decoded \<noteq> [] \<or> poison \<noteq> []"
    and "handle_batch_with_retry E n records s = (Inr (Some ()), s')"
    and "D = set (delivered (p_client (prod_of s')))" and "letter = dlq_msg E (dlq_topic (dp_kafka_config P))"
  shows "letter ` set poison \<subseteq> D \<and>
    (decoded \<noteq> [] \<longrightarrow> (\<exists>w. last_attempt E records s w s' \<and> batch_settled K model_dump P letter D decoded w))"
proof -
  have E: "le_lib E = K" "le_handler E = detection_handler K (detection_pipeline K model_dump P)"
    "le_producer E" "le_dlq_topic E = Some (dlq_topic (dp_kafka_config P))" by (simp_all add: assms(3))
  have bh: "batch_handler (le_lib E) (le_handler E) (owes_detections K model_dump P)"
    unfolding E by (rule detection.batch_handler_axioms)
  obtain w0 h w1 where last: "last_attempt E records s w0 s'"
    and run: "run_handler E decoded w0 = (h, w1)" "h \<noteq> Inr None" "\<forall>e. h = Inl e \<longrightarrow> \<not> is_transient e"
    and dead: "letter ` set (dead_of poison (map fst decoded) h) \<subseteq> D"
    and owed: "\<forall>fs. h = Inr (Some fs) \<longrightarrow> decoded \<noteq> [] \<longrightarrow> owes_detections K model_dump P w0 (map to_decoded decoded) fs D"
    using batch_handler_durable [OF assms(1) [folded E(1)] bh E(3,4) assms(2,4,5,6)] unfolding assms(7,8) by blast
  have poison: "letter ` set poison \<subseteq> D"
    using dead run(2) by (cases "(poison, map fst decoded, h)" rule: dead_of.cases) auto
  have "batch_settled K model_dump P letter D decoded w0" if ne: "decoded \<noteq> []"
  proof -
    have h: "fst (detection_handler K (detection_pipeline K model_dump P) (map to_decoded decoded) w0) = h"
      using run(1) ne by (simp add: run_handler_def E)
    have letters: "letter (fst (decoded ! j), e) \<in> D" if "h = Inr (Some fs)" "j < length decoded" "map_of fs j = Some e" for fs j e
      using dlq_of_member [of j "map fst decoded" fs e] that dead by auto
    from ne run(2,3) dead owed letters show ?thesis
      unfolding batch_settled_def h by (cases "(poison, map fst decoded, h)" rule: dead_of.cases) auto
  qed
  with last poison show ?thesis by blast
qed

subsection \<open>Cooldowns of undelivered detections\<close>

lemma outcome_cooldowns:
  assumes "batch_outcome P m items = (ds, m')"
  shows "fmlookup (fmdrop_set (cooldown_key ` set ds) m') (cooldown_key d) = fmlookup m (cooldown_key d)"
proof -
  let ?m1 = "snd (checks P m (active_items m items))"
  have ds: "ds = winners (live ?m1) (batch_candidates P m items)"
    and m': "m' = claim (detection_cooldown_seconds (dp_redis_config P)) ds ?m1"
    using assms by (auto simp: batch_outcome_def Let_def)
  have "\<forall>d\<in>set ds. \<not> live ?m1 (cooldown_key d)" using winners_free ds by metis
  from release_claimed [OF this] show ?thesis
    unfolding m' by (simp add: checks_frame)
qed

text \<open>
  (C29) A batch whose delivery fails gives its cooldowns back: against a Redis server that is up, the
  only exceptions the handler of the detection engine raises come from the verified flush, and when
  that raises \<open>KafkaError\<close>, the cooldown of every type and subject is afterwards as it was before the
  batch, so that no detection is suppressed by one that was never delivered.
\<close>

theorem failed_delivery_releases_cooldowns:
  assumes "redis_up rc obs" and "dp_redis P = rc" and "sound P (ks (obs (w_redis w)))"
    and "validates (dp_validate_tx P)" and "validates (dp_validate_auth P)"
    and "detection_handler K P records w = (Inl e, w')"
  shows "(\<exists>p. fst (flush_and_verify K p) = Inl e) \<and>
    (e = KafkaError \<longrightarrow> (\<forall>d. fmlookup (ks (obs (w_redis w'))) (cooldown_key d) = fmlookup (ks (obs (w_redis w))) (cooldown_key d)))"
proof -
  let ?m = "ks (obs (w_redis w))"
  obtain fs where parsed: "parse_records P 0 records = Inr (valid_items P 0 records, fs)"
    using parse_records_valid [OF assms(4,5), of 0 records] by blast
  obtain ds m' where out: "batch_outcome P ?m (valid_items P 0 records) = (ds, m')" by fastforce
  from run_batch_run [OF assms(1,2) refl assms(3) out] obtain w1 where
    run: "run_batch P (valid_items P 0 records) w =
      (Inr \<lparr>emitted = ds, br_failures = [], claimed_cooldown_keys = map cooldown_key ds\<rparr>, w1)"
    and k1: "ks (obs (w_redis w1)) = m'"
    by blast
  have hb: "handle_batch P records w = (Inr \<lparr>emitted = ds, br_failures = fs, claimed_cooldown_keys = map cooldown_key ds\<rparr>, w1)"
    by (simp add: handle_batch_def parsed bindE_def run ret_def)
  obtain q p2 where fl: "flush_and_verify K (w_out w1) = (q, p2)" by (cases "flush_and_verify K (w_out w1)")
  have on: "on_out (flush_and_verify K) w1 = (q, w1\<lparr>w_out := p2\<rparr>)" by (simp add: on_out_def fl)
  obtain s3 where rel: "release_cooldown rc (map cooldown_key ds) (w_redis w1) = (Inr (), s3)"
    and k3: "ks (obs s3) = fmdrop_set (set (map cooldown_key ds)) m'"
    using sim_run [OF redis_up.sim_release_cooldown [OF assms(1)] release_cooldown_kv] k1 by metis
  have "detection_handler K P records w =
    (case q of Inr _ \<Rightarrow> (Inr (Some fs), w1\<lparr>w_out := p2\<rparr>)
     | Inl x \<Rightarrow> if x = KafkaError then (Inl x, w1\<lparr>w_out := p2, w_redis := s3\<rparr>) else (Inl x, w1\<lparr>w_out := p2\<rparr>))"
    by (simp add: detection_handler_def bindE_def hb on release_claims_def on_redis_def assms(2) rel raise_exn_def split: sum.splits)
  with assms(6) have q: "q = Inl e" and w': "e = KafkaError \<Longrightarrow> w_redis w' = s3"
    by (auto split: sum.splits if_splits)
  have "\<exists>p. fst (flush_and_verify K p) = Inl e" using fl q by (metis fst_conv)
  moreover have "fmlookup (ks (obs (w_redis w'))) (cooldown_key d) = fmlookup ?m (cooldown_key d)" if "e = KafkaError" for d
    using outcome_cooldowns [OF out, of d] w' [OF that] k3 by simp
  ultimately show ?thesis by blast
qed

subsection \<open>Runs\<close>

text \<open>The traveller's pipeline with a broker; the value 1 stands for the transaction from afar.\<close>

definition trip_validate :: "json \<Rightarrow> exn + TransactionEvent" where
  "trip_validate v = (if v = JInt 1 then Inr far else if v = JInt 2 then Inr home else Inl (ValidationError ''amount''))"

definition trip_pipeline :: "(conn, ledger producer) DetectionPipeline" where
  "trip_pipeline = retarget redis_step (emit_detection ledger_lib default_kafka_config (\<lambda>d. JStr (detection_id d)))
     (Some (emit_audit ledger_lib (audit_log_topic default_kafka_config))) trip_validate sample_detector"

definition trip_records :: "decoded list" where
  "trip_records = [(''tx-events'', 0, 1, JInt 1), (''tx-events'', 0, 2, JInt 2)]"

definition trip_world :: "bool list \<Rightarrow> (conn, ledger producer) world" where
  "trip_world fates = \<lparr>w_redis = conn_with settled,
     w_out = \<lparr>p_client = \<lparr>l_delivered = [], l_pending = [], l_fates = fates\<rparr>, rtace_last_error = None, p_failures = []\<rparr>,
     w_metrics = []\<rparr>"

lemma trip_pipeline_sel [simp]:
  "dp_redis trip_pipeline = redis_step" "dp_kafka_config trip_pipeline = default_kafka_config"
  "dp_redis_config trip_pipeline = default_redis_config" "dp_validate_tx trip_pipeline = trip_validate"
  "dp_emit trip_pipeline = emit_detection ledger_lib default_kafka_config (\<lambda>d. JStr (detection_id d))"
  "dp_emit_audit trip_pipeline = Some (emit_audit ledger_lib (audit_log_topic default_kafka_config))"
  by (simp_all add: trip_pipeline_def retarget_def sample_detector_def)

lemma ledger_send: "send_message ledger_lib t v k p =
    (Inr (), p\<lparr>p_client := (p_client p)\<lparr>l_pending := l_pending (p_client p) @ [\<lparr>m_topic = t, m_value = v, m_key = k\<rparr>]\<rparr>\<rparr>)"
  by (simp add: send_message_def ledger_lib_def)

lemma trip_sound: "sound sample_detector m \<Longrightarrow> sound trip_pipeline m"
  by (auto simp: sound_def emits_ok_def emit_blocked_audit emit_detection_def ledger_send sample_detector_def)

lemma trip_valid:
  "valid_items trip_pipeline 0 trip_records = trip" "validates (dp_validate_tx trip_pipeline)" "validates (dp_validate_auth trip_pipeline)"
proof -
  have "record_ref ''tx-events'' 0 1 = ''tx-events:0:1''" "record_ref ''tx-events'' 0 2 = ''tx-events:0:2''"
    by code_simp+
  then show "valid_items trip_pipeline 0 trip_records = trip"
    by (simp add: valid_items_def trip_records_def parse_record_def trip_validate_def trip_def default_kafka_config_def)
  show "validates (dp_validate_tx trip_pipeline)" by (simp add: validates_def trip_validate_def)
  show "validates (dp_validate_auth trip_pipeline)"
    by (simp add: validates_def trip_pipeline_def retarget_def sample_detector_def)
qed

lemma trip_refused: "\<not> live m (quarantine_key ''user_1'') \<Longrightarrow> filter (\<lambda>it. live m (enforcement_key (it_event it))) trip = []"
  by (simp add: trip_def far_def home_def sample_tx_def)

lemma trip_handled:
  assumes "ks (w_redis w) = m" and "sound sample_detector m" and "\<not> live m (quarantine_key ''user_1'')"
    and "batch_outcome sample_detector m trip = (ds, m')"
  shows "\<exists>w1. handle_batch trip_pipeline trip_records w =
      (Inr \<lparr>emitted = ds, br_failures = [], claimed_cooldown_keys = map cooldown_key ds\<rparr>, w1) \<and>
    ks (w_redis w1) = m' \<and> w_out w1 = send_all (dp_emit trip_pipeline) ds (w_out w)"
proof -
  have out: "batch_outcome trip_pipeline m trip = (ds, m')" using assms(4) by (simp add: trip_pipeline_def)
  obtain w1 where run: "run_batch trip_pipeline trip w =
      (Inr \<lparr>emitted = ds, br_failures = [], claimed_cooldown_keys = map cooldown_key ds\<rparr>, w1)" "ks (w_redis w1) = m'"
    "w_out w1 = send_all (dp_emit trip_pipeline) ds
      (audits trip_pipeline (map it_event (filter (\<lambda>it. live m (enforcement_key (it_event it))) trip)) (w_out w))"
    using run_batch_run [OF mem.redis_up_axioms trip_pipeline_sel(1) assms(1) [symmetric] trip_sound [OF assms(2)] out] by blast
  have "audits trip_pipeline [] p = p" for p by (simp add: audits_def send_all_def)
  with run(3) have "w_out w1 = send_all (dp_emit trip_pipeline) ds (w_out w)"
    unfolding trip_refused [OF assms(3)] by simp
  moreover obtain fs where fs: "parse_records trip_pipeline 0 trip_records = Inr (trip, fs)"
    "\<forall>j. map_of fs j = (if 0 \<le> j \<and> j < 0 + length trip_records
       then (case parse_record trip_pipeline j (trip_records ! (j - 0)) of Inl e \<Rightarrow> Some e | Inr _ \<Rightarrow> None) else None)"
    using parse_records_valid [OF trip_valid(2,3), of 0 trip_records] unfolding trip_valid(1) by blast
  have "parse_records trip_pipeline 0 trip_records = Inr (trip, [])"
    using fs(1) by (simp add: trip_records_def parse_record_def trip_validate_def default_kafka_config_def)
  ultimately show ?thesis
    using run(1,2) by (simp add: handle_batch_def bindE_def ret_def)
qed

text \<open>The first attempt, whatever becomes of its message, and the attempt that follows a failed delivery.\<close>

lemma trip_first:
  "\<exists>d w1. handle_batch trip_pipeline trip_records (trip_world fates) =
      (Inr \<lparr>emitted = [d], br_failures = [], claimed_cooldown_keys = [cooldown_key d]\<rparr>, w1) \<and>
    ks (w_redis w1) = claim 60 [d] returned \<and> \<not> live returned (cooldown_key d) \<and>
    w_out w1 = \<lparr>p_client = \<lparr>l_delivered = [],
        l_pending = [detection_msg default_kafka_config (\<lambda>d. JStr (detection_id d)) d], l_fates = fates\<rparr>,
      rtace_last_error = None, p_failures = []\<rparr>"
proof -
  obtain d where d: "batch_outcome sample_detector settled trip = ([d], claim 60 [d] returned)" "\<not> live returned (cooldown_key d)"
    using trip_outcome by blast
  have "ks (w_redis (trip_world fates)) = settled" "\<not> live settled (quarantine_key ''user_1'')"
    by (simp_all add: trip_world_def conn_with_def settled_def key_defs)
  from trip_handled [OF this(1) settled_sound this(2) d(1)] d(2) show ?thesis
    by (intro exI [of _ d])
      (auto simp: send_all_def emit_detection_def ledger_send detection_msg_def trip_world_def)
qed

definition after_refusal :: "ledger producer" where
  "after_refusal = \<lparr>p_client = \<lparr>l_delivered = [], l_pending = [], l_fates = []\<rparr>, rtace_last_error = None,
      p_failures = [(''kafka_send_failures_total'', [''detections''])]\<rparr>"

lemma trip_fails:
  "\<exists>w1. detection_handler ledger_lib trip_pipeline trip_records (trip_world [False]) = (Inl KafkaError, w1) \<and>
    ks (w_redis w1) = returned \<and> w_out w1 = after_refusal"
proof -
  obtain d w1 where h: "handle_batch trip_pipeline trip_records (trip_world [False]) =
      (Inr \<lparr>emitted = [d], br_failures = [], claimed_cooldown_keys = [cooldown_key d]\<rparr>, w1)"
    and k: "ks (w_redis w1) = claim 60 [d] returned" "\<not> live returned (cooldown_key d)"
    and o: "w_out w1 = \<lparr>p_client = \<lparr>l_delivered = [],
        l_pending = [detection_msg default_kafka_config (\<lambda>d. JStr (detection_id d)) d], l_fates = [False]\<rparr>,
      rtace_last_error = None, p_failures = []\<rparr>"
    using trip_first [of "[False]"] by blast
  have fl: "flush_and_verify ledger_lib (w_out w1) = (Inl KafkaError, after_refusal)"
    unfolding o by (simp add: flush_and_verify_def ledger_lib_def called_back_def on_error_def detection_msg_def
        default_kafka_config_def after_refusal_def)
  obtain s2 where rel: "release_cooldown redis_step [cooldown_key d] (w_redis w1) = (Inr (), s2)" "ks s2 = returned"
    using sim_run [OF mem.sim_release_cooldown release_cooldown_kv, of "[cooldown_key d]" "w_redis w1"] release_claimed [of "[d]" returned 60] k
    by auto
  show ?thesis
    by (simp add: detection_handler_def bindE_def h on_out_def fl release_claims_def on_redis_def rel raise_exn_def)
qed


lemma trip_delivered:
  "\<exists>d w3. detection_handler ledger_lib trip_pipeline trip_records (trip_world []) = (Inr (Some []), w3) \<and>
      w_out w3 = \<lparr>p_client = \<lparr>l_delivered = [detection_msg default_kafka_config (\<lambda>d. JStr (detection_id d)) d],
        l_pending = [], l_fates = []\<rparr>, rtace_last_error = None, p_failures = []\<rparr>"
proof -
  obtain d w1 where h: "handle_batch trip_pipeline trip_records (trip_world []) =
      (Inr \<lparr>emitted = [d], br_failures = [], claimed_cooldown_keys = [cooldown_key d]\<rparr>, w1)"
    and o: "w_out w1 = \<lparr>p_client = \<lparr>l_delivered = [],
        l_pending = [detection_msg default_kafka_config (\<lambda>d. JStr (detection_id d)) d], l_fates = []\<rparr>,
      rtace_last_error = None, p_failures = []\<rparr>"
    using trip_first [of "[]"] by blast
  show ?thesis
    by (intro exI [of _ d]) (simp add: detection_handler_def bindE_def h on_out_def o flush_and_verify_def ledger_lib_def called_back_def)
qed


theorem failed_delivery_releases_cooldowns_witness:
  "\<exists>w'. detection_handler ledger_lib trip_pipeline trip_records (trip_world [False]) = (Inl KafkaError, w') \<and>
     (\<forall>d. fmlookup (ks (w_redis w')) (cooldown_key d) = fmlookup settled (cooldown_key d))"
proof -
  obtain w1 where w1: "detection_handler ledger_lib trip_pipeline trip_records (trip_world [False]) = (Inl KafkaError, w1)"
    using trip_fails by blast
  have m: "ks (w_redis (trip_world [False])) = settled" by (simp add: trip_world_def conn_with_def)
  then have "sound trip_pipeline (ks (w_redis (trip_world [False])))" using trip_sound [OF settled_sound] by simp
  from failed_delivery_releases_cooldowns [OF mem.redis_up_axioms trip_pipeline_sel(1) this trip_valid(2,3) w1] w1 m
  show ?thesis by auto
qed

definition trip_engine :: "(conn, ledger, journal) loop_env" where
  "trip_engine = detection_engine ledger_lib (\<lambda>d. JStr (detection_id d)) trip_pipeline
     journal_poll journal_commit ''now'' (\<lambda>_. [])"

definition tx_record :: "int \<Rightarrow> string \<Rightarrow> krecord" where
  "tx_record off v = \<lparr>r_topic = ''tx-events'', r_partition = 0, r_offset = off, r_key = None, r_value = Some v\<rparr>"

definition trip_batch :: "krecord list" where
  "trip_batch = [tx_record 1 ''1'', tx_record 2 ''2'', tx_record 3 ''x'']"

definition trip_service :: "(conn, ledger, journal) service" where
  "trip_service = \<lparr>sv_world = trip_world [],
     sv_consumer = \<lparr>j_polls = [Inr [trip_batch]], j_refusals = [], j_commits = []\<rparr>, sv_until = None, sv_slept = [], sv_closed = False\<rparr>"

lemma trip_classify:
  "classify trip_batch = ([(tx_record 1 ''1'', JInt 1), (tx_record 2 ''2'', JInt 2)],
     [(tx_record 3 ''x'', ValueError ''undecodable record value'')], 0)"
proof -
  have "decode_json (Some ''1'') = Inr (JInt 1)" "decode_json (Some ''2'') = Inr (JInt 2)" by code_simp+
  then show ?thesis by (simp add: trip_batch_def tx_record_def sample_decode)
qed

lemma trip_engine_pipeline: "detection_pipeline ledger_lib (\<lambda>d. JStr (detection_id d)) trip_pipeline = trip_pipeline"
  by (simp add: detection_pipeline_def trip_pipeline_def retarget_def sample_detector_def)

lemma trip_runs:
  fixes u c
  defines "s \<equiv> trip_service\<lparr>sv_until := u, sv_consumer := c\<rparr>"
  shows "\<exists>s'. handle_batch_with_retry trip_engine 1 trip_batch s = (Inr (Some ()), s') \<and> sv_until s' = u \<and> sv_consumer s' = c"
proof -
  have s: "sv_world s = trip_world []" "sv_until s = u" "sv_consumer s = c" by (simp_all add: s_def trip_service_def)
  obtain d w3 where h: "detection_handler ledger_lib trip_pipeline trip_records (trip_world []) = (Inr (Some []), w3)"
    "w_out w3 = \<lparr>p_client = \<lparr>l_delivered = [detection_msg default_kafka_config (\<lambda>d. JStr (detection_id d)) d],
        l_pending = [], l_fates = []\<rparr>, rtace_last_error = None, p_failures = []\<rparr>"
    using trip_delivered by blast
  let ?dec = "[(tx_record 1 ''1'', JInt 1), (tx_record 2 ''2'', JInt 2)]"
  have E: "le_producer trip_engine = True" "le_handler trip_engine = detection_handler ledger_lib trip_pipeline"
    by (simp_all add: trip_engine_def trip_engine_pipeline)
  have reset: "on_world (on_out reset_send_errors) s = (Inr (), s)"
    by (simp add: on_world_def on_out_def reset_send_errors_def s_def trip_service_def trip_world_def)
  have recs: "map to_decoded ?dec = trip_records"
    by (simp add: to_decoded_def tx_record_def trip_records_def)
  have handled: "on_world (le_handler trip_engine (map to_decoded ?dec)) s = (Inr (Some []), s\<lparr>sv_world := w3\<rparr>)"
    unfolding recs E using h(1) by (simp add: on_world_def s)
  have settled: "\<exists>s'. settle_batch trip_engine batch delay poison processed (s\<lparr>sv_world := w3\<rparr>) = (Inr (Some False), s') \<and> sv_until s' = u \<and> sv_consumer s' = c"
    if "poison = [(tx_record 3 ''x'', ValueError ''undecodable record value'')]" for batch delay poison processed
    using that h(2) by (simp add: trip_engine_def detection_engine_def loop_simps bindE_def ret_def s)
  have "\<exists>s'. attempt trip_engine ?dec [(tx_record 3 ''x'', ValueError ''undecodable record value'')] delay s = (Inr (Some False), s') \<and> sv_until s' = u \<and> sv_consumer s' = c" for delay
    unfolding attempt_def Let_def bindE_def
    using handled reset E(1) settled by (simp add: dlq_of_def List.map_filter_def)
  then obtain s' where "attempt trip_engine ?dec [(tx_record 3 ''x'', ValueError ''undecodable record value'')]
      (retry_initial_seconds (le_settings trip_engine)) s = (Inr (Some False), s')"
    "sv_until s' = u" "sv_consumer s' = c" by blast
  moreover have "on_world (incs []) s = (Inr (), s)" by (simp add: on_world_def)
  ultimately show ?thesis
    unfolding handle_batch_with_retry_def trip_classify prod.case replicate_0
    by (simp add: bindE_def bindO_def ret_def del: incs_run)
qed

subsection \<open>A lost reply\<close>

text \<open>
  A reply lost on the way loses a detection: when the connection fails after Redis carried out the
  cooldown's SET, the filter raises a transient error with the key taken, and the retry that this
  error calls for suppresses the detection, although nothing was ever sent.
\<close>

theorem lost_reply_suppresses:
  "\<exists>w1 w2 :: (flaky, nat list) world.
     filter_cooled_down flaky_step default_redis_config [sample_detection ''a'' ''u'']
       \<lparr>w_redis = (empty_conn, [Some (ConnectionError, True)]), w_out = [], w_metrics = []\<rparr> = (Inl ConnectionError, w1) \<and>
     is_transient ConnectionError \<and>
     filter_cooled_down flaky_step default_redis_config [sample_detection ''a'' ''u''] w1 = (Inr ([], []), w2) \<and>
     fst (filter_cooled_down flaky_step default_redis_config [sample_detection ''a'' ''u'']
       (\<lparr>w_redis = (empty_conn, []), w_out = [], w_metrics = []\<rparr> :: (flaky, nat list) world)) =
       Inr ([sample_detection ''a'' ''u''], [''cooldown:fraud_burst:user:u''])"
  by (simp add: filter_cooled_down_def default_redis_config_def on_redis_def pipe_execute_def bindE_def ret_def
      empty_conn_def run_simps is_transient_def)

end
