(* ===== verification/Api.thy ===== *)
theory Api
  imports KafkaClient Enforcement
begin

text \<open>
  \<open>api/main.py\<close>: the control API. A handler is an action on the world of the process, whose output
  is the producer once it exists. A raised \<open>HTTPException\<close> is the answer to the client; FastAPI answers
  500 to any other exception. What FastAPI does before it calls a handler is an argument of the request: the
  bearer credentials of the header, the client's address, and the parsed parameters; the declared
  bounds of a parameter and the dependencies of a route are part of the model. Creating a producer
  is the library's (\<open>api_create\<close>), as are the clock's and an exception's texts.
\<close>

subsection \<open>The application and its requests\<close>

record ('r, 'k) api =
  api_redis :: "'r redis"
  api_lib :: "'k kafka_lib"
  api_create :: "exn + 'k producer"
  api_redis_config :: RedisConfig
  api_kafka_config :: KafkaConfig
  api_token :: "string option"
  api_now :: string
  api_str :: "exn \<Rightarrow> string"

type_synonym ('r, 'k) api_world = "('r, 'k producer option) world"

datatype response = Json json | Rules rules_report

datatype request =
    GetRoot
  | GetHealth
  | GetRules
  | AddQuarantine string "int option" string
  | LiftQuarantine string
  | ClearStepUp string
  | AddIpBlock string "int option" string
  | LiftIpBlock string

text \<open>\<open>os.getenv("RTACE_API_TOKEN") or None\<close>.\<close>

definition token_from_env :: "(string \<Rightarrow> string option) \<Rightarrow> string option" where
  "token_from_env getenv =
     (case getenv ''RTACE_API_TOKEN'' of None \<Rightarrow> None | Some t \<Rightarrow> if t = [] then None else Some t)"

subsection \<open>Authentication\<close>

text \<open>\<open>secrets.compare_digest\<close> of two texts raises \<open>TypeError\<close> unless both are ASCII.\<close>

definition compare_digest :: "string \<Rightarrow> string \<Rightarrow> exn + bool" where
  "compare_digest a b =
     (if (\<forall>c\<in>set (a @ b). of_char c < (128 :: nat)) then Inr (a = b) else Inl (OtherError ''TypeError''))"

definition require_read :: "('r, 'k) api \<Rightarrow> string option \<Rightarrow> ('s, unit) action" where
  "require_read A creds =
     (case api_token A of
        None \<Rightarrow> ret ()
      | Some token \<Rightarrow>
          (case creds of
             None \<Rightarrow> raise_exn (HTTPException 401 ''Missing or invalid bearer token'')
           | Some c \<Rightarrow>
               (case compare_digest c token of
                  Inl e \<Rightarrow> raise_exn e
                | Inr same \<Rightarrow>
                    if same then ret () else raise_exn (HTTPException 401 ''Missing or invalid bearer token''))))"

definition require_write :: "('r, 'k) api \<Rightarrow> string option \<Rightarrow> ('s, unit) action" where
  "require_write A creds =
     (if api_token A = None
      then raise_exn (HTTPException 503 ''Manual overrides are disabled: set RTACE_API_TOKEN to enable them'')
      else require_read A creds)"

text \<open>\<open>Query(default=None, ge=1, le=bound)\<close>.\<close>

definition query_ttl :: "int \<Rightarrow> int option \<Rightarrow> ('s, int option) action" where
  "query_ttl bound ttl =
     (case ttl of
        None \<Rightarrow> ret None
      | Some t \<Rightarrow> if 1 \<le> t \<and> t \<le> bound then ret (Some t) else raise_exn (HTTPException 422 ''ttl_seconds''))"

text \<open>\<open>ttl_seconds or default\<close>.\<close>

definition ttl_or :: "int option \<Rightarrow> int \<Rightarrow> int" where
  "ttl_or ttl default_ttl = (case ttl of None \<Rightarrow> default_ttl | Some t \<Rightarrow> if t = 0 then default_ttl else t)"

subsection \<open>The audit record of an override\<close>

definition override_record ::
  "('r, 'k) api \<Rightarrow> string option \<Rightarrow> string \<Rightarrow> (string \<times> json) list \<Rightarrow> json" where
  "override_record A client action kws = JObj
     ([(''source'', JStr ''api''), (''action'', JStr action), (''timestamp'', JStr (api_now A)),
       (''client'', case client of None \<Rightarrow> JNull | Some h \<Rightarrow> JStr h)] @ kws)"

definition override_key :: "(string \<times> json) list \<Rightarrow> string option" where
  "override_key kws =
     (case dict_get kws ''user_id'' of
        Some (JStr u) \<Rightarrow> if u = [] then None else Some u
      | _ \<Rightarrow> (case dict_get kws ''ip'' of Some (JStr i) \<Rightarrow> Some i | _ \<Rightarrow> None))"

text \<open>Every exception is caught: the override already happened.\<close>

definition audit ::
  "('r, 'k) api \<Rightarrow> string option \<Rightarrow> string \<Rightarrow> (string \<times> json) list \<Rightarrow> (('r, 'k) api_world, unit) action" where
  "audit A client action kws w =
     (case (case w_out w of Some p \<Rightarrow> Inr p | None \<Rightarrow> api_create A) of
        Inl e \<Rightarrow> (Inr (), w)
      | Inr p \<Rightarrow>
          (case send_message (api_lib A) (audit_log_topic (api_kafka_config A))
                  (override_record A client action kws) (override_key kws) p of (_, p') \<Rightarrow>
             (Inr (), w\<lparr>w_out := Some p'\<rparr>)))"

subsection \<open>Routes\<close>

definition root_route :: "(('r, 'k) api_world, response) action" where
  "root_route = ret (Json (JObj [(''service'', JStr ''RTACE Control API''), (''docs'', JStr ''/docs''),
     (''health'', JStr ''/health''), (''metrics'', JStr ''/metrics''), (''enforcement'', JStr ''/enforcement/rules'')]))"

definition health :: "('r, 'k) api \<Rightarrow> (('r, 'k) api_world, response) action" where
  "health A w =
     (case on_redis (api_redis A PING) w of (q, w') \<Rightarrow>
        (case q of
           Inr _ \<Rightarrow> (Inr (Json (JObj [(''status'', JStr ''ok''), (''redis'', JStr ''connected'')])), w')
         | Inl e \<Rightarrow> (Inl (HTTPException 503 (api_str A e)), w')))"

definition get_rules :: "('r, 'k) api \<Rightarrow> string option \<Rightarrow> (('r, 'k) api_world, response) action" where
  "get_rules A creds =
     bindE (require_read A creds) (\<lambda>_.
     bindE (on_redis (list_rules (api_redis A))) (\<lambda>rules. ret (Rules rules)))"

definition add_quarantine ::
  "('r, 'k) api \<Rightarrow> string option \<Rightarrow> string option \<Rightarrow> string \<Rightarrow> int option \<Rightarrow> string \<Rightarrow>
   (('r, 'k) api_world, response) action" where
  "add_quarantine A creds client user_id ttl_query reason =
     bindE (require_write A creds) (\<lambda>_.
     bindE (query_ttl (7 * 24 * 3600) ttl_query) (\<lambda>t.
     let ttl = ttl_or t (quarantine_ttl_seconds (api_redis_config A))
     in bindE (on_redis (api_redis A (SET_EX (quarantine_key user_id) (''api:'' @ reason) ttl))) (\<lambda>_.
        bindE (audit A client ''manual_quarantine''
                 [(''user_id'', JStr user_id), (''ttl_seconds'', JInt ttl), (''reason'', JStr reason)]) (\<lambda>_.
        ret (Json (JObj [(''user_id'', JStr user_id), (''action'', JStr ''quarantine''), (''ttl_seconds'', JInt ttl)]))))))"

definition lift_quarantine ::
  "('r, 'k) api \<Rightarrow> string option \<Rightarrow> string option \<Rightarrow> string \<Rightarrow> (('r, 'k) api_world, response) action" where
  "lift_quarantine A creds client user_id =
     bindE (require_write A creds) (\<lambda>_.
     bindE (on_redis (api_redis A (DEL [quarantine_key user_id]))) (\<lambda>removed.
     if \<not> truthy removed then raise_exn (HTTPException 404 (''No quarantine for user '' @ user_id))
     else bindE (audit A client ''lift_quarantine'' [(''user_id'', JStr user_id)]) (\<lambda>_.
          ret (Json (JObj [(''user_id'', JStr user_id), (''action'', JStr ''lift_quarantine'')])))))"

definition clear_step_up ::
  "('r, 'k) api \<Rightarrow> string option \<Rightarrow> string option \<Rightarrow> string \<Rightarrow> (('r, 'k) api_world, response) action" where
  "clear_step_up A creds client user_id =
     bindE (require_write A creds) (\<lambda>_.
     bindE (on_redis (api_redis A (DEL [step_up_key user_id]))) (\<lambda>removed.
     if \<not> truthy removed then raise_exn (HTTPException 404 (''No pending step-up for user '' @ user_id))
     else bindE (audit A client ''clear_step_up'' [(''user_id'', JStr user_id)]) (\<lambda>_.
          ret (Json (JObj [(''user_id'', JStr user_id), (''action'', JStr ''clear_step_up'')])))))"

definition add_ip_block ::
  "('r, 'k) api \<Rightarrow> string option \<Rightarrow> string option \<Rightarrow> string \<Rightarrow> int option \<Rightarrow> string \<Rightarrow>
   (('r, 'k) api_world, response) action" where
  "add_ip_block A creds client ip ttl_query reason =
     bindE (require_write A creds) (\<lambda>_.
     bindE (query_ttl (30 * 24 * 3600) ttl_query) (\<lambda>t.
     let ttl = ttl_or t (ip_block_ttl_seconds (api_redis_config A))
     in bindE (on_redis (api_redis A (SET_EX (ip_block_key ip) (''api:'' @ reason) ttl))) (\<lambda>_.
        bindE (audit A client ''manual_ip_block''
                 [(''ip'', JStr ip), (''ttl_seconds'', JInt ttl), (''reason'', JStr reason)]) (\<lambda>_.
        ret (Json (JObj [(''ip'', JStr ip), (''action'', JStr ''ip_block''), (''ttl_seconds'', JInt ttl)]))))))"

definition lift_ip_block ::
  "('r, 'k) api \<Rightarrow> string option \<Rightarrow> string option \<Rightarrow> string \<Rightarrow> (('r, 'k) api_world, response) action" where
  "lift_ip_block A creds client ip =
     bindE (require_write A creds) (\<lambda>_.
     bindE (on_redis (api_redis A (DEL [ip_block_key ip]))) (\<lambda>removed.
     if \<not> truthy removed then raise_exn (HTTPException 404 (''No block for IP '' @ ip))
     else bindE (audit A client ''lift_ip_block'' [(''ip'', JStr ip)]) (\<lambda>_.
          ret (Json (JObj [(''ip'', JStr ip), (''action'', JStr ''lift_ip_block'')])))))"

fun serve :: "('r, 'k) api \<Rightarrow> string option \<Rightarrow> string option \<Rightarrow> request \<Rightarrow> (('r, 'k) api_world, response) action" where
  "serve A creds client GetRoot = root_route"
| "serve A creds client GetHealth = health A"
| "serve A creds client GetRules = get_rules A creds"
| "serve A creds client (AddQuarantine u t reason) = add_quarantine A creds client u t reason"
| "serve A creds client (LiftQuarantine u) = lift_quarantine A creds client u"
| "serve A creds client (ClearStepUp u) = clear_step_up A creds client u"
| "serve A creds client (AddIpBlock i t reason) = add_ip_block A creds client i t reason"
| "serve A creds client (LiftIpBlock i) = lift_ip_block A creds client i"

text \<open>The end of the process: a last flush and the producer closed, whatever they raise.\<close>

definition shutdown :: "('r, 'k) api \<Rightarrow> ('r, 'k) api_world \<Rightarrow> ('r, 'k) api_world" where
  "shutdown A w =
     (case w_out w of
        None \<Rightarrow> w
      | Some p \<Rightarrow>
          (case k_flush (api_lib A) (p_client p) of (_, cbs, c) \<Rightarrow>
             w\<lparr>w_out := Some (called_back cbs (p\<lparr>p_client := c\<rparr>))\<rparr>))"

end
