(* ===== verification/ApiProps.thy ===== *)
theory ApiProps
  imports Api
begin

text \<open>
  What the control API guarantees: overrides need the token, reads change nothing, and an authorised
  override has exactly the effect on the rules that its specification \<open>effect\<close> says.
\<close>

subsection \<open>Who may do what\<close>

fun is_override :: "request \<Rightarrow> bool" where
  "is_override GetRoot = False"
| "is_override GetHealth = False"
| "is_override GetRules = False"
| "is_override _ = True"

lemma require_write_denied:
  fixes A :: "('r, 'k) api"
  assumes "\<forall>t. api_token A = Some t \<longrightarrow> creds \<noteq> Some t"
  shows "\<exists>e. (require_write A creds :: (('r, 'k) api_world, unit) action) = raise_exn e \<and>
    (api_token A = None \<longrightarrow> (\<exists>d. e = HTTPException 503 d)) \<and>
    (api_token A \<noteq> None \<longrightarrow> (\<exists>d. e = HTTPException 401 d) \<or> e = OtherError ''TypeError'')"
proof (cases "api_token A")
  case None
  then show ?thesis by (auto simp: require_write_def)
next
  case (Some t)
  with assms show ?thesis
    by (cases creds; cases "compare_digest (the creds) t") (auto simp: require_write_def require_read_def compare_digest_def split: if_splits)
qed

lemma serve_guarded:
  fixes A :: "('r, 'k) api"
  shows "is_override req \<Longrightarrow> (require_write A creds :: (('r, 'k) api_world, unit) action) = raise_exn e \<Longrightarrow>
    serve A creds client req = raise_exn e"
  by (cases "(A, creds, client, req)" rule: serve.cases)
    (simp_all add: add_quarantine_def lift_quarantine_def clear_step_up_def add_ip_block_def lift_ip_block_def)

lemma require_write_granted:
  "api_token A = Some t \<Longrightarrow> \<forall>c\<in>set t. of_char c < (128 :: nat) \<Longrightarrow> require_write A (Some t) = ret ()"
  by (simp add: require_write_def require_read_def compare_digest_def)

text \<open>
  (C15) No override without the token: a request that would change a rule is refused, with the world
  left exactly as it was, unless the application has a token and the request carries that very
  token; where no token is configured the answer is 503, otherwise 401 (or the \<open>TypeError\<close> of the
  comparison on texts that are not ASCII).
\<close>

theorem overrides_need_the_token:
  assumes "is_override req" and "\<forall>t. api_token A = Some t \<longrightarrow> creds \<noteq> Some t"
  shows "\<exists>e. serve A creds client req w = (Inl e, w) \<and>
    (api_token A = None \<longrightarrow> (\<exists>d. e = HTTPException 503 d)) \<and>
    (api_token A \<noteq> None \<longrightarrow> (\<exists>d. e = HTTPException 401 d) \<or> e = OtherError ''TypeError'')"
  using require_write_denied [OF assms(2)] serve_guarded [OF assms(1)] by (metis raise_exn_def)

subsection \<open>The effect of an override\<close>

text \<open>
  The specification: the key space an accepted request leaves, or the status of its refusal.
\<close>

fun set_rule :: "string \<Rightarrow> int \<Rightarrow> int option \<Rightarrow> int \<Rightarrow> string \<Rightarrow> keyspace \<Rightarrow> nat + keyspace" where
  "set_rule key bound (Some t) def_ttl reason m =
     (if 1 \<le> t \<and> t \<le> bound then Inr (fmupd key (mk_entry (RStr (''api:'' @ reason)) (Some t)) m) else Inl 422)"
| "set_rule key bound None def_ttl reason m = Inr (fmupd key (mk_entry (RStr (''api:'' @ reason)) (Some def_ttl)) m)"

definition drop_rule :: "string \<Rightarrow> keyspace \<Rightarrow> nat + keyspace" where
  "drop_rule key m = (if live m key then Inr (fmdrop key m) else Inl 404)"

fun effect :: "RedisConfig \<Rightarrow> request \<Rightarrow> keyspace \<Rightarrow> nat + keyspace" where
  "effect cfg (AddQuarantine u t reason) = set_rule (quarantine_key u) 604800 t (quarantine_ttl_seconds cfg) reason"
| "effect cfg (AddIpBlock i t reason) = set_rule (ip_block_key i) 2592000 t (ip_block_ttl_seconds cfg) reason"
| "effect cfg (LiftQuarantine u) = drop_rule (quarantine_key u)"
| "effect cfg (ClearStepUp u) = drop_rule (step_up_key u)"
| "effect cfg (LiftIpBlock i) = drop_rule (ip_block_key i)"
| "effect cfg _ = Inr"

lemma audit_ok: "\<exists>out. audit A client action kws w = (Inr (), w\<lparr>w_out := out\<rparr>)"
proof -
  have same: "\<exists>out. w = w\<lparr>w_out := out\<rparr>" by (intro exI [of _ "w_out w"]) simp
  show ?thesis
    unfolding audit_def by (auto split: sum.splits option.splits prod.splits intro: same)
qed

context redis_up
begin

lemma set_ex_up:
  assumes "0 < t"
  shows "\<exists>s'. rc (SET_EX k v t) s = (Inr ROk, s') \<and> ks (obs s') = fmupd k (mk_entry (RStr v) (Some t)) (ks (obs s))"
proof (rule sim_run [OF sim_kv])
  show "kv_step (SET_EX k v t) (ks (obs s)) = (Inr ROk, fmupd k (mk_entry (RStr v) (Some t)) (ks (obs s)))"
    using assms by (simp add: kv_simps)
qed simp_all

lemma del_up:
  "\<exists>s'. rc (DEL [k]) s = (Inr (RInt (if live (ks (obs s)) k then 1 else 0)), s') \<and> ks (obs s') = fmdrop k (ks (obs s))"
proof (rule sim_run [OF sim_kv])
  have "fmdrop_set {k} m = fmdrop k m" for m :: keyspace by (rule fmap_ext) simp
  then show "kv_step (DEL [k]) (ks (obs s)) = (Inr (RInt (if live (ks (obs s)) k then 1 else 0)), fmdrop k (ks (obs s)))"
    by (simp add: kv_simps)
qed simp_all

end

text \<open>How an answer and a new key space match the specification.\<close>

fun answers :: "nat + keyspace \<Rightarrow> keyspace \<Rightarrow> exn + response \<Rightarrow> keyspace \<Rightarrow> bool" where
  "answers (Inr m1) m r m' = ((\<exists>x. r = Inr x) \<and> m' = m1)"
| "answers (Inl code) m r m' = ((\<exists>d. r = Inl (HTTPException code d)) \<and> m' = m)"

lemma set_route:
  assumes "redis_up rc obs" and "0 < def_ttl"
  shows "\<exists>r w'. bindE (query_ttl bound t) (\<lambda>t. let ttl = ttl_or t def_ttl
      in bindE (on_redis (rc (SET_EX key (''api:'' @ reason) ttl))) (\<lambda>_.
         bindE (audit A client action (kws ttl)) (\<lambda>_. ret (answer ttl)))) w = (r, w') \<and>
    answers (set_rule key bound t def_ttl reason (ks (obs (w_redis w)))) (ks (obs (w_redis w))) r (ks (obs (w_redis w')))"
proof -
  let ?m = "ks (obs (w_redis w))"
  have put: "\<exists>w'. bindE (on_redis (rc (SET_EX key (''api:'' @ reason) ttl))) (\<lambda>_.
      bindE (audit A client action (kws ttl)) (\<lambda>_. ret (answer ttl))) w = (Inr (answer ttl), w') \<and>
    ks (obs (w_redis w')) = fmupd key (mk_entry (RStr (''api:'' @ reason)) (Some ttl)) ?m" if ttl: "0 < ttl" for ttl
  proof -
    obtain s' where s': "rc (SET_EX key (''api:'' @ reason) ttl) (w_redis w) = (Inr ROk, s')"
      "ks (obs s') = fmupd key (mk_entry (RStr (''api:'' @ reason)) (Some ttl)) ?m"
      using redis_up.set_ex_up [OF assms(1) ttl] by blast
    obtain out where "audit A client action (kws ttl) (w\<lparr>w_redis := s'\<rparr>) = (Inr (), w\<lparr>w_redis := s', w_out := out\<rparr>)"
      using audit_ok [of A client action "kws ttl" "w\<lparr>w_redis := s'\<rparr>"] by auto
    with s' show ?thesis by (simp add: bindE_def on_redis_def ret_def)
  qed
  show ?thesis
  proof (cases t)
    case None
    with put [OF assms(2)] show ?thesis by (auto simp: query_ttl_def ttl_or_def Let_def)
  next
    case (Some x)
    with put [of x] show ?thesis by (cases "1 \<le> x \<and> x \<le> bound") (auto simp: query_ttl_def ttl_or_def Let_def raise_exn_def)
  qed
qed

lemma drop_route:
  assumes "redis_up rc obs"
  shows "\<exists>r w'. bindE (on_redis (rc (DEL [key]))) (\<lambda>removed.
      if \<not> truthy removed then raise_exn (HTTPException 404 d)
      else bindE (audit A client action kws) (\<lambda>_. ret answer)) w = (r, w') \<and>
    answers (drop_rule key (ks (obs (w_redis w)))) (ks (obs (w_redis w))) r (ks (obs (w_redis w')))"
proof -
  let ?m = "ks (obs (w_redis w))"
  obtain s' where s': "rc (DEL [key]) (w_redis w) = (Inr (RInt (if live ?m key then 1 else 0)), s')"
    "ks (obs s') = fmdrop key ?m"
    using redis_up.del_up [OF assms] by blast
  obtain out where "audit A client action kws (w\<lparr>w_redis := s'\<rparr>) = (Inr (), w\<lparr>w_redis := s', w_out := out\<rparr>)"
    using audit_ok [of A client action kws "w\<lparr>w_redis := s'\<rparr>"] by auto
  moreover have "fmdrop key ?m = ?m" if "\<not> live ?m key" using that by (intro fmap_ext) auto
  ultimately show ?thesis
    using s' by (cases "live ?m key") (auto simp: bindE_def on_redis_def ret_def raise_exn_def drop_rule_def)
qed

lemma serve_effect:
  assumes "redis_up rc obs" and "api_redis A = rc" and "config_ok (api_redis_config A)"
    and "api_token A = Some t" and "\<forall>c\<in>set t. of_char c < (128 :: nat)" and "is_override req"
  shows "\<exists>r w'. serve A (Some t) client req w = (r, w') \<and>
    answers (effect (api_redis_config A) req (ks (obs (w_redis w)))) (ks (obs (w_redis w))) r (ks (obs (w_redis w')))"
proof -
  note granted = require_write_granted [OF assms(4,5)]
  have pos: "0 < quarantine_ttl_seconds (api_redis_config A)" "0 < ip_block_ttl_seconds (api_redis_config A)"
    using assms(3) by (simp_all add: config_ok_def)
  note set = set_route [OF assms(1) pos(1)] set_route [OF assms(1) pos(2)]
  note drop = drop_route [OF assms(1)]
  show ?thesis
  proof (cases req)
    case (AddQuarantine u ttl reason)
    then show ?thesis
      using set(1) [where bound = "7 * 24 * 3600" and key = "quarantine_key u"]
      by (simp add: add_quarantine_def granted assms(2) Let_def del: answers.simps)
  next
    case (AddIpBlock i ttl reason)
    then show ?thesis
      using set(2) [where bound = "30 * 24 * 3600" and key = "ip_block_key i"]
      by (simp add: add_ip_block_def granted assms(2) Let_def del: answers.simps)
  qed (use assms(6) drop in \<open>simp_all add: lift_quarantine_def clear_step_up_def lift_ip_block_def granted assms(2) del: answers.simps\<close>)
qed

text \<open>
  (C32) An authorised override does exactly what its specification says: against a server that is up
  and with positive default times to live, setting a rule with a time to live within the declared
  bounds (or none, for the default) answers with success and leaves that one key set, by the API,
  with that time to live; a time out of bounds answers 422 and lifting an absent rule answers 404,
  both with every key as it was; lifting a present rule removes its key and no other.
\<close>

theorem override_effect:
  assumes "redis_up rc obs" and "api_redis A = rc" and "config_ok (api_redis_config A)"
    and "api_token A = Some t" and "\<forall>c\<in>set t. of_char c < (128 :: nat)" and "is_override req"
  shows "\<exists>r w'. serve A (Some t) client req w = (r, w') \<and>
    (case effect (api_redis_config A) req (ks (obs (w_redis w))) of
       Inr m' \<Rightarrow> (\<exists>x. r = Inr x) \<and> ks (obs (w_redis w')) = m'
     | Inl code \<Rightarrow> (\<exists>d. r = Inl (HTTPException code d)) \<and> ks (obs (w_redis w')) = ks (obs (w_redis w)))"
proof -
  obtain r w' where run: "serve A (Some t) client req w = (r, w')"
    and ans: "answers (effect (api_redis_config A) req (ks (obs (w_redis w)))) (ks (obs (w_redis w))) r (ks (obs (w_redis w')))"
    using serve_effect [OF assms] by blast
  show ?thesis
    using run ans by (cases "effect (api_redis_config A) req (ks (obs (w_redis w)))") auto
qed

subsection \<open>Reads\<close>

context redis_up
begin

lemma groups_keep:
  "\<forall>(name, pfx, sf)\<in>set gs. texts_under (ks (obs s)) pfx \<Longrightarrow>
   \<exists>xs s'. mapE (list_group rc) gs s = (Inr xs, s') \<and> ks (obs s') = ks (obs s)"
proof (induction gs arbitrary: s)
  case Nil
  then show ?case by (simp add: ret_def)
next
  case (Cons g gs)
  obtain name pfx sf where g: "g = (name, pfx, sf)" by (cases g) auto
  with Cons.prems have "texts_under (ks (obs s)) pfx" by simp
  from list_group_view [OF this] obtain x s1 where 1: "list_group rc g s = (Inr x, s1)" "ks (obs s1) = ks (obs s)"
    unfolding g by blast
  with Cons.IH [of s1] Cons.prems obtain xs s' where "mapE (list_group rc) gs s1 = (Inr xs, s')" "ks (obs s') = ks (obs s)"
    by auto
  with 1 show ?case by (simp add: bindE_def ret_def)
qed

end

text \<open>
  Reads change nothing: against a server that is up and holds texts under the rule prefixes, the
  three read routes leave every key, the producer and the counters as they were; the two open ones
  succeed, and the rules are listed exactly for those who would pass \<open>require_read\<close>.
\<close>

theorem reads_change_nothing:
  assumes "redis_up rc obs" and "api_redis A = rc" and "\<not> is_override req"
    and "\<forall>(name, pfx, sf)\<in>set RULE_GROUPS. texts_under (ks (obs (w_redis w))) pfx"
  shows "\<exists>r w'. serve A creds client req w = (r, w') \<and> ks (obs (w_redis w')) = ks (obs (w_redis w)) \<and>
    w_out w' = w_out w \<and> w_metrics w' = w_metrics w \<and>
    ((\<exists>x. r = Inr x) \<longleftrightarrow> req \<noteq> GetRules \<or> (\<exists>u. require_read A creds w = (Inr u, w)))"
proof -
  obtain xs s1 where rules: "mapE (list_group rc) RULE_GROUPS (w_redis w) = (Inr xs, s1)" "ks (obs s1) = ks (obs (w_redis w))"
    using redis_up.groups_keep [OF assms(1,4)] by blast
  obtain s2 where ping: "rc PING (w_redis w) = (Inr ROk, s2)" "ks (obs s2) = ks (obs (w_redis w))"
    using sim_run [OF redis_up.sim_kv [OF assms(1), of PING], of "w_redis w" "Inr ROk" "ks (obs (w_redis w))"]
    by (auto simp: kv_simps)
  have guard: "require_read A creds w = (Inr (), w) \<or> (\<exists>e. require_read A creds w = (Inl e, w))"
    by (auto simp: require_read_def ret_def raise_exn_def split: option.splits sum.splits)
  show ?thesis
  proof (cases req)
    case GetRules
    with guard rules show ?thesis
      by (auto simp: get_rules_def assms(2) bindE_def on_redis_def list_rules_def ret_def)
  qed (use assms(2,3) ping in \<open>auto simp: root_route_def health_def on_redis_def ret_def\<close>)
qed

subsection \<open>Setting and lifting\<close>

text \<open>
  Setting and lifting a quarantine are inverse: for a user who is not quarantined, setting a
  quarantine (with a time to live within the bounds, or without one) succeeds and the detection
  side sees the user as quarantined; lifting it succeeds, restores the key space and the user is
  seen as free; lifting it once more answers 404.
\<close>

theorem quarantine_set_and_lifted:
  assumes "redis_up rc obs" and "api_redis A = rc" and "config_ok (api_redis_config A)"
    and "api_token A = Some t" and "\<forall>c\<in>set t. of_char c < (128 :: nat)"
    and "\<not> live (ks (obs (w_redis w))) (quarantine_key u)"
    and "case ttl of None \<Rightarrow> True | Some n \<Rightarrow> 1 \<le> n \<and> n \<le> 604800"
  shows "\<exists>x w1 y w2 d w3. serve A (Some t) client (AddQuarantine u ttl reason) w = (Inr x, w1) \<and>
    fst (is_user_quarantined rc u (w_redis w1)) = Inr True \<and>
    serve A (Some t) client (LiftQuarantine u) w1 = (Inr y, w2) \<and>
    fst (is_user_quarantined rc u (w_redis w2)) = Inr False \<and> ks (obs (w_redis w2)) = ks (obs (w_redis w)) \<and>
    serve A (Some t) client (LiftQuarantine u) w2 = (Inl (HTTPException 404 d), w3)"
proof -
  note run = serve_effect [OF assms(1-5), where client = client]
  let ?m = "ks (obs (w_redis w))"
  let ?n = "case ttl of None \<Rightarrow> quarantine_ttl_seconds (api_redis_config A) | Some n \<Rightarrow> n"
  let ?e = "mk_entry (RStr (''api:'' @ reason)) (Some ?n)"
  obtain x w1 where 1: "serve A (Some t) client (AddQuarantine u ttl reason) w = (Inr x, w1)"
    "ks (obs (w_redis w1)) = fmupd (quarantine_key u) ?e ?m"
    using run [of "AddQuarantine u ttl reason" w] assms(7) by (cases ttl) auto
  obtain y w2 where 2: "serve A (Some t) client (LiftQuarantine u) w1 = (Inr y, w2)"
    "ks (obs (w_redis w2)) = fmdrop (quarantine_key u) (fmupd (quarantine_key u) ?e ?m)"
    using run [of "LiftQuarantine u" w1] 1(2) by (auto simp: drop_rule_def)
  moreover have restored: "fmdrop (quarantine_key u) (fmupd (quarantine_key u) ?e ?m) = ?m"
    using assms(6) by (intro fmap_ext) auto
  moreover obtain d w3 where "serve A (Some t) client (LiftQuarantine u) w2 = (Inl (HTTPException 404 d), w3)"
    using run [of "LiftQuarantine u" w2] 2(2) restored assms(6) by (auto simp: drop_rule_def)
  ultimately show ?thesis
    using 1 assms(6) redis_up.rules_read(1) [OF assms(1)] by auto
qed

subsection \<open>The audit trail of overrides\<close>

fun override_fields :: "RedisConfig \<Rightarrow> request \<Rightarrow> string \<times> (string \<times> json) list" where
  "override_fields cfg (AddQuarantine u t reason) = (''manual_quarantine'', [(''user_id'', JStr u),
     (''ttl_seconds'', JInt (ttl_or t (quarantine_ttl_seconds cfg))), (''reason'', JStr reason)])"
| "override_fields cfg (AddIpBlock i t reason) = (''manual_ip_block'', [(''ip'', JStr i),
     (''ttl_seconds'', JInt (ttl_or t (ip_block_ttl_seconds cfg))), (''reason'', JStr reason)])"
| "override_fields cfg (LiftQuarantine u) = (''lift_quarantine'', [(''user_id'', JStr u)])"
| "override_fields cfg (ClearStepUp u) = (''clear_step_up'', [(''user_id'', JStr u)])"
| "override_fields cfg (LiftIpBlock i) = (''lift_ip_block'', [(''ip'', JStr i)])"
| "override_fields cfg _ = ([], [])"

definition override_msg :: "('r, 'k) api \<Rightarrow> string option \<Rightarrow> request \<Rightarrow> kafka_msg" where
  "override_msg A client req =
     (case override_fields (api_redis_config A) req of (action, kws) \<Rightarrow>
        \<lparr>m_topic = audit_log_topic (api_kafka_config A), m_value = override_record A client action kws,
         m_key = override_key kws\<rparr>)"

text \<open>An accepted override ends with its audit record, on the producer it started with.\<close>

lemma accepted_audits:
  assumes "serve A creds client req w = (Inr x, w')" and "is_override req"
    and "override_fields (api_redis_config A) req = (action, kws)"
  shows "\<exists>v. w_out v = w_out w \<and> audit A client action kws v = (Inr (), w')"
proof -
  have same: "w' = w" if "require_write A creds w = (Inr u, w')" for u and w w' :: "('r, 'k) api_world" and A :: "('r, 'k) api"
    using that by (auto simp: require_write_def require_read_def ret_def raise_exn_def split: if_splits option.splits sum.splits)
  have out: "w_out w' = w_out w" if "on_redis m w = (q, w')" for q and m :: "('r, reply) action" and w w' :: "('r, 'k) api_world"
    using that by (auto simp: on_redis_def split: prod.splits)
  have query: "w' = w \<and> t' = t" if "query_ttl b t w = (Inr t', w')" for b t t' and w w' :: "('r, 'k) api_world"
    using that by (auto simp: query_ttl_def ret_def raise_exn_def split: option.splits if_splits)
  show ?thesis
    using assms
    by (cases "(A, creds, client, req)" rule: serve.cases)
      (auto simp: add_quarantine_def lift_quarantine_def clear_step_up_def add_ip_block_def lift_ip_block_def Let_def
        bindE_Inr_iff ret_def raise_exn_def split: if_splits dest!: same query dest: out)
qed

text \<open>
  Accepted overrides are audited as far as the producer lets them: where there is a producer
  already or one can be created, and sending raises nothing but \<open>KafkaError\<close>, an accepted override
  has handed a record of who did what to whom to the producer, under the subject's key; unless the
  producer reported an error, that record is delivered or waiting for delivery.
\<close>

theorem override_is_audited:
  assumes "kafka_producer (api_lib A) delivered pending"
    and "\<forall>m c. fst (k_send (api_lib A) m c) \<in> {None, Some KafkaError}"
    and "serve A creds client req w = (Inr x, w')" and "is_override req"
    and "w_out w = Some p \<or> w_out w = None \<and> api_create A = Inr p"
  shows "\<exists>p'. w_out w' = Some p' \<and> (rtace_last_error p' = None \<longrightarrow>
    override_msg A client req \<in> set (delivered (p_client p')) \<union> set (pending (p_client p')))"
proof -
  obtain action kws where f: "override_fields (api_redis_config A) req = (action, kws)" by fastforce
  obtain v where v: "w_out v = w_out w" "audit A client action kws v = (Inr (), w')"
    using accepted_audits [OF assms(3,4) f] by blast
  let ?m = "override_msg A client req"
  obtain q p' where s: "send_message (api_lib A) (audit_log_topic (api_kafka_config A))
      (override_record A client action kws) (override_key kws) p = (q, p')" by fastforce
  have "q = Inr ()"
  proof -
    obtain r cbs c where k: "k_send (api_lib A) \<lparr>m_topic = audit_log_topic (api_kafka_config A),
        m_value = override_record A client action kws, m_key = override_key kws\<rparr> (p_client p) = (r, cbs, c)"
      by (cases "k_send (api_lib A) \<lparr>m_topic = audit_log_topic (api_kafka_config A),
        m_value = override_record A client action kws, m_key = override_key kws\<rparr> (p_client p)") auto
    with assms(2) have "r \<in> {None, Some KafkaError}" by (metis fst_conv)
    with s k show ?thesis by (auto simp: send_message_def Let_def)
  qed
  with s have "kafka_producer.tracked delivered pending {?m} p'"
    using kafka_producer.send_tracked [OF assms(1), of "{}" p] f
    by (simp add: kafka_producer.tracked_def [OF assms(1)] override_msg_def)
  moreover have "w_out w' = Some p'" using assms(5) v s by (auto simp: audit_def)
  ultimately show ?thesis by (auto simp: kafka_producer.tracked_def [OF assms(1)])
qed

subsection \<open>An application\<close>

definition sample_api :: "exn + ledger producer \<Rightarrow> (conn, ledger) api" where
  "sample_api create = \<lparr>api_redis = redis_step, api_lib = ledger_lib, api_create = create,
     api_redis_config = default_redis_config, api_kafka_config = default_kafka_config,
     api_token = Some ''s3cret'', api_now = ''now'', api_str = (\<lambda>_. [])\<rparr>"

definition idle_api :: "keyspace \<Rightarrow> (conn, ledger) api_world" where
  "idle_api m = \<lparr>w_redis = \<lparr>ks = m, watched = [], touched = False\<rparr>, w_out = None, w_metrics = []\<rparr>"

lemma sample_api_sel [simp]:
  "api_redis (sample_api c) = redis_step" "api_lib (sample_api c) = ledger_lib" "api_create (sample_api c) = c"
  "api_redis_config (sample_api c) = default_redis_config" "api_token (sample_api c) = Some ''s3cret''"
  "ks (w_redis (idle_api m)) = m" "w_out (idle_api m) = None"
  by (simp_all add: sample_api_def idle_api_def)

lemma ascii_token: "\<forall>c\<in>set ''s3cret''. of_char c < (128 :: nat)"
  by simp

theorem overrides_need_the_token_witness:
  "\<exists>e. serve (sample_api (Inr empty_ledger)) (Some ''guess'') None (LiftQuarantine ''user_1'') (idle_api sample_rules) =
     (Inl e, idle_api sample_rules)"
  using overrides_need_the_token [of "LiftQuarantine ''user_1''" "sample_api (Inr empty_ledger)" "Some ''guess''" None "idle_api sample_rules"]
  by auto

theorem override_effect_witness:
  "\<exists>x w'. serve (sample_api (Inr empty_ledger)) (Some ''s3cret'') None (LiftQuarantine ''user_1'') (idle_api sample_rules) = (Inr x, w') \<and>
     ks (w_redis w') = fmdrop (quarantine_key ''user_1'') sample_rules"
proof -
  have "live sample_rules (quarantine_key ''user_1'')" by (simp add: sample_rules_def)
  then show ?thesis
    using override_effect [OF mem.redis_up_axioms, of "sample_api (Inr empty_ledger)" "''s3cret''" "LiftQuarantine ''user_1''" None "idle_api sample_rules"]
      ascii_token by (auto simp: drop_rule_def)
qed

theorem reads_change_nothing_witness:
  "\<exists>x w'. serve (sample_api (Inr empty_ledger)) (Some ''s3cret'') None GetRules (idle_api sample_rules) = (Inr x, w') \<and>
     ks (w_redis w') = sample_rules"
proof -
  have "\<forall>(name, pfx, sf)\<in>set RULE_GROUPS. texts_under (ks (w_redis (idle_api sample_rules))) pfx"
    by (auto simp: sample_rules_texts)
  moreover have "require_read (sample_api (Inr empty_ledger)) (Some ''s3cret'') w = (Inr (), w)" for w :: "(conn, ledger) api_world"
    by (simp add: require_read_def compare_digest_def ret_def)
  ultimately show ?thesis
    using reads_change_nothing [OF mem.redis_up_axioms, of "sample_api (Inr empty_ledger)" GetRules "idle_api sample_rules" "Some ''s3cret''" None]
    by auto
qed

theorem quarantine_set_and_lifted_witness:
  "\<exists>x w1 y w2. serve (sample_api (Inr empty_ledger)) (Some ''s3cret'') None (AddQuarantine ''u'' (Some 60) ''fraud'') (idle_api fmempty) = (Inr x, w1) \<and>
     fst (is_user_quarantined redis_step ''u'' (w_redis w1)) = Inr True \<and>
     serve (sample_api (Inr empty_ledger)) (Some ''s3cret'') None (LiftQuarantine ''u'') w1 = (Inr y, w2) \<and> ks (w_redis w2) = fmempty"
  using quarantine_set_and_lifted [OF mem.redis_up_axioms, of "sample_api (Inr empty_ledger)" "''s3cret''" "idle_api fmempty" "''u''" "Some 60" None "''fraud''"]
    ascii_token by auto

lemma quarantine_accepted:
  "\<exists>x w'. serve (sample_api c) (Some ''s3cret'') None (AddQuarantine ''u'' None ''fraud'') (idle_api fmempty) = (Inr x, w') \<and>
     live (ks (w_redis w')) (quarantine_key ''u'')"
  using serve_effect [OF mem.redis_up_axioms, of "sample_api c" "''s3cret''" "AddQuarantine ''u'' None ''fraud''" None "idle_api fmempty"]
    ascii_token by auto

theorem override_is_audited_witness:
  "\<exists>x w' p'. serve (sample_api (Inr empty_ledger)) (Some ''s3cret'') None (AddQuarantine ''u'' None ''fraud'') (idle_api fmempty) = (Inr x, w') \<and>
     w_out w' = Some p' \<and> (rtace_last_error p' = None \<longrightarrow>
       override_msg (sample_api (Inr empty_ledger)) None (AddQuarantine ''u'' None ''fraud'')
         \<in> set (l_delivered (p_client p')) \<union> set (l_pending (p_client p')))"
proof -
  obtain x w' where run: "serve (sample_api (Inr empty_ledger)) (Some ''s3cret'') None (AddQuarantine ''u'' None ''fraud'') (idle_api fmempty) = (Inr x, w')"
    using quarantine_accepted by blast
  have "kafka_producer (api_lib (sample_api (Inr empty_ledger))) l_delivered l_pending"
    "\<forall>m c. fst (k_send (api_lib (sample_api (Inr empty_ledger))) m c) \<in> {None, Some KafkaError}"
    using ledger.kafka_producer_axioms by simp_all (simp add: ledger_lib_def)
  from override_is_audited [OF this run] run show ?thesis by auto
qed

text \<open>
  An override can go unaudited: when no producer can be created, setting a quarantine is accepted
  and takes effect, but there is no producer afterwards either, so no audit record was sent.
\<close>

theorem override_unaudited:
  "\<exists>x w'. serve (sample_api (Inl KafkaError)) (Some ''s3cret'') None (AddQuarantine ''u'' None ''fraud'') (idle_api fmempty) = (Inr x, w') \<and>
     live (ks (w_redis w')) (quarantine_key ''u'') \<and> w_out w' = None"
proof -
  obtain x w' where run: "serve (sample_api (Inl KafkaError)) (Some ''s3cret'') None (AddQuarantine ''u'' None ''fraud'') (idle_api fmempty) = (Inr x, w')"
    "live (ks (w_redis w')) (quarantine_key ''u'')"
    using quarantine_accepted by blast
  obtain v where "w_out v = None" "audit (sample_api (Inl KafkaError)) None
      (fst (override_fields default_redis_config (AddQuarantine ''u'' None ''fraud'')))
      (snd (override_fields default_redis_config (AddQuarantine ''u'' None ''fraud''))) v = (Inr (), w')"
    using accepted_audits [OF run(1), of "fst (override_fields default_redis_config (AddQuarantine ''u'' None ''fraud''))"] by auto
  then have "w_out w' = None" by (auto simp: audit_def)
  with run show ?thesis by blast
qed

end
