(* ===== verification/System.thy ===== *)
theory System
  imports DetectionTheorems ApiProps
begin

text \<open>
  The services together. They share nothing but one Redis server and the topics: each has a
  connection of its own, and what one of them writes another reads from the same key space. The
  theorems follow a user through detection, containment, enforcement and a manual override.
\<close>

subsection \<open>Rules keep the key space sound\<close>

text \<open>The keys that hold neither a check's state nor a stored decision.\<close>

definition plain_key :: "string \<Rightarrow> bool" where
  "plain_key k \<longleftrightarrow> \<not> zset_key k \<and> \<not> hash_key k \<and> \<not> prefix DECISION_RESULT_PREFIX k"

lemma plain_rule_keys [simp]:
  "plain_key (quarantine_key u)" "plain_key (step_up_key u)" "plain_key (ip_block_key i)" "plain_key (receipt_key d)"
  by (simp_all add: plain_key_def zset_key_def hash_key_def DECISION_RESULT_PREFIX_def receipt_key_def
      RECEIPT_PREFIX_def key_defs)

lemma plain_not_decision: "plain_key k \<Longrightarrow> decision_key (Tx tx) \<noteq> k"
  by (auto simp: plain_key_def)

lemma sound_put: "sound P m \<Longrightarrow> plain_key k \<Longrightarrow> sound P (fmupd k (mk_entry (RStr v) t) m)"
  using plain_not_decision [of k]
  by (auto simp: sound_def decisions_ok_def decision_reply_def plain_key_def simp del: decision_key.simps)

lemma sound_drop: "sound P m \<Longrightarrow> plain_key k \<Longrightarrow> sound P (fmdrop k m)"
  using plain_not_decision [of k]
  by (auto simp: sound_def decisions_ok_def decision_reply_def typed_ks_def simp del: decision_key.simps)

lemma sound_puts:
  "sound P m \<Longrightarrow> \<forall>(k, t)\<in>set ws. plain_key k \<Longrightarrow>
   sound P (fold (\<lambda>(key, ttl). fmupd key (mk_entry (RStr v) (Some ttl))) ws m)"
  by (induction ws arbitrary: m) (auto intro: sound_put)

lemma policy_plain: "\<forall>(k, t)\<in>set (snd (policy p d cfg)). plain_key k"
  by (auto simp: policy_def Let_def split: option.splits)

lemma sound_contain:
  assumes "sound P m" and "contain cfg d m = (r, m')"
  shows "sound P m'"
proof (cases "fmlookup m (receipt_key d)")
  case None
  obtain actions writes where pol: "policy (live m (guard_key d)) d cfg = (actions, writes)" by fastforce
  then have "\<forall>(k, t)\<in>set writes. plain_key k" using policy_plain by (metis snd_conv)
  then have "sound P (write_rules cfg d actions writes m)"
    unfolding write_rules_def using assms(1) by (intro sound_puts sound_put) simp_all
  with assms None pol show ?thesis by (auto simp: contain_def split: if_splits)
next
  case (Some e)
  with assms show ?thesis by (auto simp: contain_def split: rval.splits)
qed

subsection \<open>Refusal\<close>

text \<open>A batch of refused events emits nothing, stores nothing and audits each of them.\<close>

definition refuses :: "('r, 'p) DetectionPipeline \<Rightarrow> ('r \<Rightarrow> conn) \<Rightarrow> Item list \<Rightarrow> ('r, 'p) world \<Rightarrow> bool" where
  "refuses P obs items w \<longleftrightarrow> (\<exists>r w'. run_batch P items w = (Inr r, w') \<and> emitted r = [] \<and>
     claimed_cooldown_keys r = [] \<and> ks (obs (w_redis w')) = ks (obs (w_redis w)) \<and>
     w_out w' = audits P (map it_event items) (w_out w))"

lemma all_refused:
  assumes "redis_up (dp_redis P) obs" and "sound P (ks (obs (w_redis w)))"
    and "\<forall>it\<in>set items. live (ks (obs (w_redis w))) (enforcement_key (it_event it))"
  shows "refuses P obs items w"
proof -
  let ?m = "ks (obs (w_redis w))"
  have "active_items ?m items = []" using assms(3) by (simp add: active_items_def)
  then have "batch_outcome P ?m items = ([], ?m)"
    by (simp add: batch_outcome_def batch_candidates_def Let_def claim_Nil)
  moreover have "filter (\<lambda>it. live ?m (enforcement_key (it_event it))) items = items"
    using assms(3) by simp
  ultimately show ?thesis
    unfolding refuses_def
    using run_batch_run [OF assms(1) refl refl assms(2), of items "[]" ?m] by (auto simp: send_all_def)
qed

text \<open>The events a contained detection bears on.\<close>

fun concerns :: "DetectionEvent \<Rightarrow> event \<Rightarrow> bool" where
  "concerns d (Tx tx) = (tx_user_id tx = de_user_id d)"
| "concerns d (Auth au) = blocks_ip d (ip_block_key (au_ip_address au))"

lemma concerned_blocked:
  assumes "quarantines m d" and "concerns d ev" and "\<forall>k. fmlookup m' k = entry_after cfg d m actions k"
  shows "live m' (enforcement_key ev)"
proof -
  have "entry_after cfg d m actions (enforcement_key ev) \<noteq> None"
    using assms(1,2) by (cases ev) (auto simp: entry_after_def)
  with assms(3) show ?thesis by simp
qed

lemma contained_refused:
  assumes "redis_up (dp_redis P) obsD" and "sound P (ks (obsC s))"
    and "redis_up rcC obsC" and "config_ok cfg" and "\<not> touched (obsC s)"
    and "\<not> live (ks (obsC s)) (receipt_key d)" and "quarantines (ks (obsC s)) d"
    and "\<forall>it\<in>set later. concerns d (it_event it)"
  shows "\<exists>actions s'. apply_containment rcC cfg (Suc n) d s = (Inr (Some actions), s') \<and>
    (\<forall>v. ks (obsD (w_redis v)) = ks (obsC s') \<longrightarrow> refuses P obsD later v)"
proof -
  obtain actions m' where c: "contain cfg d (ks (obsC s)) = (Inr actions, m')"
    and k: "\<forall>k. fmlookup m' k = entry_after cfg d (ks (obsC s)) actions k"
    using contain_fresh [OF assms(6)] by blast
  obtain s' where run: "apply_containment rcC cfg (Suc n) d s = (Inr (Some actions), s')" "ks (obsC s') = m'"
    using redis_up.apply_containment_run [OF assms(3-5) c] by blast
  have "refuses P obsD later v" if "ks (obsD (w_redis v)) = m'" for v
  proof (rule all_refused [OF assms(1)])
    show "sound P (ks (obsD (w_redis v)))" using sound_contain [OF assms(2) c] that by simp
    show "\<forall>it\<in>set later. live (ks (obsD (w_redis v))) (enforcement_key (it_event it))"
      using concerned_blocked [OF assms(7) _ k] assms(8) that by simp
  qed
  with run show ?thesis by blast
qed

subsection \<open>From a detection to refused traffic\<close>

lemma emitted_named:
  assumes "redis_up (dp_redis P) obs" and "sound P (ks (obs (w_redis w)))"
    and "run_batch P items w = (Inr r, w')" and "d \<in> set (emitted r)"
  shows "\<exists>it\<in>set items. names_event d (it_event it)"
proof -
  let ?m = "ks (obs (w_redis w))"
  obtain ds m' where out: "batch_outcome P ?m items = (ds, m')" by fastforce
  with run_batch_run [OF assms(1) refl refl assms(2) out] assms(3,4) have "d \<in> set ds" by auto
  with out have "d \<in> set (batch_candidates P ?m items)"
    by (auto simp: batch_outcome_def Let_def dest: winners_free)
  then show ?thesis using candidates_traced by blast
qed

text \<open>
  (C3) A detection ends in refused traffic: a detection that a batch emitted names the user of one of
  its records; whenever the containment engine gets to it, on a key space it has not yet been
  applied to, with a type that quarantines (a replay, a burst, credential stuffing, or a geo
  anomaly of a user who already has a step-up pending), containment succeeds, and from then on every
  batch of that user's transactions, and of logins from the address it blocks, is refused: no
  detection, no cooldown, no change of any key, one audit message per event.
\<close>

theorem detection_to_refusal:
  assumes "redis_up (dp_redis P) obsD" and "sound P (ks (obsD (w_redis w)))"
    and "run_batch P items w = (Inr r, w')" and "d \<in> set (emitted r)"
    and "redis_up rcC obsC" and "config_ok cfg" and "\<not> touched (obsC s)" and "sound P (ks (obsC s))"
    and "\<not> live (ks (obsC s)) (receipt_key d)" and "quarantines (ks (obsC s)) d"
    and "\<forall>it\<in>set later. concerns d (it_event it)"
  shows "(\<exists>it\<in>set items. names_event d (it_event it)) \<and>
    (\<exists>actions s'. apply_containment rcC cfg (Suc n) d s = (Inr (Some actions), s') \<and>
       (\<forall>v. ks (obsD (w_redis v)) = ks (obsC s') \<longrightarrow> refuses P obsD later v))"
  using emitted_named [OF assms(1-4)] contained_refused [OF assms(1,8,5-7,9-11)] by blast

text \<open>
  (C31) A manual quarantine is enforced and can be taken back: after the API accepts a quarantine, every
  batch of the user's transactions is refused by the detection engine; after it is lifted, a batch
  has the outcome it would have had without it.
\<close>

theorem manual_quarantine_enforced:
  assumes "redis_up rcA obsA" and "api_redis A = rcA" and "config_ok (api_redis_config A)"
    and "api_token A = Some t" and "\<forall>c\<in>set t. of_char c < (128 :: nat)"
    and "\<not> live (ks (obsA (w_redis w))) (quarantine_key u)"
    and "case ttl of None \<Rightarrow> True | Some n \<Rightarrow> 1 \<le> n \<and> n \<le> 604800"
    and "redis_up (dp_redis P) obsD" and "sound P (ks (obsA (w_redis w)))"
    and "\<forall>it\<in>set items. \<exists>tx. it_event it = Tx tx \<and> tx_user_id tx = u"
  shows "\<exists>x w1 y w2. serve A (Some t) client (AddQuarantine u ttl reason) w = (Inr x, w1) \<and>
    (\<forall>v. ks (obsD (w_redis v)) = ks (obsA (w_redis w1)) \<longrightarrow> refuses P obsD items v) \<and>
    serve A (Some t) client (LiftQuarantine u) w1 = (Inr y, w2) \<and>
    (\<forall>v. ks (obsD (w_redis v)) = ks (obsA (w_redis w2)) \<longrightarrow>
       (\<exists>r v'. run_batch P others v = (Inr r, v') \<and>
          (emitted r, ks (obsD (w_redis v'))) = batch_outcome P (ks (obsA (w_redis w))) others))"
proof -
  let ?m = "ks (obsA (w_redis w))" and ?k = "quarantine_key u"
  let ?n = "case ttl of None \<Rightarrow> quarantine_ttl_seconds (api_redis_config A) | Some n \<Rightarrow> n"
  let ?m1 = "fmupd ?k (mk_entry (RStr (''api:'' @ reason)) (Some ?n)) ?m"
  note run = serve_effect [OF assms(1-5), where client = client]
  obtain x w1 where 1: "serve A (Some t) client (AddQuarantine u ttl reason) w = (Inr x, w1)"
    "ks (obsA (w_redis w1)) = ?m1"
    using run [of "AddQuarantine u ttl reason" w] assms(7) by (cases ttl) auto
  have restored: "fmdrop ?k ?m1 = ?m" using assms(6) by (intro fmap_ext) auto
  obtain y w2 where 2: "serve A (Some t) client (LiftQuarantine u) w1 = (Inr y, w2)" "ks (obsA (w_redis w2)) = ?m"
    using run [of "LiftQuarantine u" w1] 1(2) restored by (auto simp: drop_rule_def)
  have "sound P ?m1" using assms(9) by (simp add: sound_put)
  then have on: "refuses P obsD items v" if "ks (obsD (w_redis v)) = ?m1" for v
    using assms(10) that by (intro all_refused [OF assms(8)]) auto
  have off: "\<exists>r v'. run_batch P others v = (Inr r, v') \<and> (emitted r, ks (obsD (w_redis v'))) = batch_outcome P ?m others"
    if v: "ks (obsD (w_redis v)) = ?m" for v
  proof -
    obtain ds m' where out: "batch_outcome P ?m others = (ds, m')" by fastforce
    from run_batch_run [OF assms(8) refl v [symmetric] assms(9) this] out show ?thesis by fastforce
  qed
  have "\<forall>v. ks (obsD (w_redis v)) = ks (obsA (w_redis w1)) \<longrightarrow> refuses P obsD items v"
    using on 1(2) by simp
  moreover have "\<forall>v. ks (obsD (w_redis v)) = ks (obsA (w_redis w2)) \<longrightarrow> (\<exists>r v'. run_batch P others v = (Inr r, v') \<and>
      (emitted r, ks (obsD (w_redis v'))) = batch_outcome P ?m others)"
    using off 2(2) by simp
  ultimately show ?thesis using 1(1) 2(1) by blast
qed

text \<open>
  (C30) A lifted quarantine stays lifted: after a detection was contained and an operator lifted the
  quarantine it set, a redelivery of the detection returns the same actions, changes no key and
  leaves the user free.
\<close>

theorem lifted_stays_lifted:
  assumes "redis_up rcC obsC" and "config_ok cfg" and "\<not> touched (obsC s)"
    and "\<not> live (ks (obsC s)) (receipt_key d)" and "quarantines (ks (obsC s)) d"
    and "redis_up rcA obsA" and "api_redis A = rcA" and "config_ok (api_redis_config A)"
    and "api_token A = Some t" and "\<forall>c\<in>set t. of_char c < (128 :: nat)"
  shows "\<exists>actions s1. apply_containment rcC cfg (Suc n) d s = (Inr (Some actions), s1) \<and>
    live (ks (obsC s1)) (quarantine_key (de_user_id d)) \<and>
    (\<forall>w. ks (obsA (w_redis w)) = ks (obsC s1) \<longrightarrow>
       (\<exists>x w'. serve A (Some t) client (LiftQuarantine (de_user_id d)) w = (Inr x, w') \<and>
          (\<forall>s2. ks (obsC s2) = ks (obsA (w_redis w')) \<and> \<not> touched (obsC s2) \<longrightarrow>
             (\<exists>s3. apply_containment rcC cfg (Suc n) d s2 = (Inr (Some actions), s3) \<and>
                ks (obsC s3) = ks (obsC s2) \<and> \<not> live (ks (obsC s3)) (quarantine_key (de_user_id d))))))"
proof -
  let ?k = "quarantine_key (de_user_id d)"
  obtain actions m1 where c: "contain cfg d (ks (obsC s)) = (Inr actions, m1)"
    and k: "\<forall>k. fmlookup m1 k = entry_after cfg d (ks (obsC s)) actions k"
    using contain_fresh [OF assms(4)] by blast
  obtain s1 where 1: "apply_containment rcC cfg (Suc n) d s = (Inr (Some actions), s1)" "ks (obsC s1) = m1"
    using redis_up.apply_containment_run [OF assms(1-3) c] by blast
  have set: "live m1 ?k" using k assms(5) by (simp add: entry_after_def)
  have lift: "\<exists>x w'. serve A (Some t) client (LiftQuarantine (de_user_id d)) w = (Inr x, w') \<and>
      ks (obsA (w_redis w')) = fmdrop ?k m1" if "ks (obsA (w_redis w)) = m1" for w
    using serve_effect [OF assms(6-10), of "LiftQuarantine (de_user_id d)" client w] that set
    by (auto simp: drop_rule_def)
  have again: "contain cfg d (fmdrop ?k m1) = (Inr actions, fmdrop ?k m1)"
    by (rule contain_again [OF c]) (simp add: unchanged_def)
  have free: "\<not> live (fmdrop ?k m1) ?k" by simp
  have redo: "\<exists>s3. apply_containment rcC cfg (Suc n) d s2 = (Inr (Some actions), s3) \<and>
      ks (obsC s3) = ks (obsC s2) \<and> \<not> live (ks (obsC s3)) ?k"
    if s2: "ks (obsC s2) = fmdrop ?k m1" "\<not> touched (obsC s2)" for s2
    using redis_up.apply_containment_run [OF assms(1,2) s2(2) again [folded s2(1)], of n] free unfolding s2(1) by metis
  show ?thesis
    using 1 set lift redo by (intro exI [of _ actions] exI [of _ s1]) (simp del: apply_containment.simps, metis)
qed

subsection \<open>Concrete runs\<close>

text \<open>
  The traveller's anomaly, contained while a step-up is pending: the next transaction from home is
  refused.
\<close>

definition pending_step_up :: conn where
  "pending_step_up = conn_with (fmupd (step_up_key ''user_1'') (mk_entry (RStr ''det-geo-0'') (Some 900)) fmempty)"

lemma pending_sound: "sound sample_detector (ks pending_step_up)"
  unfolding pending_step_up_def conn_with_def conn.select_convs
  by (intro sound_put sample_sound) simp_all

theorem detection_to_refusal_witness:
  "\<exists>r w' d actions s'. run_batch sample_detector trip (world_with settled) = (Inr r, w') \<and> emitted r = [d] \<and>
     apply_containment redis_step default_redis_config 1 d pending_step_up = (Inr (Some actions), s') \<and>
     (\<forall>v. ks (w_redis v) = ks s' \<longrightarrow> refuses sample_detector (\<lambda>s. s) [new_item 0 (Tx home) ''tx-events:0:3''] v)"
proof -
  obtain d where out: "batch_outcome sample_detector settled trip = ([d], claim 60 [d] returned)"
    and d: "detection_type d = ''geo_velocity_anomaly''" "de_user_id d = ''user_1''"
    using trip_outcome by blast
  obtain w' where run: "run_batch sample_detector trip (world_with settled) =
      (Inr \<lparr>emitted = [d], br_failures = [], claimed_cooldown_keys = map cooldown_key [d]\<rparr>, w')" (is "_ = (Inr ?r, _)")
    using run_batch_run [OF mem.redis_up_axioms sample_detector_redis, of settled "world_with settled" trip] out settled_sound
    by auto
  have up: "redis_up (dp_redis sample_detector) (\<lambda>s. s)" using mem.redis_up_axioms by simp
  have q: "quarantines (ks pending_step_up) d" "\<not> live (ks pending_step_up) (receipt_key d)" "\<not> touched pending_step_up"
    using d by (simp_all add: quarantines_def pending_step_up_def conn_with_def)
  have "\<exists>actions s'. apply_containment redis_step default_redis_config (Suc 0) d pending_step_up = (Inr (Some actions), s') \<and>
       (\<forall>v. ks (w_redis v) = ks s' \<longrightarrow> refuses sample_detector (\<lambda>s. s) [new_item 0 (Tx home) ''tx-events:0:3''] v)"
    using detection_to_refusal [OF up _ run _ mem.redis_up_axioms default_config_ok q(3) pending_sound q(2,1),
        of "[new_item 0 (Tx home) ''tx-events:0:3'']" 0] settled_sound d
    by (simp add: home_def sample_tx_def del: apply_containment.simps)
  with run show ?thesis unfolding One_nat_def by (metis BatchResult.select_convs(1))
qed

theorem manual_quarantine_enforced_witness:
  "\<exists>x w1. serve (sample_api (Inr empty_ledger)) (Some ''s3cret'') None (AddQuarantine ''user_1'' (Some 60) ''fraud'') (idle_api settled) = (Inr x, w1) \<and>
     (\<forall>v. ks (w_redis v) = ks (w_redis w1) \<longrightarrow> refuses sample_detector (\<lambda>s. s) trip v)"
proof -
  have up: "redis_up (dp_redis sample_detector) (\<lambda>s. s)" using mem.redis_up_axioms by simp
  have "\<forall>it\<in>set trip. \<exists>tx. it_event it = Tx tx \<and> tx_user_id tx = ''user_1''"
    by (simp add: trip_def far_def home_def sample_tx_def)
  then show ?thesis
    using manual_quarantine_enforced [OF mem.redis_up_axioms _ _ _ _ _ _ up, of "sample_api (Inr empty_ledger)" "''s3cret''"
        "idle_api settled" "''user_1''" "Some 60" trip None "''fraud''" trip] ascii_token settled_sound
    by (auto simp: settled_def key_defs)
qed

theorem lifted_stays_lifted_witness:
  "\<exists>actions s1. apply_containment redis_step default_redis_config 1 (sample_detection ''d1'' ''u'') (conn_with fmempty) =
       (Inr (Some actions), s1) \<and>
     (\<exists>x w'. serve (sample_api (Inr empty_ledger)) (Some ''s3cret'') None (LiftQuarantine ''u'') (idle_api (ks s1)) = (Inr x, w') \<and>
        (\<exists>s3. apply_containment redis_step default_redis_config 1 (sample_detection ''d1'' ''u'') (conn_with (ks (w_redis w'))) =
             (Inr (Some actions), s3) \<and> \<not> live (ks s3) (quarantine_key ''u'')))"
proof -
  let ?d = "sample_detection ''d1'' ''u''"
  have d: "quarantines fmempty ?d" "de_user_id ?d = ''u''" by (simp_all add: quarantines_def sample_detection_def)
  have c: "ks (conn_with m) = m" "\<not> touched (conn_with m)" for m by (simp_all add: conn_with_def)
  obtain actions s1 where 1: "apply_containment redis_step default_redis_config (Suc 0) ?d (conn_with fmempty) = (Inr (Some actions), s1)"
    and lift: "\<forall>w. ks (w_redis w) = ks s1 \<longrightarrow>
       (\<exists>x w'. serve (sample_api (Inr empty_ledger)) (Some ''s3cret'') None (LiftQuarantine ''u'') w = (Inr x, w') \<and>
          (\<forall>s2. ks s2 = ks (w_redis w') \<and> \<not> touched s2 \<longrightarrow>
             (\<exists>s3. apply_containment redis_step default_redis_config (Suc 0) ?d s2 = (Inr (Some actions), s3) \<and>
                ks s3 = ks s2 \<and> \<not> live (ks s3) (quarantine_key ''u''))))"
    using lifted_stays_lifted [OF mem.redis_up_axioms default_config_ok, of "conn_with fmempty" ?d redis_step "\<lambda>s. s" "sample_api (Inr empty_ledger)"
        "''s3cret''" 0 None] mem.redis_up_axioms ascii_token d c
    by (auto simp del: apply_containment.simps serve.simps)
  then obtain x w' where 2: "serve (sample_api (Inr empty_ledger)) (Some ''s3cret'') None (LiftQuarantine ''u'') (idle_api (ks s1)) = (Inr x, w')"
    and redo: "\<forall>s2. ks s2 = ks (w_redis w') \<and> \<not> touched s2 \<longrightarrow>
       (\<exists>s3. apply_containment redis_step default_redis_config (Suc 0) ?d s2 = (Inr (Some actions), s3) \<and>
          ks s3 = ks s2 \<and> \<not> live (ks s3) (quarantine_key ''u''))"
    by (metis sample_api_sel(6))
  from redo c obtain s3 where "apply_containment redis_step default_redis_config (Suc 0) ?d (conn_with (ks (w_redis w'))) = (Inr (Some actions), s3)"
    "\<not> live (ks s3) (quarantine_key ''u'')" by blast
  with 1 2 show ?thesis unfolding One_nat_def by blast
qed

end
