(* ===== verification/Typing.thy ===== *)
theory Typing
  imports System
begin

text \<open>
  A type discipline for the one key space the services share. The type of a key's value follows
  from its name (\<open>fits\<close>), every text has a time to live, and a stored decision can be read; a command is well typed when it
  treats its key as what the name says. Well-typed commands keep the discipline and are never
  answered WRONGTYPE. Every routine of every service sends well-typed commands only, so the
  discipline survives any interleaving of the services, outages included, and no service ever meets
  a key of the wrong type. \<open>well I m Q\<close> is the judgement the routines are checked with.
\<close>

named_theorems well_intros \<open>typing rules for actions\<close>

subsection \<open>Key spaces\<close>

text \<open>What the decision service may store: a result the detection pipeline can read.\<close>

definition readable :: "string \<Rightarrow> string \<Rightarrow> bool" where
  "readable k v \<longleftrightarrow> (prefix DECISION_RESULT_PREFIX k \<longrightarrow> (\<forall>tx. \<exists>ds. detections_from_decision tx (RBulk v) = Inr ds))"

fun sane :: "string \<Rightarrow> rval \<Rightarrow> bool" where
  "sane k (RStr v) = (\<not> zset_key k \<and> \<not> hash_key k \<and> readable k v)"
| "sane k (RZSet _) = zset_key k"
| "sane k (RHash _) = hash_key k"

text \<open>A text that expires, sooner or later.\<close>

definition mortal :: "entry \<Rightarrow> bool" where
  "mortal e \<longleftrightarrow> (case e_val e of RStr _ \<Rightarrow> (case e_ttl e of None \<Rightarrow> False | Some t \<Rightarrow> 0 < t) | _ \<Rightarrow> True)"

definition sane_ks :: "keyspace \<Rightarrow> bool" where
  "sane_ks m \<longleftrightarrow> fmpred (\<lambda>k e. sane k (e_val e) \<and> mortal e) m"

lemma sane_empty [simp]: "sane_ks fmempty"
  by (simp add: sane_ks_def)

lemma mortal_simps [simp]: "mortal (mk_entry (RStr v) (Some t)) \<longleftrightarrow> 0 < t" "mortal (mk_entry (RZSet z) x)" "mortal (mk_entry (RHash h) x)"
  by (simp_all add: mortal_def)

lemma mortal_expire: "0 < t \<Longrightarrow> mortal (e\<lparr>e_ttl := Some t\<rparr>)"
  by (simp add: mortal_def split: rval.splits)

lemma sane_upd [intro]: "sane_ks m \<Longrightarrow> sane k (e_val e) \<Longrightarrow> mortal e \<Longrightarrow> sane_ks (fmupd k e m)"
  by (auto simp: sane_ks_def)

lemma sane_drops [intro]: "sane_ks m \<Longrightarrow> sane_ks (fmdrop k m)" "sane_ks m \<Longrightarrow> sane_ks (fmdrop_set A m)"
  by (auto simp: sane_ks_def)

lemma sane_lookup: "sane_ks m \<Longrightarrow> fmlookup m k = Some e \<Longrightarrow> sane k (e_val e)"
  by (auto simp: sane_ks_def)

lemma sane_mortal: "sane_ks m \<Longrightarrow> fmlookup m k = Some e \<Longrightarrow> mortal e"
  by (auto simp: sane_ks_def)

lemma sane_fits: "sane k v \<Longrightarrow> fits k v"
  by (cases v) simp_all

lemma sane_typed: "sane_ks m \<Longrightarrow> typed_ks m"
  by (auto simp: sane_ks_def typed_ks_def intro: sane_fits)

lemma sane_decisions:
  assumes "sane_ks m"
  shows "decisions_ok m"
  unfolding decisions_ok_def
proof
  fix tx
  let ?k = "decision_key (Tx tx)"
  show "\<exists>ds. detections_from_decision tx (decision_reply m ?k) = Inr ds"
  proof (cases "\<exists>e v. fmlookup m ?k = Some e \<and> e_val e = RStr v")
    case True
    then obtain e v where e: "fmlookup m ?k = Some e" "e_val e = RStr v" by blast
    have "prefix DECISION_RESULT_PREFIX ?k" by simp
    with sane_lookup [OF assms e(1)] e(2) show ?thesis
      by (simp add: decision_reply_def readable_def e del: decision_key.simps)
  next
    case False
    then show ?thesis
      by (auto simp: decision_reply_def detections_from_decision_def simp del: decision_key.simps
          split: option.splits rval.splits)
  qed
qed

text \<open>A sane key space is all that the theorems about a well-configured pipeline ask of it.\<close>

lemma sane_sound:
  "sane_ks m \<Longrightarrow> config_ok (dp_redis_config P) \<Longrightarrow> 0 < detection_cooldown_seconds (dp_redis_config P) \<Longrightarrow>
   emits_ok P \<Longrightarrow> sound P m"
  by (simp add: sound_def sane_typed sane_decisions)

subsection \<open>Commands\<close>

definition text_key :: "string \<Rightarrow> bool" where
  "text_key k \<longleftrightarrow> \<not> zset_key k \<and> \<not> hash_key k"

fun cmd_ok :: "cmd \<Rightarrow> bool" where
  "cmd_ok (GET k) = text_key k"
| "cmd_ok (SET_NX_EX k v t) = (text_key k \<and> readable k v)"
| "cmd_ok (SET_EX k v t) = (text_key k \<and> readable k v)"
| "cmd_ok (SET k v) = False"
| "cmd_ok (ZREMRANGEBYSCORE k c) = zset_key k"
| "cmd_ok (ZADD k sc x) = zset_key k"
| "cmd_ok (ZCARD k) = zset_key k"
| "cmd_ok (HMGET k fs) = hash_key k"
| "cmd_ok (HSET k fvs) = hash_key k"
| "cmd_ok (EXEC cs) = (\<forall>c\<in>set cs. cmd_ok c)"
| "cmd_ok _ = True"

text \<open>The shape of the reply a command gets when it does not fail.\<close>

fun reply_fits :: "cmd \<Rightarrow> reply \<Rightarrow> bool" where
  "reply_fits PING r = (r = ROk)"
| "reply_fits (GET k) r = (r = RNil \<or> (\<exists>v. r = RBulk v))"
| "reply_fits (SET_NX_EX k v t) r = (r = ROk \<or> r = RNil)"
| "reply_fits (SET_EX k v t) r = (r = ROk)"
| "reply_fits (SET k v) r = (r = ROk)"
| "reply_fits (SCAN p) r = (\<exists>kl. r = RKeys kl \<and> (\<forall>k\<in>set kl. prefix p k))"
| "reply_fits (HMGET k fs) r = (\<exists>xs. r = RNums xs \<and> length xs = length fs)"
| "reply_fits (WATCH keys) r = (r = ROk)"
| "reply_fits UNWATCH r = (r = ROk)"
| "reply_fits (EXEC cs) r = (\<exists>rs. r = RMulti rs \<and> length rs = length cs)"
| "reply_fits _ r = (\<exists>i. r = RInt i)"

lemma typed_values:
  assumes "sane_ks m"
  shows "text_key k \<Longrightarrow> fmlookup m k = Some e \<Longrightarrow> \<exists>v. e_val e = RStr v"
    and "zset_key k \<Longrightarrow> \<exists>z. zset_of (fmlookup m k) = Some z"
    and "hash_key k \<Longrightarrow> \<exists>h. hash_of (fmlookup m k) = Some h"
proof -
  show "\<exists>v. e_val e = RStr v" if "text_key k" "fmlookup m k = Some e"
    using sane_lookup [OF assms that(2)] that(1) by (cases "e_val e") (simp_all add: text_key_def)
  show "\<exists>z. zset_of (fmlookup m k) = Some z" if "zset_key k"
    using sane_lookup [OF assms, of k] that zset_hash_keys [OF that]
    by (cases "fmlookup m k") (auto split: rval.splits)
  show "\<exists>h. hash_of (fmlookup m k) = Some h" if "hash_key k"
    using sane_lookup [OF assms, of k] that zset_hash_keys [of k]
    by (cases "fmlookup m k") (auto split: rval.splits)
qed

text \<open>What a typed command leaves behind: a sane key space, and a reply of its shape.\<close>

definition typed_end :: "cmd \<Rightarrow> (exn + reply) \<times> keyspace \<Rightarrow> bool" where
  "typed_end c x \<longleftrightarrow> sane_ks (snd x) \<and> (case fst x of Inl e \<Rightarrow> e \<noteq> wrongtype | Inr r \<Rightarrow> reply_fits c r)"

lemma kv_typed:
  assumes m: "sane_ks m" and "cmd_ok c"
  shows "typed_end c (kv_step c m)"
proof (cases c)
  case (GET k)
  with assms typed_values(1) [OF m, of k] show ?thesis
    by (auto simp: kv_simps typed_end_def wrongtype_def split: option.splits rval.splits)
next
  case (ZREMRANGEBYSCORE k x)
  with assms(2) obtain z where z: "zset_of (fmlookup m k) = Some z" using typed_values(2) [OF m] by auto
  with ZREMRANGEBYSCORE assms show ?thesis
    by (cases "fmlookup m k") (auto simp: kv_simps typed_end_def)
next
  case (ZADD k sc x)
  with assms(2) obtain z where z: "zset_of (fmlookup m k) = Some z" using typed_values(2) [OF m] by auto
  with ZADD assms show ?thesis by (auto simp: kv_simps typed_end_def)
next
  case (ZCARD k)
  with assms(2) obtain z where z: "zset_of (fmlookup m k) = Some z" using typed_values(2) [OF m] by auto
  with ZCARD assms show ?thesis by (auto simp: kv_simps typed_end_def)
next
  case (HMGET k fs)
  with assms(2) obtain h where h: "hash_of (fmlookup m k) = Some h" using typed_values(3) [OF m] by auto
  with HMGET assms show ?thesis by (auto simp: kv_simps typed_end_def)
next
  case (HSET k fvs)
  with assms(2) obtain h where h: "hash_of (fmlookup m k) = Some h" using typed_values(3) [OF m] by auto
  with HSET assms show ?thesis by (auto simp: kv_simps typed_end_def)
next
  case (EXPIRE k t)
  with assms sane_lookup [OF m, of k] show ?thesis
    by (auto simp: kv_simps typed_end_def split: option.splits intro!: sane_upd mortal_expire)
qed (use assms in \<open>auto simp: kv_simps typed_end_def text_key_def bad_expire_def wrongtype_def
    fmdom'_alt_def sorted_list_of_fset.rep_eq split: option.splits\<close>)

subsection \<open>The judgement\<close>

text \<open>
  \<open>well I m Q\<close>: started where \<open>I\<close> holds, \<open>m\<close> ends where \<open>I\<close> holds, however it ends; its result, if it
  has one, satisfies \<open>Q\<close>; and it does not end with WRONGTYPE.
\<close>

definition well :: "('s \<Rightarrow> bool) \<Rightarrow> ('s, 'a) action \<Rightarrow> ('a \<Rightarrow> bool) \<Rightarrow> bool" where
  "well I m Q \<longleftrightarrow> (\<forall>s. I s \<longrightarrow> I (snd (m s)) \<and> (case fst (m s) of Inl e \<Rightarrow> e \<noteq> wrongtype | Inr x \<Rightarrow> Q x))"

abbreviation wellT :: "('s \<Rightarrow> bool) \<Rightarrow> ('s, 'a) action \<Rightarrow> bool" where
  "wellT I m \<equiv> well I m (\<lambda>_. True)"

lemma wellI:
  "(\<And>s r s'. I s \<Longrightarrow> m s = (r, s') \<Longrightarrow> I s' \<and> r \<noteq> Inl wrongtype \<and> (\<forall>x. r = Inr x \<longrightarrow> Q x)) \<Longrightarrow> well I m Q"
  unfolding well_def by (auto split: sum.splits) (metis prod.collapse)+

lemma wellD: "well I m Q \<Longrightarrow> I s \<Longrightarrow> m s = (r, s') \<Longrightarrow> I s' \<and> r \<noteq> Inl wrongtype \<and> (\<forall>x. r = Inr x \<longrightarrow> Q x)"
  unfolding well_def by (cases r) (auto dest!: spec [of _ s])

lemma well_no_wrongtype: "well I m Q \<Longrightarrow> I s \<Longrightarrow> fst (m s) \<noteq> Inl wrongtype"
  unfolding well_def by (auto split: sum.splits)

lemma well_weaken: "well I m Q \<Longrightarrow> (\<And>x. Q x \<Longrightarrow> R x) \<Longrightarrow> well I m R"
  unfolding well_def by (auto split: sum.splits)

lemma well_any: "well I m Q \<Longrightarrow> wellT I m"
  by (erule well_weaken) simp

lemma well_ret [well_intros]: "wellT I (ret x)"
  by (simp add: well_def ret_def)

lemma well_retQ: "Q x \<Longrightarrow> well I (ret x) Q"
  by (simp add: well_def ret_def)

lemma well_raise [well_intros]: "e \<noteq> wrongtype \<Longrightarrow> well I (raise_exn e) Q"
  by (simp add: well_def raise_exn_def)

lemma well_bindQ: "well I m Q \<Longrightarrow> (\<And>x. Q x \<Longrightarrow> well I (f x) R) \<Longrightarrow> well I (bindE m f) R"
proof (rule wellI)
  fix s r s'
  assume m: "well I m Q" and f: "\<And>x. Q x \<Longrightarrow> well I (f x) R" and s: "I s" and run: "bindE m f s = (r, s')"
  obtain p t where p: "m s = (p, t)" by fastforce
  note 1 = wellD [OF m s p]
  show "I s' \<and> r \<noteq> Inl wrongtype \<and> (\<forall>x. r = Inr x \<longrightarrow> R x)"
  proof (cases p)
    case (Inl e)
    with 1 run p show ?thesis by (auto simp: bindE_def)
  next
    case (Inr x)
    with run p have "f x t = (r, s')" by (simp add: bindE_def)
    with 1 Inr wellD [OF f, of x t r s'] show ?thesis by simp
  qed
qed

lemma well_bind [well_intros]: "wellT I m \<Longrightarrow> (\<And>x. well I (f x) R) \<Longrightarrow> well I (bindE m f) R"
  by (rule well_bindQ)

lemma well_if [well_intros]:
  "(b \<Longrightarrow> well I m Q) \<Longrightarrow> (\<not> b \<Longrightarrow> well I m' Q) \<Longrightarrow> well I (if b then m else m') Q"
  by simp

lemma well_prod [well_intros]: "(\<And>x y. p = (x, y) \<Longrightarrow> well I (f x y) Q) \<Longrightarrow> well I (case p of (x, y) \<Rightarrow> f x y) Q"
  by (cases p) simp

lemma well_mapE: "(\<And>x. x \<in> set xs \<Longrightarrow> wellT I (f x)) \<Longrightarrow> wellT I (mapE f xs)"
  by (induction xs) (auto intro!: well_intros)

lemma well_forE: "(\<And>x. x \<in> set xs \<Longrightarrow> wellT I (f x)) \<Longrightarrow> wellT I (forE f xs)"
  by (induction xs) (auto intro!: well_intros)

text \<open>A pipeline keeps the error replies among its results until the end.\<close>

lemma well_run_commands:
  "(\<And>a. a \<in> set as \<Longrightarrow> wellT I a) \<Longrightarrow> well I (run_commands as) (\<lambda>rs. Inl wrongtype \<notin> set rs \<and> length rs = length as)"
proof (induction as)
  case Nil
  show ?case by (simp add: well_def ret_def)
next
  case (Cons a as)
  then have IH: "well I (run_commands as) (\<lambda>rs. Inl wrongtype \<notin> set rs \<and> length rs = length as)" by simp
  show ?case
  proof (rule wellI)
    fix s q s'
    assume s: "I s" and run: "run_commands (a # as) s = (q, s')"
    obtain r t where a: "a s = (r, t)" by fastforce
    obtain q' t' where rest: "run_commands as t = (q', t')" by fastforce
    have "wellT I a" using Cons.prems by simp
    from wellD [OF this s a] have 1: "I t" "r \<noteq> Inl wrongtype" by simp_all
    from wellD [OF IH 1(1) rest] have 2: "I t'" "q' \<noteq> Inl wrongtype"
      "\<forall>rs. q' = Inr rs \<longrightarrow> Inl wrongtype \<notin> set rs \<and> length rs = length as" by simp_all
    from run a rest have "s' = t \<and> q = map_sum id (\<lambda>_. []) r \<and> (\<exists>e. r = Inl e) \<or> s' = t' \<and> q = map_sum id ((#) r) q'"
      by (cases r; cases q') (auto simp: bindE_def ret_def split: if_splits)
    with 1 2 show "I s' \<and> q \<noteq> Inl wrongtype \<and> (\<forall>rs. q = Inr rs \<longrightarrow> Inl wrongtype \<notin> set rs \<and> length rs = length (a # as))"
      by (cases q'; auto)
  qed
qed

lemma raise_first_in: "raise_first rs = Inl e \<Longrightarrow> Inl e \<in> set rs"
  by (induction rs rule: raise_first.induct) (auto split: sum.splits)

lemma raise_first_length: "raise_first rs = Inr xs \<Longrightarrow> length xs = length rs"
  by (induction rs arbitrary: xs rule: raise_first.induct) (auto split: sum.splits)

lemma well_pipe_length:
  assumes "\<And>a. a \<in> set as \<Longrightarrow> wellT I a"
  shows "well I (pipe_execute as) (\<lambda>xs. length xs = length as)"
  unfolding pipe_execute_def
proof (rule well_bindQ [OF well_run_commands])
  show "well I (\<lambda>s. (raise_first rs, s)) (\<lambda>xs. length xs = length as)"
    if "Inl wrongtype \<notin> set rs \<and> length rs = length as" for rs
    using that by (auto simp: well_def dest: raise_first_in raise_first_length split: sum.splits)
qed (use assms in simp)

lemma well_pipe: "(\<And>a. a \<in> set as \<Longrightarrow> wellT I a) \<Longrightarrow> wellT I (pipe_execute as)"
  by (rule well_any [OF well_pipe_length])

subsection \<open>Worlds\<close>

abbreviation on_server :: "('r \<Rightarrow> bool) \<Rightarrow> ('r, 'p) world \<Rightarrow> bool" where
  "on_server I w \<equiv> I (w_redis w)"

lemma well_on_redis [well_intros]: "well I m Q \<Longrightarrow> well (on_server I) (on_redis m) Q"
  unfolding well_def on_redis_def by (auto split: prod.splits sum.splits)

lemma well_on_out [well_intros]: "(\<And>p. fst (m p) \<noteq> Inl wrongtype) \<Longrightarrow> wellT (on_server I) (on_out m)"
  unfolding well_def on_out_def by (auto split: prod.splits sum.splits) (metis fst_conv)

lemma well_inc [well_intros]: "wellT (on_server I) (inc x)"
  by (simp add: well_def inc_def)

lemma well_incs [well_intros]: "wellT (on_server I) (incs xs)"
  by (simp add: well_def)

subsection \<open>The server\<close>

abbreviation sane_at :: "('r \<Rightarrow> conn) \<Rightarrow> 'r \<Rightarrow> bool" where
  "sane_at obs s \<equiv> sane_ks (ks (obs s))"

lemma well_kv: "cmd_ok c \<Longrightarrow> well sane_ks (kv_step c) (reply_fits c)"
  using kv_typed [of _ c] by (simp add: well_def typed_end_def)

lemma redis_replies_typed:
  assumes m: "sane_ks (ks s)" and ok: "cmd_ok c" and run: "redis_replies c s r s'"
  shows "sane_ks (ks s') \<and> r \<noteq> Inl wrongtype \<and> (\<forall>x. r = Inr x \<longrightarrow> reply_fits c x)"
proof (cases "is_conn_cmd c \<or> is_scan c")
  case False
  then have "redis_step c s = (r, s')" using run by (simp add: redis_replies_det)
  with False have "kv_step c (ks s) = (r, ks s')" by (cases s) (auto simp: redis_step_plain)
  from wellD [OF well_kv [OF ok] m this] show ?thesis .
next
  case True
  then consider (scan) p where "c = SCAN p" | (watch) keys where "c = WATCH keys" | (unwatch) "c = UNWATCH"
    | (exec) cs where "c = EXEC cs" by (cases c) auto
  then show ?thesis
  proof cases
    case (exec cs)
    show ?thesis
    proof (cases "touched s")
      case True
      with run exec m show ?thesis by (auto simp: redis_replies_def redis_step.simps wrongtype_def)
    next
      case False
      obtain q t where q: "pipe_execute (map kv_step cs) (ks s) = (q, t)" by fastforce
      have "well sane_ks (pipe_execute (map kv_step cs)) (\<lambda>xs. length xs = length cs)"
        using ok exec well_pipe_length [of "map kv_step cs" sane_ks] by (auto intro: well_any [OF well_kv])
      from wellD [OF this m q] run exec False q show ?thesis
        by (cases q) (auto simp: redis_replies_def redis_step.simps)
    qed
  qed (use run m in \<open>auto simp: redis_replies_def redis_step.simps\<close>)
qed

text \<open>A server shared with clients that keep the discipline too.\<close>

locale typed_redis = redis_shared rc obs others
  for rc :: "cmd \<Rightarrow> 'r \<Rightarrow> (exn + reply) \<times> 'r" and obs :: "'r \<Rightarrow> conn"
    and others :: "string set \<Rightarrow> keyspace \<Rightarrow> keyspace \<Rightarrow> bool" +
  assumes others_sane: "others W m m' \<Longrightarrow> sane_ks m \<Longrightarrow> sane_ks m'"
begin

lemma well_reply: "cmd_ok c \<Longrightarrow> well (sane_at obs) (rc c) (reply_fits c)"
proof (rule wellI)
  fix s r s'
  assume ok: "cmd_ok c" and s: "sane_at obs s" and run: "rc c s = (r, s')"
  obtain W m where o: "others W (ks (obs s)) m"
    and *: "redis_replies c (disturb W m (obs s)) r (obs s') \<or>
       (\<exists>e. r = Inl e \<and> outage e \<and>
          (ks (obs s') = m \<or> (\<exists>r' t. redis_replies c (disturb W m (obs s)) r' t \<and> ks (obs s') = ks t)))"
    using shared [OF run] by blast
  have "sane_ks (ks (disturb W m (obs s)))" using others_sane [OF o s] by simp
  from * redis_replies_typed [OF this ok] this
  show "sane_at obs s' \<and> r \<noteq> Inl wrongtype \<and> (\<forall>x. r = Inr x \<longrightarrow> reply_fits c x)"
    by (fastforce simp: wrongtype_def)
qed

lemma well_cmd: "cmd_ok c \<Longrightarrow> wellT (sane_at obs) (rc c)"
  by (rule well_any [OF well_reply])

end

sublocale redis_client \<subseteq> alone: typed_redis rc obs "\<lambda>W m m'. W = {} \<and> m' = m"
  by unfold_locales auto

text \<open>
  A busy server whose other clients keep the discipline: of the commands they are planned to send,
  only the well-typed ones are sent.
\<close>

definition polite_step :: "cmd \<Rightarrow> busy \<Rightarrow> (exn + reply) \<times> busy" where
  "polite_step c s = busy_step c (fst s, map (\<lambda>(cs, f). (filter cmd_ok cs, f)) (snd s))"

definition polite_others :: "string set \<Rightarrow> keyspace \<Rightarrow> keyspace \<Rightarrow> bool" where
  "polite_others W m m' \<longleftrightarrow>
     (\<exists>cs. (\<forall>c\<in>set cs. cmd_ok c) \<and> W = set (concat (map written cs)) \<and> m' = run_others cs m)"

lemma run_others_sane: "sane_ks m \<Longrightarrow> \<forall>c\<in>set cs. cmd_ok c \<Longrightarrow> sane_ks (run_others cs m)"
proof (induction cs arbitrary: m)
  case (Cons c cs)
  have "sane_ks (snd (kv_step c m))" using kv_typed [of m c] Cons.prems by (simp add: typed_end_def)
  with Cons show ?case by (simp add: run_others_def)
qed (simp add: run_others_def)

interpretation polite: typed_redis polite_step fst polite_others
proof unfold_locales
  show "polite_others {} m m" for m
    by (auto simp: polite_others_def run_others_def intro: exI [of _ "[]"])
  show "polite_others (V \<union> W) m m''" if "polite_others V m m'" "polite_others W m' m''" for V W m m' m''
  proof -
    from that obtain cs cs' where "\<forall>c\<in>set (cs @ cs'). cmd_ok c" "V = set (concat (map written cs))"
      "W = set (concat (map written cs'))" "m'' = run_others (cs @ cs') m"
      by (auto simp: polite_others_def run_others_def)
    then show ?thesis unfolding polite_others_def by (intro exI [of _ "cs @ cs'"]) auto
  qed
  show "unchanged m m' k" if "polite_others W m m'" "k \<notin> W" for W m m' k
    using that run_others_frame by (auto simp: polite_others_def)
  show "sane_ks m'" if "polite_others W m m'" "sane_ks m" for W m m'
    using that run_others_sane by (auto simp: polite_others_def)
  show "\<exists>W m. polite_others W (ks (fst s)) m \<and>
      (redis_replies c (disturb W m (fst s)) r (fst s') \<or>
       (\<exists>e. r = Inl e \<and> outage e \<and>
          (ks (fst s') = m \<or> (\<exists>r' t. redis_replies c (disturb W m (fst s)) r' t \<and> ks (fst s') = ks t))))"
    if "polite_step c s = (r, s')" for c s r s'
  proof -
    from that have run: "busy_step c (fst s, map (\<lambda>(cs, f). (filter cmd_ok cs, f)) (snd s)) = (r, s')"
      by (simp add: polite_step_def)
    have polite: "\<forall>c\<in>set cs. cmd_ok c"
      if "cs = [] \<or> cs \<in> fst ` set (map (\<lambda>(cs, f). (filter cmd_ok cs, f)) (snd s))" for cs
      using that by auto
    show ?thesis
      unfolding polite_others_def using busy_shared [OF run, simplified fst_conv snd_conv]
      by (elim exE conjE) (intro exI conjI, erule polite, rule refl, rule refl, assumption)
  qed
qed

end
