(* ===== verification/GoJson.thy ===== *)
theory GoJson
  imports Models
begin

text \<open>
  Go's \<open>encoding/json\<close> as far as \<open>decision-service\<close> uses it: \<open>json.Marshal\<close> of objects, lists, texts and
  numbers, written without spaces, with the escapes of Go's encoder. Texts are UTF-8 bytes. A
  \<open>float64\<close> that is an integer below \<open>1e21\<close> is printed without a decimal point; how the others are
  printed is an argument, \<open>ft\<close>, and the locale \<open>float_printer\<close> says what is needed of it: Python's
  \<open>json.loads\<close> reads a number \<open>rd x\<close> where \<open>x\<close> was printed. The theorems show that Python reads back what
  Go wrote.
\<close>

subsection \<open>Printing\<close>

definition hex_digit :: "nat \<Rightarrow> char" where
  "hex_digit n = char_of (if n < 10 then 48 + n else 87 + n)"

definition u_escape :: "nat \<Rightarrow> string" where
  "u_escape n = [CHR 0x5C, CHR ''u'', hex_digit (n div 4096), hex_digit (n div 256 mod 16),
     hex_digit (n div 16 mod 16), hex_digit (n mod 16)]"

text \<open>The escape of one byte. The angle brackets and the ampersand are escaped for HTML.\<close>

definition go_escape :: "char \<Rightarrow> string" where
  "go_escape c =
     (if c = CHR 0x22 then [CHR 0x5C, CHR 0x22]
      else if c = CHR 0x5C then [CHR 0x5C, CHR 0x5C]
      else if c = CHR 0x08 then [CHR 0x5C, CHR ''b'']
      else if c = CHR 0x0C then [CHR 0x5C, CHR ''f'']
      else if c = CHR 0x0A then [CHR 0x5C, CHR ''n'']
      else if c = CHR 0x0D then [CHR 0x5C, CHR ''r'']
      else if c = CHR 0x09 then [CHR 0x5C, CHR ''t'']
      else if of_char c < (32 :: nat) \<or> c = CHR ''<'' \<or> c = CHR ''>'' \<or> c = CHR ''&'' then u_escape (of_char c)
      else [c])"

text \<open>U+2028 and U+2029, the line and paragraph separators, are escaped as a whole.\<close>

fun go_text :: "string \<Rightarrow> string" where
  "go_text (a # b # c # cs) =
     (if a = CHR 0xE2 \<and> b = CHR 0x80 \<and> (c = CHR 0xA8 \<or> c = CHR 0xA9) then u_escape (8064 + of_char c) @ go_text cs
      else go_escape a @ go_text (b # c # cs))"
| "go_text (a # cs) = go_escape a @ go_text cs"
| "go_text [] = []"

definition go_integral :: "real \<Rightarrow> bool" where
  "go_integral x \<longleftrightarrow> of_int \<lfloor>x\<rfloor> = x \<and> \<bar>x\<bar> < 10 ^ 21"

definition go_float :: "(real \<Rightarrow> string) \<Rightarrow> real \<Rightarrow> string" where
  "go_float ft x = (if go_integral x then show_int \<lfloor>x\<rfloor> else ft x)"

fun go_marshal :: "(real \<Rightarrow> string) \<Rightarrow> json \<Rightarrow> string" where
  "go_marshal ft JNull = ''null''"
| "go_marshal ft (JBool b) = (if b then ''true'' else ''false'')"
| "go_marshal ft (JInt i) = show_int i"
| "go_marshal ft (JFloat x) = go_float ft x"
| "go_marshal ft (JSpecial s) = ''null''"
| "go_marshal ft (JStr s) = quoted (go_text s)"
| "go_marshal ft (JArr xs) = ''['' @ join_with '','' (map (go_marshal ft) xs) @ '']''"
| "go_marshal ft (JObj kvs) =
     ''{'' @ join_with '','' (map (\<lambda>kv. quoted (go_text (fst kv)) @ '':'' @ go_marshal ft (snd kv)) kvs) @ ''}''"

subsection \<open>Reading\<close>

text \<open>What is read where a value was printed.\<close>

fun reread :: "(real \<Rightarrow> real) \<Rightarrow> json \<Rightarrow> json" where
  "reread rd (JFloat x) = (if go_integral x then JInt \<lfloor>x\<rfloor> else JFloat (rd x))"
| "reread rd (JSpecial s) = JNull"
| "reread rd (JArr xs) = JArr (map (reread rd) xs)"
| "reread rd (JObj kvs) = JObj (map (\<lambda>kv. (fst kv, reread rd (snd kv))) kvs)"
| "reread rd v = v"

text \<open>What follows a value in a text.\<close>

definition ends :: "string \<Rightarrow> bool" where
  "ends r \<longleftrightarrow> (case r of [] \<Rightarrow> True | c # _ \<Rightarrow> c = CHR '','' \<or> c = CHR '']'' \<or> c = CHR ''}'')"

lemma ends_simps [simp]:
  "ends []" "ends (CHR '','' # r)" "ends (CHR '']'' # r)" "ends (CHR ''}'' # r)"
  by (simp_all add: ends_def)

definition token_start :: "string \<Rightarrow> bool" where
  "token_start s \<longleftrightarrow> (case s of [] \<Rightarrow> False | c # _ \<Rightarrow> \<not> is_ws c \<and> c \<noteq> CHR '']'' \<and> c \<noteq> CHR ''}'')"

lemma token_start_append [simp]: "token_start s \<Longrightarrow> token_start (s @ r)"
  by (cases s) (simp_all add: token_start_def)

lemma token_start_ws [simp]: "token_start s \<Longrightarrow> skip_ws (s @ r) = s @ r"
  by (cases s) (simp_all add: token_start_def skip_ws_def)

locale float_printer =
  fixes ft :: "real \<Rightarrow> string" and rd :: "real \<Rightarrow> real"
  assumes starts: "\<not> go_integral x \<Longrightarrow> token_start (ft x)"
    and read_back: "\<not> go_integral x \<Longrightarrow> ends r \<Longrightarrow> parse_value (Suc n) (ft x @ r) = Some (JFloat (rd x), r)"

subsection \<open>Texts\<close>

lemma hex_of_digit: "n < 16 \<Longrightarrow> hex_of (hex_digit n) = Some n"
  by (auto simp: hex_of_def hex_digit_def Let_def)

lemma hex_digits_value: "((n div 4096 * 16 + n div 256 mod 16) * 16 + n div 16 mod 16) * 16 + n mod 16 = (n :: nat)"
proof -
  have a: "n div 4096 * 16 + n div 256 mod 16 = n div 256"
    using div_mult_mod_eq [of "n div 256" 16] by (simp add: div_mult2_eq [symmetric])
  have b: "n div 256 * 16 + n div 16 mod 16 = n div 16"
    using div_mult_mod_eq [of "n div 16" 16] by (simp add: div_mult2_eq [symmetric])
  show ?thesis unfolding a b by (rule div_mult_mod_eq)
qed

lemma hex4_escape:
  assumes "n < 65536"
  shows "hex4 (drop 2 (u_escape n) @ r) = Some (n, r)"
proof -
  have "n div 4096 < 16" using assms by (simp add: less_mult_imp_div_less)
  then show ?thesis
    using hex_digits_value [of n] by (simp add: u_escape_def hex4_def hex_of_digit algebra_simps)
qed

lemma parse_string_u:
  assumes "n < 128 \<or> n = 8232 \<or> n = 8233"
  shows "parse_string (Suc k) (u_escape n @ r) = map_option (\<lambda>(s, r'). (utf8 n @ s, r')) (parse_string k r)"
proof -
  have "hex4 (drop 2 (u_escape n) @ r) = Some (n, r)" using assms by (intro hex4_escape) auto
  then show ?thesis
    using assms
    by (auto simp: u_escape_def simple_escape_def split: list.splits option.splits prod.splits)
qed

lemma go_escape_simple:
  "c \<in> set [CHR 0x22, CHR 0x5C, CHR 0x08, CHR 0x0C, CHR 0x0A, CHR 0x0D, CHR 0x09] \<Longrightarrow>
   \<exists>e. go_escape c = [CHR 0x5C, e] \<and> simple_escape e = Some c"
  unfolding go_escape_def simple_escape_def list.set insert_iff empty_iff
  by (elim disjE; simp)

lemma go_escape_cases:
  obtains e where "go_escape c = [CHR 0x5C, e]" "simple_escape e = Some c"
  | "go_escape c = u_escape (of_char c)" "of_char c < (128 :: nat)"
  | "go_escape c = [c]" "c \<noteq> CHR 0x22" "c \<noteq> CHR 0x5C" "\<not> of_char c < (32 :: nat)"
proof -
  let ?simple = "set [CHR 0x22, CHR 0x5C, CHR 0x08, CHR 0x0C, CHR 0x0A, CHR 0x0D, CHR 0x09]"
  let ?hex = "of_char c < (32 :: nat) \<or> c = CHR ''<'' \<or> c = CHR ''>'' \<or> c = CHR ''&''"
  show ?thesis
  proof (cases "c \<in> ?simple")
    case True
    then show ?thesis using go_escape_simple that(1) by blast
  next
    case False
    then have esc: "go_escape c = (if ?hex then u_escape (of_char c) else [c])"
      by (simp add: go_escape_def)
    show ?thesis
    proof (cases ?hex)
      case True
      then have "of_char c < (128 :: nat)" by auto
      with True esc show ?thesis by (intro that(2)) simp_all
    next
      case no_hex: False
      with False esc show ?thesis by (intro that(3)) simp_all
    qed
  qed
qed

lemma parse_string_escape:
  "parse_string (Suc k) (go_escape c @ r) = map_option (\<lambda>(s, r'). (c # s, r')) (parse_string k r)"
proof (cases c rule: go_escape_cases)
  case (1 e)
  then show ?thesis by simp
next
  case 2
  then show ?thesis using parse_string_u [of "of_char c" k r] by (simp add: utf8_def)
next
  case 3
  then show ?thesis by simp
qed

lemma utf8_separators: "utf8 8232 = [CHR 0xE2, CHR 0x80, CHR 0xA8]" "utf8 8233 = [CHR 0xE2, CHR 0x80, CHR 0xA9]"
  by (simp_all add: utf8_def char_of_def bit_iff_odd)

lemma parse_string_separator:
  assumes "c = CHR 0xA8 \<or> c = CHR 0xA9"
  shows "parse_string (Suc k) (u_escape (8064 + of_char c) @ r) =
    map_option (\<lambda>(s, r'). (CHR 0xE2 # CHR 0x80 # c # s, r')) (parse_string k r)"
  using assms parse_string_u [of 8232 k r] parse_string_u [of 8233 k r] by (auto simp: utf8_separators)

lemma go_escape_length: "1 \<le> length (go_escape c)"
  by (cases c rule: go_escape_cases) (simp_all add: u_escape_def)

lemma parse_string_cons:
  assumes n: "length (go_escape a @ t) < n"
    and rest: "\<And>k. length t < k \<Longrightarrow> parse_string k (t @ r) = Some (s, r')"
  shows "parse_string n ((go_escape a @ t) @ r) = Some (a # s, r')"
proof -
  obtain k where k: "n = Suc k" using n by (cases n) auto
  then have "length t < k" using n go_escape_length [of a] unfolding k length_append by linarith
  from rest [OF this] show ?thesis
    by (simp add: k parse_string_escape del: parse_string.simps)
qed

lemma parse_string_go_text:
  "length (go_text s) < n \<Longrightarrow> parse_string n (go_text s @ CHR 0x22 # r) = Some (s, r)"
proof (induction s arbitrary: n rule: go_text.induct [case_names triple single pair empty])
  case (triple a b c cs)
  show ?case
  proof (cases "a = CHR 0xE2 \<and> b = CHR 0x80 \<and> (c = CHR 0xA8 \<or> c = CHR 0xA9)")
    case True
    obtain k where k: "n = Suc k" using triple.prems by (cases n) auto
    have "length (go_text cs) < k" using triple.prems True by (simp add: k u_escape_def split: if_splits)
    from triple.IH(1) [OF True this] True show ?thesis
      by (simp add: k parse_string_separator del: parse_string.simps)
  next
    case False
    then have eq: "go_text (a # b # c # cs) = go_escape a @ go_text (b # c # cs)"
      unfolding go_text.simps(1) by (simp only: if_False)
    show ?thesis unfolding eq
      by (rule parse_string_cons) (use triple.prems eq triple.IH(2) [OF False] in simp_all)
  qed
next
  case (single a)
  have eq: "go_text [a] = go_escape a @ go_text []" by simp
  show ?case unfolding eq
    by (rule parse_string_cons) (use single.prems eq single.IH in simp_all)
next
  case (pair a b)
  have eq: "go_text [a, b] = go_escape a @ go_text [b]" by simp
  show ?case unfolding eq
    by (rule parse_string_cons) (use pair.prems eq pair.IH in simp_all)
next
  case empty
  then show ?case by (cases n) auto
qed

lemma parse_quoted:
  "parse_string (Suc (length (go_text s @ CHR 0x22 # r))) (go_text s @ CHR 0x22 # r) = Some (s, r)"
  by (rule parse_string_go_text) simp

subsection \<open>Integers\<close>

lemma take_digits_show:
  assumes "\<forall>c\<in>set s. digit_of c \<noteq> None" and "case r of [] \<Rightarrow> True | c # _ \<Rightarrow> digit_of c = None"
  shows "take_digits (s @ r) = (map (\<lambda>c. the (digit_of c)) s, r)"
  using assms(1)
proof (induction s)
  case Nil
  then show ?case using assms(2) by (cases r) auto
qed auto

lemma ends_no_digit: "ends r \<Longrightarrow> case r of [] \<Rightarrow> True | c # _ \<Rightarrow> digit_of c = None"
  by (auto simp: ends_def digit_of_def split: list.splits)

lemma show_nat_leading: "0 < n \<Longrightarrow> digit_of (hd (show_nat n)) \<noteq> Some 0"
proof (induction n rule: show_nat.induct)
  case (1 n)
  show ?case
  proof (cases "n < 10")
    case True
    with 1 show ?thesis by (simp add: show_nat.simps [of n] digit_of_char)
  next
    case False
    then have "0 < n div 10" by simp
    with 1(1) [OF False] False show ?thesis
      using show_nat_head [of "n div 10"] by (simp add: show_nat.simps [of n])
  qed
qed

lemma ends_no_fraction: "ends r \<Longrightarrow> parse_fraction r = None \<and> parse_exponent r = None"
  by (auto simp: ends_def parse_fraction_def parse_exponent_def split: list.splits)

definition number_tail :: "int \<Rightarrow> nat \<Rightarrow> string \<Rightarrow> (json \<times> string) option" where
  "number_tail sg n r =
     (case parse_fraction r of
        None \<Rightarrow> (case parse_exponent r of
                   None \<Rightarrow> Some (JInt (sg * int n), r)
                 | Some (x, r4) \<Rightarrow> Some (JFloat (of_int (sg * int n) * 10 powi x), r4))
      | Some (fs, r3) \<Rightarrow>
          (let f = of_int (sg * (int n * 10 ^ length fs + int (nat_of_digits fs))) / 10 ^ length fs
           in (case parse_exponent r3 of
                 None \<Rightarrow> Some (JFloat f, r3)
               | Some (x, r4) \<Rightarrow> Some (JFloat (f * 10 powi x), r4))))"

lemma parse_number_nat:
  assumes r: "case r of [] \<Rightarrow> True | c # _ \<Rightarrow> digit_of c = None"
  shows "parse_number (show_nat n @ r) = number_tail 1 n r"
    and "parse_number (CHR ''-'' # show_nat n @ r) = number_tail (- 1) n r"
proof -
  let ?s = "show_nat n"
  obtain c cs where c: "?s = c # cs" using show_nat_head [of n] by (cases ?s) auto
  have dig: "\<forall>x\<in>set ?s. digit_of x \<noteq> None" using show_nat_chars by blast
  then obtain d where d: "digit_of c = Some d" by (auto simp: c)
  have td: "take_digits (c # cs @ r) = (d # map (\<lambda>c. the (digit_of c)) cs, r)"
    using take_digits_show [OF dig r] by (simp add: c d)
  have val: "nat_of_digits (d # map (\<lambda>c. the (digit_of c)) cs) = n"
    using digits_value_show [of n] by (simp add: digits_value_def c d)
  have zero: "d = 0 \<Longrightarrow> n = 0 \<and> cs = []"
    using show_nat_leading [of n] c d by (cases "n = 0") (auto simp: show_nat.simps [of 0])
  have "c \<noteq> CHR ''-''" using d by (auto simp: digit_of_def)
  let ?ds = "d # map (\<lambda>c. the (digit_of c)) cs"
  have whole: "(if d = 0 then ([0], drop 1 (c # cs @ r)) else (?ds, r)) = (?ds, r)"
    using zero by auto
  have "parse_number (c # cs @ r) = number_tail 1 (nat_of_digits ?ds) r"
    "parse_number (CHR ''-'' # c # cs @ r) = number_tail (- 1) (nat_of_digits ?ds) r"
    using whole \<open>c \<noteq> CHR ''-''\<close>
    by (simp_all add: td parse_number_def number_tail_def Let_def del: take_digits.simps drop_Suc_Cons)
  then show "parse_number (show_nat n @ r) = number_tail 1 n r"
    "parse_number (CHR ''-'' # show_nat n @ r) = number_tail (- 1) n r"
    unfolding val c append_Cons by simp_all
qed

lemma parse_number_show:
  assumes "ends r"
  shows "parse_number (show_int i @ r) = Some (JInt i, r)"
  using parse_number_nat [OF ends_no_digit [OF assms], of "nat \<bar>i\<bar>"] ends_no_fraction [OF assms]
  by (cases "i < 0") (simp_all add: show_int_def number_tail_def)

lemma show_int_cases:
  obtains c t where "show_int i = c # t" "digit_of c \<noteq> None"
  | c t where "show_int i = CHR ''-'' # c # t" "digit_of c \<noteq> None"
proof -
  obtain c cs where c: "show_nat (nat \<bar>i\<bar>) = c # cs"
    using show_nat_head [of "nat \<bar>i\<bar>"] by (cases "show_nat (nat \<bar>i\<bar>)") auto
  then have "digit_of c \<noteq> None" using show_nat_chars [of c "nat \<bar>i\<bar>"] by simp
  with c that show thesis by (cases "i < 0") (simp_all add: show_int_def)
qed

lemma digit_not_letter:
  assumes "digit_of c \<noteq> None"
  shows "c \<noteq> CHR ''n''" "c \<noteq> CHR ''t''" "c \<noteq> CHR ''f''" "c \<noteq> CHR ''N''" "c \<noteq> CHR ''I''" "c \<noteq> CHR ''-''"
    "c \<noteq> CHR 0x22" "c \<noteq> CHR ''[''" "c \<noteq> CHR ''{''" "c \<noteq> CHR '']''" "c \<noteq> CHR ''}''" "\<not> is_ws c"
  using assms by (auto simp: digit_of_def is_ws_def)

lemma literal_not_digit:
  assumes "digit_of c \<noteq> None"
  shows "parse_literal (c # cs) = None" "parse_literal (CHR ''-'' # c # cs) = None"
  using digit_not_letter [OF assms] by (simp_all add: parse_literal_def literals_def)

lemma parse_value_show:
  assumes "ends r"
  shows "parse_value (Suc n) (show_int i @ r) = Some (JInt i, r)"
  using parse_number_show [OF assms, of i]
  by (cases i rule: show_int_cases) (simp_all add: digit_not_letter literal_not_digit)

lemma show_int_token: "token_start (show_int i)"
  by (cases i rule: show_int_cases) (simp_all add: token_start_def digit_not_letter is_ws_def [of "CHR ''-''"])

subsection \<open>Values\<close>

lemma skip_ws_more [simp]:
  "skip_ws (CHR '':'' # r) = CHR '':'' # r" "skip_ws (CHR ''}'' # r) = CHR ''}'' # r"
  "skip_ws (CHR ''{'' # r) = CHR ''{'' # r" "skip_ws (CHR 0x22 # r) = CHR 0x22 # r"
  by (simp_all add: skip_ws_def is_ws_def)

lemma token_start_join: "xs \<noteq> [] \<Longrightarrow> \<forall>x\<in>set xs. token_start x \<Longrightarrow> token_start (join_with sep xs)"
  by (cases "(sep, xs)" rule: join_with.cases) simp_all

lemma parse_elems_join:
  assumes "xs \<noteq> []" and "length (join_with '','' (map f xs)) + 1 < m"
    and start: "\<And>x. x \<in> set xs \<Longrightarrow> token_start (f x)"
    and elem: "\<And>x n r. x \<in> set xs \<Longrightarrow> ends r \<Longrightarrow> length (f x) < n \<Longrightarrow> parse_value n (f x @ r) = Some (g x, r)"
  shows "parse_elems m (join_with '','' (map f xs) @ CHR '']'' # r) = Some (map g xs, r)"
  using assms
proof (induction xs arbitrary: m rule: induct_list012)
  case (2 x)
  obtain n where m: "m = Suc n" using "2.prems"(2) by (cases m) auto
  have "parse_value n (f x @ CHR '']'' # r) = Some (g x, CHR '']'' # r)"
    using "2.prems"(2) by (intro "2.prems"(4)) (simp_all add: m)
  then show ?case by (simp add: m)
next
  case (3 x y xs)
  obtain n where m: "m = Suc n" using "3.prems"(2) by (cases m) auto
  let ?rest = "join_with '','' (map f (y # xs))"
  have len: "1 \<le> length (f x)" using "3.prems"(3) [of x] by (cases "f x") (auto simp: token_start_def)
  have head: "parse_value n (f x @ CHR '','' # ?rest @ CHR '']'' # r) = Some (g x, CHR '','' # ?rest @ CHR '']'' # r)"
    using "3.prems"(2) by (intro "3.prems"(4)) (simp_all add: m)
  have tail: "parse_elems n (?rest @ CHR '']'' # r) = Some (map g (y # xs), r)"
    using "3.prems" len by (intro "3.IH"(2)) (simp_all add: m)
  have "skip_ws (?rest @ CHR '']'' # r) = ?rest @ CHR '']'' # r"
    using "3.prems"(3) by (intro token_start_ws token_start_join) auto
  then show ?case using head tail by (simp add: m del: parse_value.simps)
qed simp

lemma parse_members_join:
  fixes f :: "'a \<Rightarrow> string" and g :: "'a \<Rightarrow> json"
  defines "member kv \<equiv> quoted (go_text (fst kv)) @ '':'' @ f (snd kv)"
  assumes "kvs \<noteq> []" and "length (join_with '','' (map member kvs)) + 1 < m"
    and start: "\<And>kv. kv \<in> set kvs \<Longrightarrow> token_start (f (snd kv))"
    and elem: "\<And>kv n r. kv \<in> set kvs \<Longrightarrow> ends r \<Longrightarrow> length (f (snd kv)) < n \<Longrightarrow>
      parse_value n (f (snd kv) @ r) = Some (g (snd kv), r)"
  shows "parse_members m (join_with '','' (map member kvs) @ CHR ''}'' # r) =
    Some (map (\<lambda>kv. (fst kv, g (snd kv))) kvs, r)"
  using assms(2-)
proof (induction kvs arbitrary: m rule: induct_list012)
  case (2 x)
  obtain n where m: "m = Suc n" using "2.prems"(2) by (cases m) auto
  have "parse_value n (f (snd x) @ CHR ''}'' # r) = Some (g (snd x), CHR ''}'' # r)"
    using "2.prems"(2) by (intro "2.prems"(4)) (simp_all add: m member_def)
  moreover have "skip_ws (f (snd x) @ CHR ''}'' # r) = f (snd x) @ CHR ''}'' # r"
    using "2.prems"(3) by simp
  ultimately show ?case
    using parse_quoted [of "fst x" "CHR '':'' # f (snd x) @ CHR ''}'' # r"]
    by (simp add: m member_def quoted_def del: parse_string.simps)
next
  case (3 x y xs)
  obtain n where m: "m = Suc n" using "3.prems"(2) by (cases m) auto
  let ?rest = "join_with '','' (map member (y # xs))"
  let ?after = "CHR '','' # ?rest @ CHR ''}'' # r"
  have head: "parse_value n (f (snd x) @ ?after) = Some (g (snd x), ?after)"
    using "3.prems"(2) by (intro "3.prems"(4)) (simp_all add: m member_def)
  have tail: "parse_members n (?rest @ CHR ''}'' # r) = Some (map (\<lambda>kv. (fst kv, g (snd kv))) (y # xs), r)"
    using "3.prems" by (intro "3.IH"(2)) (simp_all add: m member_def quoted_def)
  have "\<forall>z\<in>set (map member (y # xs)). token_start z"
    by (auto simp: member_def quoted_def token_start_def is_ws_def)
  then have "skip_ws (?rest @ CHR ''}'' # r) = ?rest @ CHR ''}'' # r"
    by (intro token_start_ws token_start_join) auto
  moreover have "skip_ws (f (snd x) @ ?after) = f (snd x) @ ?after"
    using "3.prems"(3) [of x] by simp
  ultimately show ?case
    using parse_quoted [of "fst x" "CHR '':'' # f (snd x) @ ?after"] head tail
    by (simp add: m member_def [of x] quoted_def [of "go_text (fst x)"] del: parse_value.simps parse_string.simps)
qed simp

context float_printer
begin

lemma marshal_start: "token_start (go_marshal ft v)"
proof (cases v)
  case (JFloat x)
  then show ?thesis using starts [of x] by (simp add: go_float_def show_int_token)
next
  case (JBool b)
  then show ?thesis by (cases b) (simp_all add: token_start_def is_ws_def)
qed (simp_all add: token_start_def is_ws_def quoted_def show_int_token [unfolded token_start_def])

lemma marshal_read:
  "ends r \<Longrightarrow> length (go_marshal ft v) < n \<Longrightarrow> parse_value n (go_marshal ft v @ r) = Some (reread rd v, r)"
proof (induction v arbitrary: n r)
  case JNull
  then show ?case by (cases n) (simp_all add: parse_literal_def literals_def)
next
  case (JBool b)
  then show ?case by (cases n; cases b) (simp_all add: parse_literal_def literals_def)
next
  case (JInt i)
  then show ?case using parse_value_show [of r _ i] by (cases n) (simp_all del: parse_value.simps)
next
  case (JFloat x)
  then show ?case using parse_value_show [of r _ "\<lfloor>x\<rfloor>"] read_back [of x r]
    by (cases n) (simp_all add: go_float_def del: parse_value.simps)
next
  case (JSpecial s)
  then show ?case by (cases n) (simp_all add: parse_literal_def literals_def)
next
  case (JStr s)
  then show ?case using parse_quoted [of s r]
    by (cases n) (simp_all add: quoted_def del: parse_string.simps)
next
  case (JArr xs)
  obtain k where n: "n = Suc k" using JArr.prems(2) by (cases n) auto
  show ?case
  proof (cases "xs = []")
    case True
    then show ?thesis by (simp add: n)
  next
    case False
    let ?body = "join_with '','' (map (go_marshal ft) xs)"
    have tok: "token_start ?body" using False marshal_start by (intro token_start_join) auto
    then obtain c cs where c: "?body = c # cs" "c \<noteq> CHR '']''"
      by (cases ?body) (auto simp: token_start_def)
    have "parse_elems k (?body @ CHR '']'' # r) = Some (map (reread rd) xs, r)"
      using False JArr.prems(2) by (intro parse_elems_join marshal_start JArr.IH) (simp_all add: n)
    then show ?thesis using token_start_ws [OF tok, of "CHR '']'' # r"] c
      by (simp add: n del: parse_elems.simps)
  qed
next
  case (JObj kvs)
  obtain k where n: "n = Suc k" using JObj.prems(2) by (cases n) auto
  show ?case
  proof (cases "kvs = []")
    case True
    then show ?thesis by (simp add: n)
  next
    case False
    let ?member = "\<lambda>kv. quoted (go_text (fst kv)) @ '':'' @ go_marshal ft (snd kv)"
    let ?body = "join_with '','' (map ?member kvs)"
    have "\<forall>z\<in>set (map ?member kvs). token_start z"
      by (auto simp: quoted_def token_start_def is_ws_def)
    then have tok: "token_start ?body" using False by (intro token_start_join) auto
    then obtain c cs where c: "?body = c # cs" "c \<noteq> CHR ''}''"
      by (cases ?body) (auto simp: token_start_def)
    have "parse_members k (?body @ CHR ''}'' # r) = Some (map (\<lambda>kv. (fst kv, reread rd (snd kv))) kvs, r)"
      using False JObj.prems(2)
      by (intro parse_members_join marshal_start JObj.IH) (auto simp: n snds.simps)
    then show ?thesis using token_start_ws [OF tok, of "CHR ''}'' # r"] c
      by (simp add: n del: parse_members.simps)
  qed
qed

lemma loads_marshal: "json_loads (go_marshal ft v) = Some (reread rd v)"
  using marshal_read [of "[]" v "Suc (2 * length (go_marshal ft v))"] token_start_ws [OF marshal_start, of v "[]"]
  by (simp add: json_loads_def del: parse_value.simps)

end

subsection \<open>Decimals\<close>

text \<open>
  The decimal printer of the other numbers: as many decimals as the number has, at most 17, and at
  least one. A number with at most 17 decimals is read back as it was.
\<close>

fun places :: "nat \<Rightarrow> real \<Rightarrow> nat" where
  "places 0 x = 0"
| "places (Suc n) x = (if of_int \<lfloor>x\<rfloor> = x then 0 else Suc (places n (10 * x)))"

definition decimals :: "real \<Rightarrow> nat" where
  "decimals x = max 1 (places 17 x)"

definition go_decimal :: "real \<Rightarrow> string" where
  "go_decimal x = format_fixed (decimals x) x"

definition decimal_value :: "real \<Rightarrow> real" where
  "decimal_value x = of_int (round_half_even (x * 10 ^ decimals x)) / 10 ^ decimals x"

lemma parse_fixed:
  assumes w: "0 < w" and r: "ends r"
  shows "parse_number (format_fixed w x @ r) = Some (JFloat (of_int (round_half_even (x * 10 ^ w)) / 10 ^ w), r)"
proof -
  define i where "i = round_half_even (x * 10 ^ w)"
  define k where "k = nat \<bar>i\<bar>"
  let ?r = "CHR ''.'' # show_padded w (k mod 10 ^ w) @ r"
  have "\<forall>c\<in>set (show_padded w (k mod 10 ^ w)). digit_of c \<noteq> None" using show_padded_chars by blast
  from take_digits_show [OF this ends_no_digit [OF r]]
  have td: "take_digits (show_padded w (k mod 10 ^ w) @ r) =
      (map (\<lambda>c. the (digit_of c)) (show_padded w (k mod 10 ^ w)), r)" .
  obtain a as where ne: "map (\<lambda>c. the (digit_of c)) (show_padded w (k mod 10 ^ w)) = a # as"
    using w length_show_padded [of w "k mod 10 ^ w"] by (cases "show_padded w (k mod 10 ^ w)") auto
  have len: "length (a # as) = w" using arg_cong [OF ne, of length] by simp
  have val: "nat_of_digits (a # as) = k mod 10 ^ w"
    using digits_value_padded [of w "k mod 10 ^ w"] by (simp add: digits_value_def ne)
  have frac: "parse_fraction ?r = Some (a # as, r)"
    using td by (simp add: parse_fraction_def ne)
  have "int (k div 10 ^ w) * 10 ^ w + int (k mod 10 ^ w) = int (k div 10 ^ w * 10 ^ w + k mod 10 ^ w)"
    by simp
  then have num: "int (k div 10 ^ w) * 10 ^ w + int (k mod 10 ^ w) = int k" by (simp only: div_mult_mod_eq)
  have tail: "number_tail sg (k div 10 ^ w) ?r = Some (JFloat (of_int (sg * int k) / 10 ^ w), r)" for sg
    using ends_no_fraction [OF r] unfolding number_tail_def frac option.case prod.case len val num
    by simp
  have nd: "case ?r of [] \<Rightarrow> True | c # _ \<Rightarrow> digit_of c = None" by (simp add: digit_of_def)
  have p: "(0 :: real) < 10 ^ w" by simp
  show ?thesis
  proof (cases "x < 0")
    case True
    then have "i \<le> 0" unfolding i_def using p by (intro round_half_even_sign(2)) (simp add: mult_neg_pos)
    then show ?thesis
      using parse_number_nat(2) [OF nd] tail [of "- 1"] True
      by (simp add: format_fixed_def Let_def k_def flip: i_def)
  next
    case False
    then have "0 \<le> i" unfolding i_def using p by (intro round_half_even_sign(1)) simp
    then show ?thesis
      using parse_number_nat(1) [OF nd] tail [of 1] False
      by (simp add: format_fixed_def Let_def k_def flip: i_def)
  qed
qed

lemma format_fixed_cases:
  obtains c t where "format_fixed w x = c # t" "digit_of c \<noteq> None"
  | c t where "format_fixed w x = CHR ''-'' # c # t" "digit_of c \<noteq> None"
proof -
  define n where "n = nat \<bar>round_half_even (x * 10 ^ w)\<bar> div 10 ^ w"
  obtain c cs where c: "show_nat n = c # cs" using show_nat_head [of n] by (cases "show_nat n") auto
  then have "digit_of c \<noteq> None" using show_nat_chars [of c n] by simp
  with c that show thesis by (cases "x < 0") (simp_all add: format_fixed_def Let_def flip: n_def)
qed

lemma parse_value_fixed:
  assumes "0 < w" and "ends r"
  shows "parse_value (Suc n) (format_fixed w x @ r) = Some (JFloat (of_int (round_half_even (x * 10 ^ w)) / 10 ^ w), r)"
  using parse_fixed [OF assms, of x]
  by (cases w x rule: format_fixed_cases) (simp_all add: digit_not_letter literal_not_digit)

interpretation decimal: float_printer go_decimal decimal_value
proof unfold_locales
  fix x r n
  show "token_start (go_decimal x)"
    unfolding go_decimal_def
    by (cases "decimals x" x rule: format_fixed_cases)
      (simp_all add: token_start_def digit_not_letter is_ws_def [of "CHR ''-''"])
  assume "ends r"
  then show "parse_value (Suc n) (go_decimal x @ r) = Some (JFloat (decimal_value x), r)"
    unfolding go_decimal_def decimal_value_def
    by (intro parse_value_fixed) (simp_all add: decimals_def)
qed

lemma places_integral: "places n x < n \<Longrightarrow> of_int \<lfloor>x * 10 ^ places n x\<rfloor> = x * 10 ^ places n x"
proof (induction n x rule: places.induct)
  case (2 n x)
  show ?case
  proof (cases "of_int \<lfloor>x\<rfloor> = x")
    case False
    then have "places n (10 * x) < n" using "2.prems" by simp
    from "2.IH" [OF False this] show ?thesis
      unfolding places.simps if_not_P [OF False] power_Suc by (simp only: ac_simps)
  qed simp
qed simp

lemma round_half_even_int: "of_int \<lfloor>x\<rfloor> = x \<Longrightarrow> of_int (round_half_even x) = x"
  unfolding round_half_even_def Let_def by (subst if_P) linarith+

text \<open>A number of at most 16 decimals is printed exactly.\<close>

lemma decimal_value_exact:
  assumes "places 17 x < 17"
  shows "decimal_value x = x"
proof -
  have "of_int \<lfloor>x * 10 ^ decimals x\<rfloor> = x * 10 ^ decimals x"
  proof (cases "places 17 x = 0")
    case True
    then have "of_int \<lfloor>x\<rfloor> = x" using places_integral [OF assms] by simp
    then have "x * 10 = of_int (\<lfloor>x\<rfloor> * 10)" by linarith
    then have "of_int \<lfloor>x * 10\<rfloor> = x * 10" by (simp only: floor_of_int)
    moreover have "decimals x = 1" using True by (simp add: decimals_def)
    ultimately show ?thesis by (simp only: power_one_right)
  next
    case False
    then have "decimals x = places 17 x" unfolding decimals_def by linarith
    then show ?thesis using places_integral [OF assms] by (simp only:)
  qed
  then show ?thesis by (simp add: decimal_value_def round_half_even_int)
qed

end
