(* ===== verification/Environment.thy ===== *)
theory Environment
  imports Models
begin

text \<open>
  Reading the configuration from the environment: \<open>KafkaConfig.from_env\<close>, \<open>RedisConfig.from_env\<close>, and
  Python's \<open>int()\<close> and \<open>float()\<close> of a text, which they call. An environment is what \<open>os.getenv\<close> sees of
  it. A reading is either an exception or a value; \<open>None\<close> stands for the readings that are not
  modelled: a text with characters beyond ASCII (whose digits and spaces Python also takes), and an
  infinite or undefined float.
\<close>

type_synonym environment = "string \<Rightarrow> string option"
type_synonym 'a reading = "(exn + 'a) option"

definition bind_reading :: "'a reading \<Rightarrow> ('a \<Rightarrow> 'b reading) \<Rightarrow> 'b reading" where
  "bind_reading x f = (case x of None \<Rightarrow> None | Some (Inl e) \<Rightarrow> Some (Inl e) | Some (Inr v) \<Rightarrow> f v)"

definition getenv :: "environment \<Rightarrow> string \<Rightarrow> string \<Rightarrow> string" where
  "getenv env name default_value = (case env name of None \<Rightarrow> default_value | Some v \<Rightarrow> v)"

subsection \<open>Numbers in texts\<close>

definition ascii :: "string \<Rightarrow> bool" where
  "ascii s \<longleftrightarrow> (\<forall>c\<in>set s. of_char c < (128 :: nat))"

definition py_space :: "char \<Rightarrow> bool" where
  "py_space c \<longleftrightarrow> (let n = of_char c :: nat in 9 \<le> n \<and> n \<le> 13 \<or> 28 \<le> n \<and> n \<le> 32)"

definition strip :: "string \<Rightarrow> string" where
  "strip s = rev (dropWhile py_space (rev (dropWhile py_space s)))"

definition take_sign :: "string \<Rightarrow> int \<times> string" where
  "take_sign s = (case s of
     c # r \<Rightarrow> if c = CHR ''-'' then (- 1, r) else if c = CHR ''+'' then (1, r) else (1, s)
   | [] \<Rightarrow> (1, s))"

text \<open>Digits, with single underscores allowed between two of them.\<close>

fun digit_run :: "string \<Rightarrow> nat list option" where
  "digit_run [] = None"
| "digit_run [c] = (case digit_of c of None \<Rightarrow> None | Some d \<Rightarrow> Some [d])"
| "digit_run (c # c' # r) =
     (case digit_of c of
        None \<Rightarrow> None
      | Some d \<Rightarrow> map_option (Cons d) (if c' = CHR ''_'' then digit_run r else digit_run (c' # r)))"

text \<open>\<open>int(s)\<close>; texts of more digits than \<open>sys.get_int_max_str_digits()\<close> are refused.\<close>

definition max_str_digits :: nat where
  "max_str_digits = 4300"

definition py_int :: "string \<Rightarrow> int reading" where
  "py_int s =
     (if \<not> ascii s then None
      else case take_sign (strip s) of (sg, r) \<Rightarrow>
        (case digit_run r of
           None \<Rightarrow> Some (Inl (ValueError ''invalid literal for int() with base 10''))
         | Some ds \<Rightarrow>
             if max_str_digits < length ds then Some (Inl (ValueError ''Exceeds the limit (4300 digits) for integer string conversion''))
             else Some (Inr (sg * int (nat_of_digits ds)))))"

text \<open>\<open>float(s)\<close>: a decimal with optional fraction and exponent, at least one digit before the exponent.\<close>

definition digits_or_none :: "string \<Rightarrow> nat list option" where
  "digits_or_none s = (if s = [] then Some [] else digit_run s)"

definition read_mantissa :: "string \<Rightarrow> (nat list \<times> nat list) option" where
  "read_mantissa s =
     (let whole = takeWhile (\<lambda>c. c \<noteq> CHR ''.'') s; rest = drop (length whole) s; frac = drop 1 rest
      in if whole = [] \<and> frac = [] then None
         else (case (digits_or_none whole, digits_or_none frac) of
                 (Some ws, Some fs) \<Rightarrow> Some (ws, fs)
               | _ \<Rightarrow> None))"

definition read_exponent :: "string \<Rightarrow> int option" where
  "read_exponent s =
     (case s of
        [] \<Rightarrow> Some 0
      | _ # r \<Rightarrow> (case take_sign r of (sg, ds) \<Rightarrow> map_option (\<lambda>ns. sg * int (nat_of_digits ns)) (digit_run ds)))"

definition lower :: "char \<Rightarrow> char" where
  "lower c = (let n = of_char c :: nat in if 65 \<le> n \<and> n \<le> 90 then char_of (n + 32) else c)"

definition py_float :: "string \<Rightarrow> real reading" where
  "py_float s =
     (if \<not> ascii s then None
      else case take_sign (strip s) of (sg, r) \<Rightarrow>
        if map lower r \<in> {''inf'', ''infinity'', ''nan''} then None
        else (let mant = takeWhile (\<lambda>c. lower c \<noteq> CHR ''e'') r; ex = drop (length mant) r
              in case (read_mantissa mant, read_exponent ex) of
                   (Some (ws, fs), Some x) \<Rightarrow>
                     Some (Inr (of_int (sg * int (nat_of_digits (ws @ fs))) / 10 ^ length fs * 10 powi x))
                 | _ \<Rightarrow> Some (Inl (ValueError ''could not convert string to float''))))"

definition env_int :: "environment \<Rightarrow> string \<Rightarrow> string \<Rightarrow> int reading" where
  "env_int env name default_value = py_int (getenv env name default_value)"

definition env_float :: "environment \<Rightarrow> string \<Rightarrow> string \<Rightarrow> real reading" where
  "env_float env name default_value = py_float (getenv env name default_value)"

subsection \<open>The configurations\<close>

definition kafka_config_from_env :: "environment \<Rightarrow> KafkaConfig reading" where
  "kafka_config_from_env env =
     bind_reading (env_int env ''KAFKA_FETCH_MIN_BYTES'' ''1'') (\<lambda>min_bytes.
     bind_reading (env_int env ''KAFKA_FETCH_MAX_WAIT_MS'' ''100'') (\<lambda>max_wait.
     bind_reading (env_int env ''KAFKA_MAX_POLL_RECORDS'' ''500'') (\<lambda>max_records.
     bind_reading (env_int env ''KAFKA_POLL_TIMEOUT_MS'' ''1000'') (\<lambda>poll_timeout.
     Some (Inr \<lparr>
       bootstrap_servers = getenv env ''KAFKA_BOOTSTRAP_SERVERS'' ''localhost:9092'',
       tx_events_topic = getenv env ''KAFKA_TX_EVENTS_TOPIC'' ''tx-events'',
       auth_events_topic = getenv env ''KAFKA_AUTH_EVENTS_TOPIC'' ''auth-events'',
       detections_topic = getenv env ''KAFKA_DETECTIONS_TOPIC'' ''detections'',
       audit_log_topic = getenv env ''KAFKA_AUDIT_LOG_TOPIC'' ''audit-log'',
       dlq_topic = getenv env ''KAFKA_DLQ_TOPIC'' ''rtace-dlq'',
       fetch_min_bytes = min_bytes,
       fetch_max_wait_ms = max_wait,
       max_poll_records = max_records,
       poll_timeout_ms = poll_timeout\<rparr>)))))"

definition redis_config_from_env :: "environment \<Rightarrow> RedisConfig reading" where
  "redis_config_from_env env =
     bind_reading (env_int env ''REDIS_PORT'' ''6379'') (\<lambda>port_no.
     bind_reading (env_int env ''REDIS_DB'' ''0'') (\<lambda>db_no.
     bind_reading (env_int env ''REDIS_REPLAY_TTL_HOURS'' ''24'') (\<lambda>replay.
     bind_reading (env_int env ''REDIS_QUARANTINE_TTL_SECONDS'' ''3600'') (\<lambda>quarantine.
     bind_reading (env_int env ''REDIS_SESSION_TTL_DAYS'' ''7'') (\<lambda>session.
     bind_reading (env_float env ''GEO_MAX_VELOCITY_KMH'' ''900'') (\<lambda>velocity.
     bind_reading (env_int env ''REDIS_BURST_WINDOW_SECONDS'' ''60'') (\<lambda>burst_window.
     bind_reading (env_int env ''REDIS_BURST_THRESHOLD'' ''20'') (\<lambda>burst_max.
     bind_reading (env_int env ''REDIS_BURST_KEY_TTL_SECONDS'' ''120'') (\<lambda>burst_ttl.
     bind_reading (env_int env ''REDIS_AUTH_FAIL_WINDOW_SECONDS'' ''60'') (\<lambda>auth_window.
     bind_reading (env_int env ''REDIS_AUTH_FAIL_USER_THRESHOLD'' ''10'') (\<lambda>user_max.
     bind_reading (env_int env ''REDIS_AUTH_FAIL_IP_THRESHOLD'' ''50'') (\<lambda>ip_max.
     bind_reading (env_int env ''REDIS_AUTH_FAIL_KEY_TTL_SECONDS'' ''120'') (\<lambda>auth_ttl.
     bind_reading (env_int env ''REDIS_IP_BLOCK_TTL_SECONDS'' ''3600'') (\<lambda>block.
     bind_reading (env_int env ''REDIS_STEP_UP_TTL_SECONDS'' ''900'') (\<lambda>step_up.
     bind_reading (env_int env ''REDIS_CONTAINMENT_RECEIPT_TTL_SECONDS'' (show_int (8 * 24 * 3600))) (\<lambda>receipt.
     bind_reading (env_int env ''DETECTION_COOLDOWN_SECONDS'' ''60'') (\<lambda>cooldown.
     Some (Inr \<lparr>
       host = getenv env ''REDIS_HOST'' ''localhost'',
       port = port_no,
       db = db_no,
       replay_ttl_hours = replay,
       quarantine_ttl_seconds = quarantine,
       session_ttl_days = session,
       geo_max_velocity_kmh = velocity,
       burst_window_seconds = burst_window,
       burst_threshold = burst_max,
       burst_key_ttl_seconds = burst_ttl,
       auth_fail_window_seconds = auth_window,
       auth_fail_user_threshold = user_max,
       auth_fail_ip_threshold = ip_max,
       auth_fail_key_ttl_seconds = auth_ttl,
       ip_block_ttl_seconds = block,
       step_up_ttl_seconds = step_up,
       containment_receipt_ttl_seconds = receipt,
       detection_cooldown_seconds = cooldown\<rparr>))))))))))))))))))"

subsection \<open>Printed numbers are read back\<close>

lemma digit_run_digits: "s \<noteq> [] \<Longrightarrow> \<forall>c\<in>set s. digit_of c \<noteq> None \<Longrightarrow> digit_run s = Some (map (\<lambda>c. the (digit_of c)) s)"
proof (induction s rule: digit_run.induct)
  case (3 c c' r)
  then have "c' \<noteq> CHR ''_''" by (auto simp: digit_of_def)
  with 3 show ?case by auto
qed auto

lemma digit_ascii: "digit_of c \<noteq> None \<Longrightarrow> of_char c < (128 :: nat) \<and> \<not> py_space c"
  by (auto simp: digit_of_def Let_def py_space_def split: if_splits)

lemma length_show_nat: "n < 10 ^ k \<Longrightarrow> 0 < k \<Longrightarrow> length (show_nat n) \<le> k"
proof (induction n arbitrary: k rule: show_nat.induct)
  case (1 n)
  show ?case
  proof (cases "n < 10")
    case True
    with 1 show ?thesis by (simp add: show_nat.simps [of n])
  next
    case False
    then have "1 < k" using 1(2,3) by (cases "k = 1") auto
    moreover have "n div 10 < 10 ^ (k - 1)"
      using 1(2) \<open>1 < k\<close> by (cases k) (auto simp: less_mult_imp_div_less mult.commute)
    ultimately have "length (show_nat (n div 10)) \<le> k - 1"
      using 1(1) [OF False, of "k - 1"] by simp
    with False \<open>1 < k\<close> show ?thesis by (simp add: show_nat.simps [of n])
  qed
qed

lemma strip_clean: "\<forall>c\<in>set s. \<not> py_space c \<Longrightarrow> strip s = s"
proof -
  have clean: "dropWhile py_space t = t" if "\<forall>c\<in>set t. \<not> py_space c" for t
    using that by (cases t) simp_all
  assume "\<forall>c\<in>set s. \<not> py_space c"
  then show ?thesis using clean [of s] clean [of "rev s"] by (simp add: strip_def)
qed

lemma show_int_parts:
  "\<exists>sg. take_sign (strip (show_int i)) = (sg, show_nat (nat \<bar>i\<bar>)) \<and> sg * \<bar>i\<bar> = i"
  "ascii (show_int i)"
proof -
  let ?ds = "show_nat (nat \<bar>i\<bar>)"
  have ds: "\<forall>c\<in>set ?ds. of_char c < (128 :: nat) \<and> \<not> py_space c" "?ds \<noteq> []"
    using digit_ascii show_nat_chars show_nat_head by blast+
  have eq: "show_int i = (if i < 0 then CHR ''-'' # ?ds else ?ds)"
    by (simp add: show_int_def)
  have "\<not> py_space (CHR ''-'')" by (simp add: py_space_def)
  with ds have clean: "\<forall>c\<in>set (show_int i). \<not> py_space c" "show_int i \<noteq> []" by (auto simp: eq)
  then have "strip (show_int i) = show_int i" by (intro strip_clean)
  moreover have "hd ?ds \<noteq> CHR ''+''" "hd ?ds \<noteq> CHR ''-''"
    using show_nat_head [of "nat \<bar>i\<bar>"] show_nat_chars [OF hd_in_set [OF ds(2)]] by (auto simp: digit_of_def)
  ultimately show "\<exists>sg. take_sign (strip (show_int i)) = (sg, ?ds) \<and> sg * \<bar>i\<bar> = i"
    using ds(2) by (cases ?ds) (auto simp: eq take_sign_def)
  show "ascii (show_int i)" using ds by (auto simp: eq ascii_def)
qed

lemma digit_run_show: "digit_run (show_nat n) = Some (map (\<lambda>c. the (digit_of c)) (show_nat n))"
  using show_nat_head show_nat_chars by (intro digit_run_digits) blast+

lemma nat_of_show: "nat_of_digits (map (\<lambda>c. the (digit_of c)) (show_nat n)) = n"
  using digits_value_show [of n] by (simp add: digits_value_def)

lemma py_int_show:
  assumes "\<bar>i\<bar> < 10 ^ max_str_digits"
  shows "py_int (show_int i) = Some (Inr i)"
proof -
  obtain sg where sg: "take_sign (strip (show_int i)) = (sg, show_nat (nat \<bar>i\<bar>))" "sg * \<bar>i\<bar> = i"
    using show_int_parts by blast
  have "nat \<bar>i\<bar> < 10 ^ max_str_digits" using assms by (simp add: nat_less_iff)
  then have "length (show_nat (nat \<bar>i\<bar>)) \<le> max_str_digits"
    by (rule length_show_nat) (simp add: max_str_digits_def)
  with sg show ?thesis
    by (simp add: py_int_def show_int_parts(2) digit_run_show nat_of_show)
qed

lemma lower_digit: "digit_of c \<noteq> None \<Longrightarrow> lower c = c \<and> c \<noteq> CHR ''.'' \<and> c \<noteq> CHR ''e''"
  by (auto simp: digit_of_def Let_def lower_def split: if_splits)

lemma py_float_show: "py_float (show_int i) = Some (Inr (of_int i))"
proof -
  let ?ds = "show_nat (nat \<bar>i\<bar>)"
  obtain sg where sg: "take_sign (strip (show_int i)) = (sg, ?ds)" "sg * \<bar>i\<bar> = i"
    using show_int_parts by blast
  have d: "\<forall>c\<in>set ?ds. lower c = c \<and> c \<noteq> CHR ''.'' \<and> c \<noteq> CHR ''e''" and ne: "?ds \<noteq> []"
    using lower_digit show_nat_chars show_nat_head by blast+
  have whole: "takeWhile (\<lambda>c. lower c \<noteq> CHR ''e'') ?ds = ?ds" "takeWhile (\<lambda>c. c \<noteq> CHR ''.'') ?ds = ?ds"
    "map lower ?ds = ?ds"
    using d by (simp_all add: takeWhile_eq_all_conv map_idI)
  have "?ds \<notin> {''inf'', ''infinity'', ''nan''}"
    using show_nat_chars [OF hd_in_set [OF ne]] by (auto simp: digit_of_def)
  moreover have "read_mantissa ?ds = Some (map (\<lambda>c. the (digit_of c)) ?ds, [])"
    using ne by (simp add: read_mantissa_def Let_def whole digits_or_none_def digit_run_show)
  moreover have "(of_int sg :: real) * of_int \<bar>i\<bar> = of_int i" using sg(2) by (metis of_int_mult)
  ultimately show ?thesis
    by (simp add: py_float_def show_int_parts(2) sg(1) Let_def whole read_exponent_def nat_of_show)
qed

subsection \<open>Reading a configuration back\<close>

text \<open>A configuration as the variables that set it, each field printed.\<close>

definition redis_vars :: "RedisConfig \<Rightarrow> int \<Rightarrow> (string \<times> string) list" where
  "redis_vars cfg velocity =
     [(''REDIS_HOST'', host cfg), (''REDIS_PORT'', show_int (port cfg)), (''REDIS_DB'', show_int (db cfg)),
      (''REDIS_REPLAY_TTL_HOURS'', show_int (replay_ttl_hours cfg)),
      (''REDIS_QUARANTINE_TTL_SECONDS'', show_int (quarantine_ttl_seconds cfg)),
      (''REDIS_SESSION_TTL_DAYS'', show_int (session_ttl_days cfg)),
      (''GEO_MAX_VELOCITY_KMH'', show_int velocity),
      (''REDIS_BURST_WINDOW_SECONDS'', show_int (burst_window_seconds cfg)),
      (''REDIS_BURST_THRESHOLD'', show_int (burst_threshold cfg)),
      (''REDIS_BURST_KEY_TTL_SECONDS'', show_int (burst_key_ttl_seconds cfg)),
      (''REDIS_AUTH_FAIL_WINDOW_SECONDS'', show_int (auth_fail_window_seconds cfg)),
      (''REDIS_AUTH_FAIL_USER_THRESHOLD'', show_int (auth_fail_user_threshold cfg)),
      (''REDIS_AUTH_FAIL_IP_THRESHOLD'', show_int (auth_fail_ip_threshold cfg)),
      (''REDIS_AUTH_FAIL_KEY_TTL_SECONDS'', show_int (auth_fail_key_ttl_seconds cfg)),
      (''REDIS_IP_BLOCK_TTL_SECONDS'', show_int (ip_block_ttl_seconds cfg)),
      (''REDIS_STEP_UP_TTL_SECONDS'', show_int (step_up_ttl_seconds cfg)),
      (''REDIS_CONTAINMENT_RECEIPT_TTL_SECONDS'', show_int (containment_receipt_ttl_seconds cfg)),
      (''DETECTION_COOLDOWN_SECONDS'', show_int (detection_cooldown_seconds cfg))]"

text \<open>The fields named in \<open>S\<close> from one configuration, the others from the defaults.\<close>

definition chosen :: "string set \<Rightarrow> RedisConfig \<Rightarrow> RedisConfig" where
  "chosen S cfg =
     (let pick = (\<lambda>n (v :: int) d. if n \<in> S then v else d) in \<lparr>
       host = (if ''REDIS_HOST'' \<in> S then host cfg else ''localhost''),
       port = pick ''REDIS_PORT'' (port cfg) 6379,
       db = pick ''REDIS_DB'' (db cfg) 0,
       replay_ttl_hours = pick ''REDIS_REPLAY_TTL_HOURS'' (replay_ttl_hours cfg) 24,
       quarantine_ttl_seconds = pick ''REDIS_QUARANTINE_TTL_SECONDS'' (quarantine_ttl_seconds cfg) 3600,
       session_ttl_days = pick ''REDIS_SESSION_TTL_DAYS'' (session_ttl_days cfg) 7,
       geo_max_velocity_kmh = (if ''GEO_MAX_VELOCITY_KMH'' \<in> S then geo_max_velocity_kmh cfg else 900),
       burst_window_seconds = pick ''REDIS_BURST_WINDOW_SECONDS'' (burst_window_seconds cfg) 60,
       burst_threshold = pick ''REDIS_BURST_THRESHOLD'' (burst_threshold cfg) 20,
       burst_key_ttl_seconds = pick ''REDIS_BURST_KEY_TTL_SECONDS'' (burst_key_ttl_seconds cfg) 120,
       auth_fail_window_seconds = pick ''REDIS_AUTH_FAIL_WINDOW_SECONDS'' (auth_fail_window_seconds cfg) 60,
       auth_fail_user_threshold = pick ''REDIS_AUTH_FAIL_USER_THRESHOLD'' (auth_fail_user_threshold cfg) 10,
       auth_fail_ip_threshold = pick ''REDIS_AUTH_FAIL_IP_THRESHOLD'' (auth_fail_ip_threshold cfg) 50,
       auth_fail_key_ttl_seconds = pick ''REDIS_AUTH_FAIL_KEY_TTL_SECONDS'' (auth_fail_key_ttl_seconds cfg) 120,
       ip_block_ttl_seconds = pick ''REDIS_IP_BLOCK_TTL_SECONDS'' (ip_block_ttl_seconds cfg) 3600,
       step_up_ttl_seconds = pick ''REDIS_STEP_UP_TTL_SECONDS'' (step_up_ttl_seconds cfg) 900,
       containment_receipt_ttl_seconds =
         pick ''REDIS_CONTAINMENT_RECEIPT_TTL_SECONDS'' (containment_receipt_ttl_seconds cfg) 691200,
       detection_cooldown_seconds = pick ''DETECTION_COOLDOWN_SECONDS'' (detection_cooldown_seconds cfg) 60\<rparr>)"

lemma env_int_picks:
  assumes "vars n = Some (show_int i)" and "\<bar>i\<bar> < 10 ^ max_str_digits" and "py_int d = Some (Inr j)"
  shows "env_int (\<lambda>n. if n \<in> S then vars n else None) n d = Some (Inr (if n \<in> S then i else j))"
  using assms by (simp add: env_int_def getenv_def py_int_show)

lemma env_float_picks:
  assumes "vars n = Some (show_int i)" and "py_float d = Some (Inr x)"
  shows "env_float (\<lambda>n. if n \<in> S then vars n else None) n d = Some (Inr (if n \<in> S then of_int i else x))"
  using assms by (simp add: env_float_def getenv_def py_float_show)

lemmas read_simps = py_int_def ascii_def strip_def py_space_def take_sign_def digit_of_def nat_of_digits_def max_str_digits_def

lemma default_texts:
  "py_int ''6379'' = Some (Inr 6379)" "py_int ''0'' = Some (Inr 0)" "py_int ''24'' = Some (Inr 24)"
  "py_int ''3600'' = Some (Inr 3600)" "py_int ''7'' = Some (Inr 7)" "py_int ''60'' = Some (Inr 60)"
  "py_int ''20'' = Some (Inr 20)" "py_int ''120'' = Some (Inr 120)" "py_int ''10'' = Some (Inr 10)"
  "py_int ''50'' = Some (Inr 50)" "py_int ''900'' = Some (Inr 900)"
  "py_int ''1'' = Some (Inr 1)" "py_int ''100'' = Some (Inr 100)" "py_int ''500'' = Some (Inr 500)"
  "py_int ''1000'' = Some (Inr 1000)"
  by (simp_all add: read_simps)

lemma default_velocity: "py_float ''900'' = Some (Inr 900)"
  by (simp add: py_float_def read_mantissa_def read_exponent_def digits_or_none_def lower_def Let_def ascii_def
      strip_def py_space_def take_sign_def digit_of_def nat_of_digits_def)

lemma small_ok: "\<bar>i\<bar> \<le> 10 ^ 6 \<Longrightarrow> \<bar>i\<bar> < (10 :: int) ^ max_str_digits"
proof -
  have "(10 :: int) ^ 6 < 10 ^ max_str_digits"
    by (rule power_strict_increasing) (simp_all add: max_str_digits_def)
  then show "\<bar>i\<bar> \<le> 10 ^ 6 \<Longrightarrow> ?thesis" by linarith
qed

lemma default_receipt: "py_int (show_int (8 * 24 * 3600)) = Some (Inr 691200)"
  using py_int_show [OF small_ok, of 691200] by simp

text \<open>With nothing set, both configurations are the documented defaults.\<close>

lemma kafka_defaults: "kafka_config_from_env (\<lambda>_. None) = Some (Inr default_kafka_config)"
  by (simp add: kafka_config_from_env_def env_int_def getenv_def default_texts bind_reading_def default_kafka_config_def)

definition int_fields :: "RedisConfig \<Rightarrow> int list" where
  "int_fields cfg =
     [port cfg, db cfg, replay_ttl_hours cfg, quarantine_ttl_seconds cfg, session_ttl_days cfg, burst_window_seconds cfg,
      burst_threshold cfg, burst_key_ttl_seconds cfg, auth_fail_window_seconds cfg, auth_fail_user_threshold cfg,
      auth_fail_ip_threshold cfg, auth_fail_key_ttl_seconds cfg, ip_block_ttl_seconds cfg, step_up_ttl_seconds cfg,
      containment_receipt_ttl_seconds cfg, detection_cooldown_seconds cfg]"

text \<open>The environment with the variables of \<open>S\<close> set.\<close>

definition setting :: "string set \<Rightarrow> RedisConfig \<Rightarrow> int \<Rightarrow> environment" where
  "setting S cfg v = (\<lambda>n. if n \<in> S then map_of (redis_vars cfg v) n else None)"

lemma settings_read:
  assumes "\<And>i. i \<in> set (int_fields cfg) \<Longrightarrow> \<bar>i\<bar> < 10 ^ max_str_digits"
  shows "env_int (setting S cfg v) ''REDIS_PORT'' ''6379'' = Some (Inr (if ''REDIS_PORT'' \<in> S then port cfg else 6379))"
    "env_int (setting S cfg v) ''REDIS_DB'' ''0'' = Some (Inr (if ''REDIS_DB'' \<in> S then db cfg else 0))"
    "env_int (setting S cfg v) ''REDIS_REPLAY_TTL_HOURS'' ''24'' = Some (Inr (if ''REDIS_REPLAY_TTL_HOURS'' \<in> S then replay_ttl_hours cfg else 24))"
    "env_int (setting S cfg v) ''REDIS_QUARANTINE_TTL_SECONDS'' ''3600'' =
       Some (Inr (if ''REDIS_QUARANTINE_TTL_SECONDS'' \<in> S then quarantine_ttl_seconds cfg else 3600))"
    "env_int (setting S cfg v) ''REDIS_SESSION_TTL_DAYS'' ''7'' = Some (Inr (if ''REDIS_SESSION_TTL_DAYS'' \<in> S then session_ttl_days cfg else 7))"
    "env_int (setting S cfg v) ''REDIS_BURST_WINDOW_SECONDS'' ''60'' =
       Some (Inr (if ''REDIS_BURST_WINDOW_SECONDS'' \<in> S then burst_window_seconds cfg else 60))"
    "env_int (setting S cfg v) ''REDIS_BURST_THRESHOLD'' ''20'' = Some (Inr (if ''REDIS_BURST_THRESHOLD'' \<in> S then burst_threshold cfg else 20))"
    "env_int (setting S cfg v) ''REDIS_BURST_KEY_TTL_SECONDS'' ''120'' =
       Some (Inr (if ''REDIS_BURST_KEY_TTL_SECONDS'' \<in> S then burst_key_ttl_seconds cfg else 120))"
    "env_int (setting S cfg v) ''REDIS_AUTH_FAIL_WINDOW_SECONDS'' ''60'' =
       Some (Inr (if ''REDIS_AUTH_FAIL_WINDOW_SECONDS'' \<in> S then auth_fail_window_seconds cfg else 60))"
    "env_int (setting S cfg v) ''REDIS_AUTH_FAIL_USER_THRESHOLD'' ''10'' =
       Some (Inr (if ''REDIS_AUTH_FAIL_USER_THRESHOLD'' \<in> S then auth_fail_user_threshold cfg else 10))"
    "env_int (setting S cfg v) ''REDIS_AUTH_FAIL_IP_THRESHOLD'' ''50'' =
       Some (Inr (if ''REDIS_AUTH_FAIL_IP_THRESHOLD'' \<in> S then auth_fail_ip_threshold cfg else 50))"
    "env_int (setting S cfg v) ''REDIS_AUTH_FAIL_KEY_TTL_SECONDS'' ''120'' =
       Some (Inr (if ''REDIS_AUTH_FAIL_KEY_TTL_SECONDS'' \<in> S then auth_fail_key_ttl_seconds cfg else 120))"
    "env_int (setting S cfg v) ''REDIS_IP_BLOCK_TTL_SECONDS'' ''3600'' =
       Some (Inr (if ''REDIS_IP_BLOCK_TTL_SECONDS'' \<in> S then ip_block_ttl_seconds cfg else 3600))"
    "env_int (setting S cfg v) ''REDIS_STEP_UP_TTL_SECONDS'' ''900'' =
       Some (Inr (if ''REDIS_STEP_UP_TTL_SECONDS'' \<in> S then step_up_ttl_seconds cfg else 900))"
    "env_int (setting S cfg v) ''DETECTION_COOLDOWN_SECONDS'' ''60'' =
       Some (Inr (if ''DETECTION_COOLDOWN_SECONDS'' \<in> S then detection_cooldown_seconds cfg else 60))"
  unfolding setting_def
  by (rule env_int_picks; simp add: redis_vars_def default_texts assms int_fields_def)+

text \<open>
  A configuration survives the environment: print every field of a Redis configuration (whose
  integers have at most 4300 digits and whose speed limit is whole) into its variable and set any
  part of these variables; \<open>RedisConfig.from_env\<close> then returns exactly the printed value for each
  variable that is set and the documented default for each that is not. With nothing set that is the
  default configuration, under which no Redis call is refused.
\<close>

theorem config_read_back:
  assumes "\<forall>i\<in>set (int_fields cfg). \<bar>i\<bar> < 10 ^ max_str_digits" and "geo_max_velocity_kmh cfg = of_int v"
  shows "redis_config_from_env (setting S cfg v) = Some (Inr (chosen S cfg)) \<and>
    chosen {} cfg = default_redis_config"
proof
  have small: "\<bar>i\<bar> < 10 ^ max_str_digits" if "i \<in> set (int_fields cfg)" for i using assms(1) that by blast
  have receipt: "env_int (setting S cfg v) ''REDIS_CONTAINMENT_RECEIPT_TTL_SECONDS'' (show_int (8 * 24 * 3600)) =
       Some (Inr (if ''REDIS_CONTAINMENT_RECEIPT_TTL_SECONDS'' \<in> S then containment_receipt_ttl_seconds cfg else 691200))"
    unfolding setting_def by (rule env_int_picks [OF _ _ default_receipt]) (simp_all add: redis_vars_def small int_fields_def)
  have velocity: "env_float (setting S cfg v) ''GEO_MAX_VELOCITY_KMH'' ''900'' =
       Some (Inr (if ''GEO_MAX_VELOCITY_KMH'' \<in> S then geo_max_velocity_kmh cfg else 900))"
    unfolding assms(2) setting_def by (rule env_float_picks [OF _ default_velocity]) (simp add: redis_vars_def)
  have name: "getenv (setting S cfg v) ''REDIS_HOST'' ''localhost'' = (if ''REDIS_HOST'' \<in> S then host cfg else ''localhost'')"
    by (simp add: getenv_def redis_vars_def setting_def)
  show "redis_config_from_env (setting S cfg v) = Some (Inr (chosen S cfg))"
    by (simp only: redis_config_from_env_def settings_read [OF small] receipt velocity name bind_reading_def option.case sum.case chosen_def Let_def)
  show "chosen {} cfg = default_redis_config"
    by (simp add: chosen_def default_redis_config_def)
qed

theorem config_read_back_witness:
  "redis_config_from_env (setting {''REDIS_BURST_THRESHOLD''} (default_redis_config\<lparr>burst_threshold := 5\<rparr>) 900) =
     Some (Inr (default_redis_config\<lparr>burst_threshold := 5\<rparr>))"
proof -
  let ?cfg = "default_redis_config\<lparr>burst_threshold := 5\<rparr>"
  have "\<forall>i\<in>set (int_fields ?cfg). \<bar>i\<bar> \<le> 10 ^ 6" by (simp add: int_fields_def default_redis_config_def)
  then have ok: "\<forall>i\<in>set (int_fields ?cfg). \<bar>i\<bar> < 10 ^ max_str_digits" using small_ok by blast
  have "chosen {''REDIS_BURST_THRESHOLD''} ?cfg = ?cfg" by (simp add: chosen_def default_redis_config_def)
  with config_read_back [OF ok, of 900 "{''REDIS_BURST_THRESHOLD''}"] show ?thesis
    by (simp add: default_redis_config_def)
qed

end
