(* ===== verification/DecisionEngine.thy ===== *)
theory DecisionEngine
  imports GoJson Environment LuaScripts World
begin

text \<open>
  The synchronous decision service, \<open>decision-service/internal/decision\<close>: \<open>engine.go\<close> (configuration,
  the replay hash, \<open>Engine.Decide\<close>, \<open>Engine.verdict\<close>) and \<open>server.go\<close> (the gRPC entry point, the HTTP
  handler, health). The clock, UUIDs and SHA-256 are fields of the engine; protojson and structpb
  are fields of the server. Go's \<open>int\<close> and \<open>time.Duration\<close> are 64 bits wide and wrap; \<open>float64\<close> is a real
  number. An error wrapped by \<open>fmt.Errorf("...: %w", err)\<close> is the error it wraps.
\<close>

subsection \<open>Configuration\<close>

definition int64 :: "int \<Rightarrow> int" where
  "int64 x = (x + 2 ^ 63) mod 2 ^ 64 - 2 ^ 63"

definition int32 :: "int \<Rightarrow> int" where
  "int32 x = (x + 2 ^ 31) mod 2 ^ 32 - 2 ^ 31"

text \<open>\<open>strconv.Atoi\<close>: an optional sign and decimal digits, within 64 bits.\<close>

definition go_digits :: "string \<Rightarrow> nat list option" where
  "go_digits s = (case take_digits s of (ds, r) \<Rightarrow> if ds = [] \<or> r \<noteq> [] then None else Some ds)"

definition atoi :: "string \<Rightarrow> int option" where
  "atoi s = (case take_sign s of (sg, r) \<Rightarrow>
     (case go_digits r of
        None \<Rightarrow> None
      | Some ds \<Rightarrow> (let n = sg * int (nat_of_digits ds) in if int64 n = n then Some n else None)))"

text \<open>
  \<open>strconv.ParseFloat(s, 64)\<close> of a decimal; an error is \<open>Some None\<close>. \<open>None\<close> stands for the texts that are
  not modelled: hexadecimal floats, infinities and NaN. A decimal that rounds to an infinity is an
  error (\<open>ErrRange\<close>).
\<close>

definition float_limit :: real where
  "float_limit = 2 ^ 1024 - 2 ^ 970"

definition go_mantissa :: "string \<Rightarrow> (nat list \<times> nat list) option" where
  "go_mantissa s =
     (case take_digits s of (ws, r) \<Rightarrow>
        (let frac = (case r of [] \<Rightarrow> Some [] | c # r' \<Rightarrow>
                       (if c \<noteq> CHR ''.'' then None
                        else case take_digits r' of (fs, r'') \<Rightarrow> if r'' = [] then Some fs else None))
         in case frac of None \<Rightarrow> None | Some fs \<Rightarrow> if ws = [] \<and> fs = [] then None else Some (ws, fs)))"

definition go_exponent :: "string \<Rightarrow> int option" where
  "go_exponent s =
     (case s of
        [] \<Rightarrow> Some 0
      | _ # r \<Rightarrow> (case take_sign r of (sg, t) \<Rightarrow> map_option (\<lambda>ds. sg * int (nat_of_digits ds)) (go_digits t)))"

definition parse_float :: "string \<Rightarrow> real option option" where
  "parse_float s =
     (case take_sign s of (sg, r) \<Rightarrow>
        if map lower r \<in> {''inf'', ''infinity'', ''nan''} \<or> map lower (take 2 r) = ''0x'' then None
        else
          (let mant = takeWhile (\<lambda>c. lower c \<noteq> CHR ''e'') r; ex = drop (length mant) r
           in case (go_mantissa mant, go_exponent ex) of
                (Some (ws, fs), Some x) \<Rightarrow>
                  (let v = of_int (sg * int (nat_of_digits (ws @ fs))) / 10 ^ length fs * 10 powi x
                   in Some (if float_limit \<le> \<bar>v\<bar> then None else Some v))
              | _ \<Rightarrow> Some None))"

text \<open>\<open>os.Getenv\<close> is empty for an unset variable.\<close>

definition envInt :: "environment \<Rightarrow> string \<Rightarrow> int \<Rightarrow> int" where
  "envInt env name default_value =
     (let v = getenv env name []
      in if v \<noteq> [] then (case atoi v of Some n \<Rightarrow> n | None \<Rightarrow> default_value) else default_value)"

definition envFloat :: "environment \<Rightarrow> string \<Rightarrow> real \<Rightarrow> real option" where
  "envFloat env name default_value =
     (let v = getenv env name []
      in if v \<noteq> []
         then map_option (\<lambda>r. case r of Some x \<Rightarrow> x | None \<Rightarrow> default_value) (parse_float v)
         else Some default_value)"

definition go_second :: int where
  "go_second = 1000000000"

definition go_hour :: int where
  "go_hour = 3600 * go_second"

record DecisionConfig =
  dc_ReplayTTL :: int
  dc_BurstWindow :: int
  dc_BurstThreshold :: int
  dc_BurstKeyTTL :: int
  dc_SessionTTL :: int
  dc_MaxVelocityKmh :: real
  dc_ResultTTL :: int
  dc_DenyScore :: int
  dc_ChallengeScore :: int

definition ConfigFromEnv :: "environment \<Rightarrow> DecisionConfig option" where
  "ConfigFromEnv env =
     (case envFloat env ''GEO_MAX_VELOCITY_KMH'' 900 of
        None \<Rightarrow> None
      | Some velocity \<Rightarrow> Some
          \<lparr>dc_ReplayTTL = int64 (envInt env ''REDIS_REPLAY_TTL_HOURS'' 24 * go_hour),
           dc_BurstWindow = int64 (envInt env ''REDIS_BURST_WINDOW_SECONDS'' 60 * go_second),
           dc_BurstThreshold = envInt env ''REDIS_BURST_THRESHOLD'' 20,
           dc_BurstKeyTTL = int64 (envInt env ''REDIS_BURST_KEY_TTL_SECONDS'' 120 * go_second),
           dc_SessionTTL = int64 (int64 (envInt env ''REDIS_SESSION_TTL_DAYS'' 7 * 24) * go_hour),
           dc_MaxVelocityKmh = velocity,
           dc_ResultTTL = int64 (envInt env ''DECISION_RESULT_TTL_SECONDS'' 86400 * go_second),
           dc_DenyScore = envInt env ''DECISION_DENY_SCORE'' 80,
           dc_ChallengeScore = envInt env ''DECISION_CHALLENGE_SCORE'' 40\<rparr>)"

text \<open>\<open>Duration.Seconds()\<close>, and \<open>int\<close> of a float, which drops the fraction.\<close>

definition seconds :: "int \<Rightarrow> real" where
  "seconds d = of_int d / of_int go_second"

definition go_int :: "real \<Rightarrow> int" where
  "go_int x = (if 0 \<le> x then \<lfloor>x\<rfloor> else \<lceil>x\<rceil>)"

subsection \<open>Transactions and decisions\<close>

text \<open>
  A \<open>time.Time\<close> is what the service reads of it: \<open>Format("2006-01-02T15:04:05")\<close>, \<open>Nanosecond()\<close>,
  \<open>Format("-07:00")\<close> and \<open>UnixNano()\<close>. A transaction without a timestamp has the zero time, \<open>None\<close>.
\<close>

record go_time =
  gt_base :: string
  gt_nanosecond :: nat
  gt_offset :: string
  gt_unix_nano :: int

record Transaction =
  gx_EventID :: string
  gx_UserID :: string
  gx_Amount :: real
  gx_Merchant :: string
  gx_Timestamp :: "go_time option"
  gx_Location :: string
  gx_Latitude :: real
  gx_Longitude :: real
  gx_IPAddress :: string

text \<open>A \<open>map[string]any\<close> is the list of its entries in the order of their keys, as it is marshalled.\<close>

record Reason =
  rs_Type :: string
  rs_Score :: int
  rs_Details :: "(string \<times> json) list"

text \<open>\<open>DecidedAt\<close> is kept as the RFC 3339 text it is marshalled as.\<close>

record Decision =
  dn_DecisionID :: string
  dn_Verdict :: string
  dn_Score :: int
  dn_Reasons :: "Reason list"
  dn_Cached :: bool
  dn_DecidedAt :: string
  dn_Source :: string

definition pythonISOFormat :: "go_time \<Rightarrow> string" where
  "pythonISOFormat t =
     (let us = gt_nanosecond t div 1000
      in gt_base t @ (if us \<noteq> 0 then ''.'' @ show_padded 6 us else []) @ gt_offset t)"

text \<open>\<open>time.RFC3339Nano\<close>: the fraction without trailing zeros, UTC as \<open>Z\<close>.\<close>

definition rfc3339 :: "go_time \<Rightarrow> string" where
  "rfc3339 t =
     gt_base t @
     (if gt_nanosecond t = 0 then []
      else ''.'' @ rev (dropWhile (\<lambda>c. c = CHR ''0'') (rev (show_padded 9 (gt_nanosecond t))))) @
     (if gt_offset t = ''+00:00'' then ''Z'' else gt_offset t)"

definition replay_text :: "Transaction \<Rightarrow> go_time \<Rightarrow> string" where
  "replay_text tx t =
     gx_UserID tx @ ''|'' @ format_fixed 2 (gx_Amount tx) @ ''|'' @ gx_Merchant tx @ ''|'' @
     pythonISOFormat t @ ''|'' @ gx_Location tx"

definition ReplayHash :: "(string \<Rightarrow> string) \<Rightarrow> Transaction \<Rightarrow> go_time \<Rightarrow> string" where
  "ReplayHash sha256 tx t = sha256 (replay_text tx t)"

definition sanitizeIP :: "string \<Rightarrow> string" where
  "sanitizeIP ip = replace_char (CHR '':'') (CHR ''-'') ip"

subsection \<open>The stored form\<close>

definition reason_json :: "Reason \<Rightarrow> json" where
  "reason_json r = JObj [(''type'', JStr (rs_Type r)), (''score'', JInt (rs_Score r)), (''details'', JObj (rs_Details r))]"

definition decision_json :: "Decision \<Rightarrow> json" where
  "decision_json d = JObj
     [(''decision_id'', JStr (dn_DecisionID d)), (''verdict'', JStr (dn_Verdict d)), (''score'', JInt (dn_Score d)),
      (''reasons'', JArr (map reason_json (dn_Reasons d))), (''cached'', JBool (dn_Cached d)),
      (''decided_at'', JStr (dn_DecidedAt d)), (''source'', JStr (dn_Source d))]"

definition marshal_decision :: "Decision \<Rightarrow> string" where
  "marshal_decision d = go_marshal go_decimal (decision_json d)"

text \<open>
  \<open>json.Unmarshal\<close> into a \<open>Decision\<close>: a member that is missing or \<open>null\<close> leaves the zero value, one of
  another type is an error (\<open>None\<close>), and numbers inside \<open>details\<close> become \<open>float64\<close>. Members are
  looked up by their exact names.
\<close>

fun go_any :: "json \<Rightarrow> json" where
  "go_any (JInt i) = JFloat (of_int i)"
| "go_any (JArr xs) = JArr (map go_any xs)"
| "go_any (JObj kvs) = JObj (map (\<lambda>kv. (fst kv, go_any (snd kv))) kvs)"
| "go_any v = v"

text \<open>Python reads \<open>NaN\<close> and the infinities; Go's syntax has no such values.\<close>

fun go_syntax :: "json \<Rightarrow> bool" where
  "go_syntax (JSpecial s) = False"
| "go_syntax (JArr xs) = (\<forall>x\<in>set xs. go_syntax x)"
| "go_syntax (JObj kvs) = (\<forall>kv\<in>set kvs. go_syntax (snd kv))"
| "go_syntax _ = True"

definition get_member :: "'a \<Rightarrow> (json \<Rightarrow> 'a option) \<Rightarrow> (string \<times> json) list \<Rightarrow> string \<Rightarrow> 'a option" where
  "get_member z f kvs k = (case dict_get kvs k of None \<Rightarrow> Some z | Some JNull \<Rightarrow> Some z | Some v \<Rightarrow> f v)"

fun get_string :: "json \<Rightarrow> string option" where
  "get_string (JStr s) = Some s"
| "get_string _ = None"

fun get_int :: "json \<Rightarrow> int option" where
  "get_int (JInt i) = (if int64 i = i then Some i else None)"
| "get_int _ = None"

fun get_bool :: "json \<Rightarrow> bool option" where
  "get_bool (JBool b) = Some b"
| "get_bool _ = None"

fun get_details :: "json \<Rightarrow> (string \<times> json) list option" where
  "get_details (JObj kvs) = Some (map (\<lambda>kv. (fst kv, go_any (snd kv))) kvs)"
| "get_details _ = None"

text \<open>The strict RFC 3339 form \<open>time.Time\<close> accepts, with the ranges of its parts.\<close>

definition two_digits :: "string \<Rightarrow> nat option" where
  "two_digits s =
     (case s of
        [a, b] \<Rightarrow> (case (digit_of a, digit_of b) of (Some x, Some y) \<Rightarrow> Some (10 * x + y) | _ \<Rightarrow> None)
      | _ \<Rightarrow> None)"

definition within_range :: "string \<Rightarrow> nat \<Rightarrow> nat \<Rightarrow> bool" where
  "within_range s lo hi \<longleftrightarrow> (case two_digits s of None \<Rightarrow> False | Some n \<Rightarrow> lo \<le> n \<and> n \<le> hi)"

definition days_in :: "nat \<Rightarrow> nat \<Rightarrow> nat" where
  "days_in year month =
     (if month = 2 then (if year mod 4 = 0 \<and> (year mod 100 \<noteq> 0 \<or> year mod 400 = 0) then 29 else 28)
      else if month \<in> {4, 6, 9, 11} then 30 else 31)"

definition date_time_ok :: "string \<Rightarrow> bool" where
  "date_time_ok s \<longleftrightarrow>
     length s = 19 \<and> s ! 4 = CHR ''-'' \<and> s ! 7 = CHR ''-'' \<and> s ! 10 = CHR ''T'' \<and> s ! 13 = CHR '':'' \<and> s ! 16 = CHR '':'' \<and>
     (case (two_digits (take 2 s), two_digits (take 2 (drop 2 s)), two_digits (take 2 (drop 5 s)), two_digits (take 2 (drop 8 s))) of
        (Some c, Some y, Some mo, Some d) \<Rightarrow> 1 \<le> mo \<and> mo \<le> 12 \<and> 1 \<le> d \<and> d \<le> days_in (100 * c + y) mo
      | _ \<Rightarrow> False) \<and>
     within_range (take 2 (drop 11 s)) 0 23 \<and> within_range (take 2 (drop 14 s)) 0 59 \<and> within_range (take 2 (drop 17 s)) 0 59"

definition zone_ok :: "string \<Rightarrow> bool" where
  "zone_ok s \<longleftrightarrow> s = ''Z'' \<or>
     (length s = 6 \<and> (s ! 0 = CHR ''+'' \<or> s ! 0 = CHR ''-'') \<and> s ! 3 = CHR '':'' \<and>
      within_range (take 2 (drop 1 s)) 0 23 \<and> within_range (drop 4 s) 0 59)"

definition time_ok :: "string \<Rightarrow> bool" where
  "time_ok s \<longleftrightarrow> date_time_ok (take 19 s) \<and>
     (case drop 19 s of
        c # r \<Rightarrow> (if c = CHR ''.'' then (case take_digits r of (ds, r') \<Rightarrow> ds \<noteq> [] \<and> zone_ok r') else zone_ok (c # r))
      | [] \<Rightarrow> False)"

fun get_time :: "json \<Rightarrow> string option" where
  "get_time (JStr s) = (if time_ok s then Some s else None)"
| "get_time _ = None"

fun get_reason :: "json \<Rightarrow> Reason option" where
  "get_reason (JObj kvs) =
     (case (get_member [] get_string kvs ''type'', get_member 0 get_int kvs ''score'', get_member [] get_details kvs ''details'') of
        (Some t, Some s, Some d) \<Rightarrow> Some \<lparr>rs_Type = t, rs_Score = s, rs_Details = d\<rparr>
      | _ \<Rightarrow> None)"
| "get_reason JNull = Some \<lparr>rs_Type = [], rs_Score = 0, rs_Details = []\<rparr>"
| "get_reason _ = None"

fun get_list :: "(json \<Rightarrow> 'a option) \<Rightarrow> json list \<Rightarrow> 'a list option" where
  "get_list f [] = Some []"
| "get_list f (v # vs) = (case (f v, get_list f vs) of (Some x, Some xs) \<Rightarrow> Some (x # xs) | _ \<Rightarrow> None)"

fun get_reasons :: "json \<Rightarrow> Reason list option" where
  "get_reasons (JArr vs) = get_list get_reason vs"
| "get_reasons _ = None"

definition zero_time :: string where
  "zero_time = ''0001-01-01T00:00:00Z''"

definition decision_of_json :: "json \<Rightarrow> Decision option" where
  "decision_of_json v =
     (case v of
        JObj kvs \<Rightarrow>
          (case (get_member [] get_string kvs ''decision_id'', get_member [] get_string kvs ''verdict'',
                 get_member 0 get_int kvs ''score'', get_member [] get_reasons kvs ''reasons'',
                 get_member False get_bool kvs ''cached'', get_member zero_time get_time kvs ''decided_at'',
                 get_member [] get_string kvs ''source'') of
             (Some i, Some v, Some sc, Some rs, Some c, Some t, Some src) \<Rightarrow>
               Some \<lparr>dn_DecisionID = i, dn_Verdict = v, dn_Score = sc, dn_Reasons = rs, dn_Cached = c,
                     dn_DecidedAt = t, dn_Source = src\<rparr>
           | _ \<Rightarrow> None)
      | JNull \<Rightarrow> Some \<lparr>dn_DecisionID = [], dn_Verdict = [], dn_Score = 0, dn_Reasons = [], dn_Cached = False,
                     dn_DecidedAt = zero_time, dn_Source = []\<rparr>
      | _ \<Rightarrow> None)"

definition unmarshal_decision :: "string \<Rightarrow> Decision option" where
  "unmarshal_decision s =
     (case json_loads s of
        None \<Rightarrow> None
      | Some v \<Rightarrow> if go_syntax v then decision_of_json v else None)"

subsection \<open>The engine\<close>

definition Allow :: string where
  "Allow = ''ALLOW''"

definition Challenge :: string where
  "Challenge = ''CHALLENGE''"

definition Deny :: string where
  "Deny = ''DENY''"

definition scoreReplay :: int where
  "scoreReplay = 100"

definition scoreBurst :: int where
  "scoreBurst = 80"

definition scoreGeo :: int where
  "scoreGeo = 70"

definition scoreQuarantine :: int where
  "scoreQuarantine = 100"

definition scoreIPBlocked :: int where
  "scoreIPBlocked = 100"

definition minTimeSeconds :: real where
  "minTimeSeconds = 1"

text \<open>A call reads the clock twice: \<open>eng_arrival\<close> for a transaction without a time, \<open>eng_now\<close> for the decision.\<close>

record 'r Engine =
  eng_rdb :: "'r redis"
  eng_cfg :: DecisionConfig
  eng_sha256 :: "string \<Rightarrow> string"
  eng_uuid :: string
  eng_arrival :: go_time
  eng_now :: go_time

text \<open>\<open>Engine.verdict\<close>: the strongest signal plus 10 per additional signal, capped at 100.\<close>

definition max_score :: "Reason list \<Rightarrow> int" where
  "max_score reasons = fold (\<lambda>r m. if m < rs_Score r then rs_Score r else m) reasons 0"

definition engine_verdict :: "DecisionConfig \<Rightarrow> Reason list \<Rightarrow> int \<times> string" where
  "engine_verdict cfg reasons =
     (if reasons = [] then (0, Allow)
      else (let score = min 100 (max_score reasons + 10 * (int (length reasons) - 1))
            in if dc_DenyScore cfg \<le> score then (score, Deny)
               else if dc_ChallengeScore cfg \<le> score then (score, Challenge)
               else (score, Allow)))"

definition new_decision :: "'r Engine \<Rightarrow> Decision" where
  "new_decision E = \<lparr>dn_DecisionID = ''dec-'' @ eng_uuid E, dn_Verdict = [], dn_Score = 0, dn_Reasons = [],
     dn_Cached = False, dn_DecidedAt = rfc3339 (eng_now E), dn_Source = ''decision-service''\<rparr>"

definition tx_time :: "'r Engine \<Rightarrow> Transaction \<Rightarrow> go_time" where
  "tx_time E tx = (case gx_Timestamp tx of None \<Rightarrow> eng_arrival E | Some t \<Rightarrow> t)"

text \<open>The pipelined look at the rules on the user and the address.\<close>

definition lookup_keys :: "Transaction \<Rightarrow> string list" where
  "lookup_keys tx =
     [''enforce:quarantine:user:'' @ gx_UserID tx, ''enforce:step_up:user:'' @ gx_UserID tx] @
     (if gx_IPAddress tx \<noteq> [] then [''block:ip:'' @ sanitizeIP (gx_IPAddress tx)] else [])"

definition refuse :: "Decision \<Rightarrow> string \<Rightarrow> int \<Rightarrow> (string \<times> json) list \<Rightarrow> string \<Rightarrow> Decision" where
  "refuse d ty score ds verdict = d\<lparr>dn_Reasons := dn_Reasons d @ [\<lparr>rs_Type = ty, rs_Score = score, rs_Details = ds\<rparr>],
     dn_Score := score, dn_Verdict := verdict\<rparr>"

definition enforced :: "Decision \<Rightarrow> Transaction \<Rightarrow> reply list \<Rightarrow> Decision option" where
  "enforced d tx flags =
     (let quarantined = 0 < as_int (flags ! 0);
          step_up = 0 < as_int (flags ! 1);
          blocked = gx_IPAddress tx \<noteq> [] \<and> 0 < as_int (flags ! 2)
      in if quarantined then Some (refuse d ''user_quarantined'' scoreQuarantine [] Deny)
         else if blocked
         then Some (refuse d ''ip_blocked'' scoreIPBlocked [(''ip_address'', JStr (gx_IPAddress tx))] Deny)
         else if step_up then Some (refuse d ''step_up_pending'' scoreGeo [] Challenge)
         else None)"

definition decide_keys :: "'r Engine \<Rightarrow> Transaction \<Rightarrow> tx_keys" where
  "decide_keys E tx = \<lparr>k_replay = ''replay:seen:'' @ ReplayHash (eng_sha256 E) tx (tx_time E tx),
     k_burst = ''burst:'' @ gx_UserID tx @ '':1m'', k_session = ''session:'' @ gx_UserID tx\<rparr>"

definition decide_args :: "'r Engine \<Rightarrow> Transaction \<Rightarrow> tx_args" where
  "decide_args E tx =
     (let cfg = eng_cfg E; now_ts = of_int (gt_unix_nano (tx_time E tx)) / 10 ^ 9
      in \<lparr>a_record_ref = ''decision:'' @ gx_EventID tx, a_replay_ttl_s = go_int (seconds (dc_ReplayTTL cfg)),
          a_event_id = gx_EventID tx, a_now_ts = now_ts, a_burst_cutoff = now_ts - seconds (dc_BurstWindow cfg),
          a_burst_key_ttl_s = go_int (seconds (dc_BurstKeyTTL cfg)), a_latitude = gx_Latitude tx,
          a_longitude = gx_Longitude tx, a_session_ttl_s = go_int (seconds (dc_SessionTTL cfg)),
          a_max_velocity_kmh = dc_MaxVelocityKmh cfg, a_min_time_s = minTimeSeconds\<rparr>)"

definition result_key :: "Transaction \<Rightarrow> string" where
  "result_key tx = ''decision:result:'' @ gx_EventID tx"

text \<open>
  The verdict stored for an event that was decided before. A failed read is treated as no verdict.
\<close>

definition stored_verdict :: "'r Engine \<Rightarrow> Transaction \<Rightarrow> ('r, Decision option) action" where
  "stored_verdict E tx s =
     (case eng_rdb E (GET (result_key tx)) s of (r, s') \<Rightarrow>
        (Inr (case r of
                Inr (RBulk v) \<Rightarrow> map_option (\<lambda>prev. prev\<lparr>dn_Cached := True\<rparr>) (unmarshal_decision v)
              | _ \<Rightarrow> None), s'))"

text \<open>The reasons, with the details in the order of their keys.\<close>

definition num_or_zero :: "real option \<Rightarrow> real" where
  "num_or_zero x = (case x of None \<Rightarrow> 0 | Some v \<Rightarrow> v)"

definition reasons_of :: "DecisionConfig \<Rightarrow> Transaction \<Rightarrow> tx_result \<Rightarrow> Reason list" where
  "reasons_of cfg tx res =
     (if replay_status res = ''replay''
      then [\<lparr>rs_Type = ''replay_attack'', rs_Score = scoreReplay, rs_Details = [(''first_seen_record'', JStr (stored_ref res))]\<rparr>]
      else []) @
     (if dc_BurstThreshold cfg < burst_count res
      then [\<lparr>rs_Type = ''fraud_burst'', rs_Score = scoreBurst, rs_Details =
              [(''count_in_window'', JFloat (of_int (burst_count res))), (''threshold'', JFloat (of_int (dc_BurstThreshold cfg))),
               (''window_seconds'', JFloat (seconds (dc_BurstWindow cfg)))]\<rparr>]
      else []) @
     (if geo_status res = ''anomaly''
      then [\<lparr>rs_Type = ''geo_velocity_anomaly'', rs_Score = scoreGeo, rs_Details =
              [(''distance_km'', JFloat (distance_km res)), (''elapsed_seconds'', JFloat (elapsed_s res)),
               (''from_location'', JArr [JFloat (num_or_zero (prev_lat res)), JFloat (num_or_zero (prev_lon res))]),
               (''threshold_kmh'', JFloat (dc_MaxVelocityKmh cfg)),
               (''to_location'', JArr [JFloat (gx_Latitude tx), JFloat (gx_Longitude tx)]),
               (''velocity_kmh'', JFloat (velocity_kmh res))]\<rparr>]
      else [])"

text \<open>
  \<open>Set\<close> of go-redis: a positive expiration is sent in seconds (one with a fraction of a second in
  milliseconds, which the model counts in whole seconds, at least one); any other keeps the key for
  good.
\<close>

definition set_cmd :: "string \<Rightarrow> string \<Rightarrow> int \<Rightarrow> cmd" where
  "set_cmd k v ttl = (if 0 < ttl then SET_EX k v (max 1 (ttl div go_second)) else SET k v)"

definition scored :: "'r Engine \<Rightarrow> Transaction \<Rightarrow> tx_result \<Rightarrow> Decision" where
  "scored E tx res =
     (let rs = reasons_of (eng_cfg E) tx res
      in (new_decision E)\<lparr>dn_Reasons := rs, dn_Score := fst (engine_verdict (eng_cfg E) rs),
            dn_Verdict := snd (engine_verdict (eng_cfg E) rs)\<rparr>)"

definition Decide :: "'r Engine \<Rightarrow> Transaction \<Rightarrow> ('r, Decision) action" where
  "Decide E tx =
     (if gx_EventID tx = [] \<or> gx_UserID tx = [] then raise_exn (OtherError ''event_id and user_id are required'')
      else
        bindE (pipe_execute (map (\<lambda>k. eng_rdb E (EXISTS k)) (lookup_keys tx))) (\<lambda>flags.
        case enforced (new_decision E) tx flags of
          Some d \<Rightarrow> ret d
        | None \<Rightarrow>
            bindE (tx_check (eng_rdb E) (decide_keys E tx) (decide_args E tx)) (\<lambda>res.
            bindE (if replay_status res = ''redelivery'' then stored_verdict E tx else ret None) (\<lambda>prev.
            case prev of
              Some d \<Rightarrow> ret d
            | None \<Rightarrow>
                (let d = scored E tx res
                 in bindE (eng_rdb E (set_cmd (result_key tx) (marshal_decision d) (dc_ResultTTL (eng_cfg E)))) (\<lambda>_.
                    ret d))))))"

subsection \<open>The server\<close>

text \<open>
  A request and its answer. \<open>'st\<close> is protobuf's \<open>Struct\<close>; the enum of a verdict that is none of the
  three is \<open>VERDICT_UNSPECIFIED\<close>.
\<close>

datatype verdict_enum = VERDICT_UNSPECIFIED | ALLOW | CHALLENGE | DENY

record 'st ReasonMsg =
  rm_type :: string
  rm_score :: int
  rm_details :: 'st

record 'st DecideResponse =
  resp_decision_id :: string
  resp_verdict :: verdict_enum
  resp_score :: int
  resp_reasons :: "'st ReasonMsg list"
  resp_cached :: bool
  resp_decided_at :: string

record ('r, 'st) Server =
  srv_engine :: "'r Engine"
  srv_ping :: bool
  srv_new_struct :: "(string \<times> json) list \<Rightarrow> exn + 'st"
  srv_unmarshal :: "string \<Rightarrow> exn + Transaction option"
  srv_marshal :: "'st DecideResponse \<Rightarrow> string"
  srv_err_text :: "exn \<Rightarrow> string"

definition verdict_enum_of :: "string \<Rightarrow> verdict_enum" where
  "verdict_enum_of v =
     (if v = Allow then ALLOW else if v = Challenge then CHALLENGE else if v = Deny then DENY else VERDICT_UNSPECIFIED)"

fun reason_msgs :: "((string \<times> json) list \<Rightarrow> exn + 'st) \<Rightarrow> Reason list \<Rightarrow> exn + 'st ReasonMsg list" where
  "reason_msgs new_struct [] = Inr []"
| "reason_msgs new_struct (r # rs) =
     (case new_struct (rs_Details r) of
        Inl e \<Rightarrow> Inl e
      | Inr st \<Rightarrow>
          (case reason_msgs new_struct rs of
             Inl e \<Rightarrow> Inl e
           | Inr ms \<Rightarrow> Inr (\<lparr>rm_type = rs_Type r, rm_score = int32 (rs_Score r), rm_details = st\<rparr> # ms)))"

definition toProto :: "((string \<times> json) list \<Rightarrow> exn + 'st) \<Rightarrow> Decision \<Rightarrow> exn + 'st DecideResponse" where
  "toProto new_struct d =
     (case reason_msgs new_struct (dn_Reasons d) of
        Inl e \<Rightarrow> Inl e
      | Inr ms \<Rightarrow> Inr \<lparr>resp_decision_id = dn_DecisionID d, resp_verdict = verdict_enum_of (dn_Verdict d),
                   resp_score = int32 (dn_Score d), resp_reasons = ms, resp_cached = dn_Cached d,
                   resp_decided_at = dn_DecidedAt d\<rparr>)"

definition errInvalid :: exn where
  "errInvalid = ValidationError ''invalid request''"

text \<open>An action with the errors of another kept: \<open>if err != nil { ...; return nil, err }\<close>.\<close>

definition counting_errors :: "('s, unit) action \<Rightarrow> ('s, 'a) action \<Rightarrow> ('s, 'a) action" where
  "counting_errors h m s = (case m s of (Inl e, s') \<Rightarrow> bindE h (\<lambda>_. raise_exn e) s' | (Inr x, s') \<Rightarrow> (Inr x, s'))"

definition decision_metrics :: "Decision \<Rightarrow> metric list" where
  "decision_metrics d =
     (''decisions_total'', [dn_Verdict d]) # map (\<lambda>r. (''decision_reasons_total'', [rs_Type r])) (dn_Reasons d)"

definition server_decide :: "('r, 'st) Server \<Rightarrow> Transaction \<Rightarrow> (('r, 'p) world, 'st DecideResponse) action" where
  "server_decide S tx =
     (if gx_EventID tx = [] \<or> gx_UserID tx = []
      then bindE (inc (''decision_errors_total'', [])) (\<lambda>_. raise_exn errInvalid)
      else
        bindE (counting_errors (inc (''decision_errors_total'', [])) (on_redis (Decide (srv_engine S) tx))) (\<lambda>d.
        bindE (incs (decision_metrics d)) (\<lambda>_.
        case toProto (srv_new_struct S) d of Inl e \<Rightarrow> raise_exn e | Inr resp \<Rightarrow> ret resp)))"

datatype grpc_code = InvalidArgument | Unavailable

definition grpc_Decide ::
  "('r, 'st) Server \<Rightarrow> Transaction option \<Rightarrow> ('r, 'p) world \<Rightarrow> (grpc_code + 'st DecideResponse) \<times> ('r, 'p) world" where
  "grpc_Decide S req w =
     (case req of
        None \<Rightarrow> (Inl InvalidArgument, w)
      | Some tx \<Rightarrow>
          (case server_decide S tx w of
             (Inl e, w') \<Rightarrow> (Inl (if e = errInvalid then InvalidArgument else Unavailable), w')
           | (Inr resp, w') \<Rightarrow> (Inr resp, w')))"

record http_reply =
  http_status :: nat
  http_body :: string

abbreviation reply_with :: "nat \<Rightarrow> string \<Rightarrow> http_reply" where
  "reply_with code body \<equiv> \<lparr>http_status = code, http_body = body\<rparr>"

definition newline :: string where
  "newline = [CHR 0x0A]"

text \<open>
  \<open>POST /v1/decide\<close>: at most \<open>1<<20\<close> bytes of the body are read. The body is what the connection
  delivers, or the error reading it ends with.
\<close>

definition post_decide :: "('r, 'st) Server \<Rightarrow> exn + string \<Rightarrow> ('r, 'p) world \<Rightarrow> http_reply \<times> ('r, 'p) world" where
  "post_decide S received w =
     (case received of
        Inl e \<Rightarrow> (reply_with 400 (srv_err_text S e @ newline), w)
      | Inr body \<Rightarrow>
     (case srv_unmarshal S (take (2 ^ 20) body) of
        Inl e \<Rightarrow> (reply_with 400 (''invalid JSON: '' @ srv_err_text S e @ newline), w)
      | Inr None \<Rightarrow>
          (reply_with 400 (go_marshal go_decimal (JObj [(''error'', JStr ''transaction is required'')]) @ newline), w)
      | Inr (Some tx) \<Rightarrow>
          (case server_decide S tx w of
             (Inl e, w') \<Rightarrow>
               (reply_with (if e = errInvalid then 400 else 503)
                  (go_marshal go_decimal (JObj [(''error'', JStr (srv_err_text S e))]) @ newline), w')
           | (Inr resp, w') \<Rightarrow> (reply_with 200 (srv_marshal S resp), w'))))"

definition get_healthz :: "('r, 'st) Server \<Rightarrow> ('r, 'p) world \<Rightarrow> http_reply \<times> ('r, 'p) world" where
  "get_healthz S w =
     (if srv_ping S
      then (case on_redis (eng_rdb (srv_engine S) PING) w of
              (Inl e, w') \<Rightarrow> (reply_with 503 (go_marshal go_decimal (JObj [(''status'', JStr ''redis unavailable'')]) @ newline), w')
            | (Inr _, w') \<Rightarrow>
                (reply_with 200 (go_marshal go_decimal (JObj [(''status'', JStr ''ok''), (''redis'', JStr ''connected'')])), w'))
      else (reply_with 200 (go_marshal go_decimal (JObj [(''status'', JStr ''ok''), (''redis'', JStr ''connected'')])), w))"

end
