(* ===== verification/DecisionRun.thy ===== *)
theory DecisionRun
  imports DecisionEngine PipelineTheorems
begin

text \<open>
  What \<open>Engine.Decide\<close> computes against a server that is up (\<open>decide_outcome\<close>), and what becomes of the
  decision it stores: Python and Go both read it back.
\<close>

subsection \<open>The closed form\<close>

definition engine_ok :: "DecisionConfig \<Rightarrow> bool" where
  "engine_ok cfg \<longleftrightarrow> go_second \<le> dc_ReplayTTL cfg \<and> go_second \<le> dc_BurstKeyTTL cfg \<and> go_second \<le> dc_SessionTTL cfg \<and>
     0 < dc_BurstWindow cfg \<and> 0 \<le> dc_MaxVelocityKmh cfg \<and> 0 < dc_ResultTTL cfg"

definition named :: "Transaction \<Rightarrow> bool" where
  "named tx \<longleftrightarrow> gx_EventID tx \<noteq> [] \<and> gx_UserID tx \<noteq> []"

text \<open>The rule that refuses a transaction, as the type of its reason and the verdict.\<close>

definition rule_on :: "keyspace \<Rightarrow> Transaction \<Rightarrow> (string \<times> string) option" where
  "rule_on m tx =
     (if live m (quarantine_key (gx_UserID tx)) then Some (''user_quarantined'', Deny)
      else if gx_IPAddress tx \<noteq> [] \<and> live m (ip_block_key (gx_IPAddress tx)) then Some (''ip_blocked'', Deny)
      else if live m (step_up_key (gx_UserID tx)) then Some (''step_up_pending'', Challenge)
      else None)"

definition refusal :: "'r Engine \<Rightarrow> Transaction \<Rightarrow> string \<times> string \<Rightarrow> Decision" where
  "refusal E tx rule =
     (new_decision E)\<lparr>dn_Reasons := [\<lparr>rs_Type = fst rule,
        rs_Score = (if fst rule = ''step_up_pending'' then 70 else 100),
        rs_Details = (if fst rule = ''ip_blocked'' then [(''ip_address'', JStr (gx_IPAddress tx))] else [])\<rparr>],
      dn_Score := (if fst rule = ''step_up_pending'' then 70 else 100), dn_Verdict := snd rule\<rparr>"

definition earlier_verdict :: "keyspace \<Rightarrow> Transaction \<Rightarrow> Decision option" where
  "earlier_verdict m tx =
     (case decision_reply m (result_key tx) of
        RBulk v \<Rightarrow> map_option (\<lambda>prev. prev\<lparr>dn_Cached := True\<rparr>) (unmarshal_decision v)
      | _ \<Rightarrow> None)"

definition result_ttl :: "DecisionConfig \<Rightarrow> int" where
  "result_ttl cfg = max 1 (dc_ResultTTL cfg div go_second)"

definition store_result :: "DecisionConfig \<Rightarrow> Transaction \<Rightarrow> Decision \<Rightarrow> keyspace \<Rightarrow> keyspace" where
  "store_result cfg tx d = fmupd (result_key tx) (mk_entry (RStr (marshal_decision d)) (Some (result_ttl cfg)))"

definition decide_outcome :: "'r Engine \<Rightarrow> keyspace \<Rightarrow> Transaction \<Rightarrow> Decision \<times> keyspace" where
  "decide_outcome E m tx =
     (case rule_on m tx of
        Some rule \<Rightarrow> (refusal E tx rule, m)
      | None \<Rightarrow>
          (let res = tx_outcome m (decide_keys E tx) (decide_args E tx);
               m1 = tx_state m (decide_keys E tx) (decide_args E tx)
           in case (if replay_status res = ''redelivery'' then earlier_verdict m1 tx else None) of
                Some d \<Rightarrow> (d, m1)
              | None \<Rightarrow> (scored E tx res, store_result (eng_cfg E) tx (scored E tx res) m1)))"

lemma go_int_pos: "go_second \<le> d \<Longrightarrow> 0 < go_int (seconds d)"
  by (simp add: go_int_def seconds_def go_second_def)

lemma decide_args_ok:
  assumes "engine_ok (eng_cfg E)"
  shows "args_ok (decide_args E tx)"
proof -
  have "0 < seconds (dc_BurstWindow (eng_cfg E))"
    using assms by (simp add: engine_ok_def seconds_def go_second_def)
  with assms show ?thesis
    by (simp add: engine_ok_def args_ok_def decide_args_def Let_def go_int_pos)
qed

lemma decide_keys_good [simp]: "good_keys (decide_keys E tx)"
  by (simp add: good_keys_def decide_keys_def)

lemma lookup_keys_eq:
  "lookup_keys tx = [quarantine_key (gx_UserID tx), step_up_key (gx_UserID tx)] @
     (if gx_IPAddress tx \<noteq> [] then [ip_block_key (gx_IPAddress tx)] else [])"
  by (simp add: lookup_keys_def key_defs sanitizeIP_def sanitize_ip_for_key_def QUARANTINE_KEY_PREFIX_def
      STEP_UP_KEY_PREFIX_def IP_BLOCK_KEY_PREFIX_def)

lemma result_key_plain [simp]: "\<not> check_key (result_key tx)" "\<not> zset_key (result_key tx)" "\<not> hash_key (result_key tx)"
  by (simp_all add: result_key_def check_key_def zset_key_def hash_key_def)

lemma result_get:
  assumes "typed_ks m"
  shows "kv_step (GET (result_key tx)) m = (Inr (decision_reply m (result_key tx)), m)"
  using typed_ks_is(3) [OF assms, of "result_key tx"]
  by (auto simp: kv_simps decision_reply_def is_text_def split: option.splits)

text \<open>The engine over key spaces.\<close>

definition engine_on_keys :: "'r Engine \<Rightarrow> keyspace Engine" where
  "engine_on_keys E = \<lparr>eng_rdb = kv_step, eng_cfg = eng_cfg E, eng_sha256 = eng_sha256 E, eng_uuid = eng_uuid E,
     eng_arrival = eng_arrival E, eng_now = eng_now E\<rparr>"

lemma engine_on_keys_sel [simp]:
  "eng_rdb (engine_on_keys E) = kv_step" "eng_cfg (engine_on_keys E) = eng_cfg E"
  "eng_sha256 (engine_on_keys E) = eng_sha256 E" "eng_uuid (engine_on_keys E) = eng_uuid E"
  "eng_arrival (engine_on_keys E) = eng_arrival E" "eng_now (engine_on_keys E) = eng_now E"
  by (simp_all add: engine_on_keys_def)

lemma engine_on_keys_pure [simp]:
  "new_decision (engine_on_keys E) = new_decision E" "decide_keys (engine_on_keys E) = decide_keys E"
  "decide_args (engine_on_keys E) = decide_args E" "scored (engine_on_keys E) = scored E"
  "tx_time (engine_on_keys E) = tx_time E"
  unfolding new_decision_def decide_keys_def [abs_def] decide_args_def [abs_def] scored_def [abs_def]
    tx_time_def [abs_def] engine_on_keys_sel
  by (rule refl)+

lemma set_cmd_plain [simp]: "\<not> is_conn_cmd (set_cmd k v t)" "\<not> is_scan (set_cmd k v t)"
  by (simp_all add: set_cmd_def)

context redis_up
begin

lemma sim_stored_verdict:
  assumes "eng_rdb E = rc"
  shows "sim (\<lambda>s. ks (obs s)) (stored_verdict E tx) (stored_verdict (engine_on_keys E) tx)"
proof -
  have "sim (\<lambda>s. ks (obs s)) (rc (GET (result_key tx))) (kv_step (GET (result_key tx)))" by (rule sim_kv) simp_all
  then show ?thesis
    by (simp add: sim_def stored_verdict_def assms split_beta)
qed

lemma sim_Decide:
  assumes "eng_rdb E = rc"
  shows "sim (\<lambda>s. ks (obs s)) (Decide E tx) (Decide (engine_on_keys E) tx)"
  unfolding Decide_def Let_def assms engine_on_keys_sel engine_on_keys_pure
  by (intro sim_intros sim_tx_check sim_stored_verdict assms)
    (simp_all add: list.rel_map list_all2_same sim_kv)

end

definition exists_reply :: "keyspace \<Rightarrow> string \<Rightarrow> reply" where
  "exists_reply m k = RInt (if live m k then 1 else 0)"

lemma enforced_kv:
  "enforced (new_decision E) tx (map (exists_reply m) (lookup_keys tx)) = map_option (refusal E tx) (rule_on m tx)"
  by (simp add: exists_reply_def enforced_def lookup_keys_eq rule_on_def refusal_def refuse_def Let_def scoreQuarantine_def scoreIPBlocked_def
      scoreGeo_def new_decision_def)

lemma Decide_kv:
  assumes kv: "eng_rdb E = kv_step" and m: "typed_ks m" and ok: "engine_ok (eng_cfg E)" and tx: "named tx"
  shows "Decide E tx m = (Inr (fst (decide_outcome E m tx)), snd (decide_outcome E m tx))"
proof -
  let ?k = "decide_keys E tx"
  let ?a = "decide_args E tx"
  have flags: "pipe_execute (map (\<lambda>k. kv_step (EXISTS k)) (lookup_keys tx)) m =
      (Inr (map (exists_reply m) (lookup_keys tx)), m)"
    by (intro pipe_execute_map_ok mapE_const) (simp add: kv_simps exists_reply_def)
  have run: "tx_check kv_step ?k ?a m = (Inr (tx_outcome m ?k ?a), tx_state m ?k ?a)"
    by (intro tx_check_kv good_keys_typed decide_keys_good m decide_args_ok ok)
  have m1: "typed_ks (tx_state m ?k ?a)" by (intro tx_state_typed_ks decide_keys_good m)
  have prev: "stored_verdict E tx (tx_state m ?k ?a) = (Inr (earlier_verdict (tx_state m ?k ?a) tx), tx_state m ?k ?a)"
    using result_get [OF m1, of tx] by (simp add: stored_verdict_def earlier_verdict_def kv)
  have set: "kv_step (set_cmd (result_key tx) v (dc_ResultTTL (eng_cfg E))) n =
      (Inr ROk, fmupd (result_key tx) (mk_entry (RStr v) (Some (result_ttl (eng_cfg E)))) n)" for v n
    using ok by (simp add: set_cmd_def engine_ok_def kv_simps result_ttl_def)
  show ?thesis
  proof (cases "rule_on m tx")
    case (Some rule)
    then show ?thesis
      using tx by (simp add: Decide_def named_def kv bindE_def flags enforced_kv decide_outcome_def ret_def)
  next
    case None
    have "Decide E tx m = bindE (if replay_status (tx_outcome m ?k ?a) = ''redelivery'' then stored_verdict E tx else ret None) (\<lambda>prev.
            case prev of
              Some d \<Rightarrow> ret d
            | None \<Rightarrow>
                (let d = scored E tx (tx_outcome m ?k ?a)
                 in bindE (kv_step (set_cmd (result_key tx) (marshal_decision d) (dc_ResultTTL (eng_cfg E)))) (\<lambda>_.
                    ret d))) (tx_state m ?k ?a)"
      using tx None by (simp add: Decide_def named_def kv bindE_def flags enforced_kv run)
    also have "\<dots> = (Inr (fst (decide_outcome E m tx)), snd (decide_outcome E m tx))"
      using None prev by (simp add: decide_outcome_def Let_def bindE_def ret_def set store_result_def split: option.splits)
    finally show ?thesis .
  qed
qed

lemma decide_outcome_on_keys [simp]: "decide_outcome (engine_on_keys E) = decide_outcome E"
  unfolding decide_outcome_def [abs_def] refusal_def [abs_def] engine_on_keys_pure engine_on_keys_sel ..

lemma Decide_run:
  assumes "redis_up rc obs" and "eng_rdb E = rc" and "typed_ks (ks (obs s))" and "engine_ok (eng_cfg E)" and "named tx"
  shows "\<exists>s'. Decide E tx s = (Inr (fst (decide_outcome E (ks (obs s)) tx)), s') \<and>
    ks (obs s') = snd (decide_outcome E (ks (obs s)) tx)"
proof -
  have "Decide (engine_on_keys E) tx (ks (obs s)) =
      (Inr (fst (decide_outcome E (ks (obs s)) tx)), snd (decide_outcome E (ks (obs s)) tx))"
    using Decide_kv [of "engine_on_keys E" "ks (obs s)" tx] assms(3-5) by simp
  from sim_run [OF redis_up.sim_Decide [OF assms(1,2)] this] show ?thesis .
qed

subsection \<open>A stored decision is read back\<close>

abbreviation reread_details :: "(string \<times> json) list \<Rightarrow> (string \<times> json) list" where
  "reread_details ds \<equiv> map (\<lambda>kv. (fst kv, reread decimal_value (snd kv))) ds"

lemma loads_marshalled: "json_loads (marshal_decision d) = Some (reread decimal_value (decision_json d))"
  unfolding marshal_decision_def by (rule decimal.loads_marshal)

lemma loads_decision:
  "json_loads (marshal_decision d) = Some (JObj
     [(''decision_id'', JStr (dn_DecisionID d)), (''verdict'', JStr (dn_Verdict d)), (''score'', JInt (dn_Score d)),
      (''reasons'', JArr (map (\<lambda>r. JObj [(''type'', JStr (rs_Type r)), (''score'', JInt (rs_Score r)),
          (''details'', JObj (reread_details (rs_Details r)))]) (dn_Reasons d))),
      (''cached'', JBool (dn_Cached d)), (''decided_at'', JStr (dn_DecidedAt d)), (''source'', JStr (dn_Source d))])"
  unfolding loads_marshalled by (simp add: decision_json_def reason_json_def)

lemma marshal_nonempty [simp]: "marshal_decision d \<noteq> []"
  by (simp add: marshal_decision_def decision_json_def)

text \<open>Python: the reasons of the three kinds become detections of the transaction.\<close>

definition reason_detection :: "TransactionEvent \<Rightarrow> string \<Rightarrow> Reason \<Rightarrow> DetectionEvent" where
  "reason_detection t verdict r =
     \<lparr>detection_id = ''pending'', detection_type = rs_Type r, severity = ''high'', de_user_id = tx_user_id t,
      transaction_id = tx_event_id t, de_timestamp = tx_timestamp t, de_ip_address = None,
      details = reread_details (rs_Details r) @ [(''source'', JStr ''decision-service''), (''verdict'', JStr verdict)]\<rparr>"

lemma detections_of_reasons:
  "reason_detections t (JStr v) (map (\<lambda>r. JObj [(''type'', JStr (rs_Type r)), (''score'', JInt (rs_Score r)),
      (''details'', JObj (reread_details (rs_Details r)))]) rs) =
   Inr (map (reason_detection t v) (filter (\<lambda>r. rs_Type r \<in> set decision_types) rs))"
proof (induction rs)
  case (Cons r rs)
  then show ?case by (simp add: dict_get_def dict_get_default_def reason_detection_def del: set_map)
qed simp

lemma python_reads_decision:
  "detections_from_decision t (RBulk (marshal_decision d)) =
     Inr (map (reason_detection t (dn_Verdict d)) (filter (\<lambda>r. rs_Type r \<in> set decision_types) (dn_Reasons d)))"
  by (simp add: detections_from_decision_def loads_decision dict_get_def dict_get_default_def iter_json_def
      detections_of_reasons)

text \<open>Go: every field as it was, the details as \<open>float64\<close>s again.\<close>

definition go_reread :: "json \<Rightarrow> json" where
  "go_reread v = go_any (reread decimal_value v)"

definition reread_reason :: "Reason \<Rightarrow> Reason" where
  "reread_reason r = r\<lparr>rs_Details := map (\<lambda>kv. (fst kv, go_reread (snd kv))) (rs_Details r)\<rparr>"

lemma reread_syntax: "go_syntax (reread rd v)"
  by (induction v) (auto simp: snds.simps)

lemma get_reasons_back:
  "\<forall>r\<in>set rs. int64 (rs_Score r) = rs_Score r \<Longrightarrow>
   get_list get_reason (map (\<lambda>r. JObj [(''type'', JStr (rs_Type r)), (''score'', JInt (rs_Score r)),
      (''details'', JObj (reread_details (rs_Details r)))]) rs) = Some (map reread_reason rs)"
proof (induction rs)
  case (Cons r rs)
  then show ?case
    by (simp add: get_member_def dict_get_def reread_reason_def go_reread_def)
qed simp

lemma go_reads_decision:
  assumes "int64 (dn_Score d) = dn_Score d" and "\<forall>r\<in>set (dn_Reasons d). int64 (rs_Score r) = rs_Score r"
    and "time_ok (dn_DecidedAt d)"
  shows "unmarshal_decision (marshal_decision d) = Some (d\<lparr>dn_Reasons := map reread_reason (dn_Reasons d)\<rparr>)"
proof -
  have "go_syntax (reread decimal_value (decision_json d))" by (rule reread_syntax)
  then have "unmarshal_decision (marshal_decision d) = decision_of_json (reread decimal_value (decision_json d))"
    by (simp add: unmarshal_decision_def loads_marshalled)
  also have "\<dots> = Some (d\<lparr>dn_Reasons := map reread_reason (dn_Reasons d)\<rparr>)"
    using assms get_reasons_back [OF assms(2)]
    by (simp add: decision_of_json_def decision_json_def reason_json_def get_member_def dict_get_def o_def)
  finally show ?thesis .
qed

text \<open>Numbers of at most 16 decimals come back unchanged.\<close>

fun exact :: "json \<Rightarrow> bool" where
  "exact (JFloat x) = (places 17 x < 17)"
| "exact (JInt i) = False"
| "exact (JSpecial s) = False"
| "exact (JArr xs) = (\<forall>x\<in>set xs. exact x)"
| "exact (JObj kvs) = (\<forall>kv\<in>set kvs. exact (snd kv))"
| "exact _ = True"

lemma go_reread_exact: "exact v \<Longrightarrow> go_reread v = v"
proof (induction v)
  case (JFloat x)
  then show ?case using decimal_value_exact [of x] by (simp add: go_reread_def go_integral_def)
next
  case (JArr xs)
  then show ?case by (simp add: go_reread_def map_idI)
next
  case (JObj kvs)
  then show ?case by (auto simp: go_reread_def snds.simps intro!: map_idI)
qed (simp_all add: go_reread_def)

end
