(* ===== verification/TypeSafety.thy ===== *)
theory TypeSafety
  imports Typing DecisionRun
begin

text \<open>
  The routines of the services under the type discipline: the checks of the detection engine,
  cooldowns, containment and its retries, the API's routes. Then the services together: a step of
  the system is a batch of the detection engine, a detection handled by the containment engine, a
  request to the API, or the passing of time, and every key space the system reaches is sane.
\<close>

subsection \<open>Keys\<close>

lemma plain_ok: "plain_key k \<Longrightarrow> text_key k \<and> readable k v"
  by (simp add: plain_key_def text_key_def readable_def)

lemma plain_state_keys [simp]: "plain_key (cooldown_key d)" "plain_key (replay_key sha tx)"
  by (simp_all add: plain_key_def zset_key_def hash_key_def DECISION_RESULT_PREFIX_def cooldown_key_def
      COOLDOWN_KEY_PREFIX_def key_defs)

lemma check_keys [simp]: "zset_key (burst_key u)" "hash_key (session_key u)" "zset_key (user_key au)" "zset_key (ip_key au)"
  by (simp_all add: zset_key_def hash_key_def user_key_def ip_key_def key_defs)

lemma decision_text [simp]: "text_key (decision_key ev)"
  by (cases ev) (simp_all add: text_key_def zset_key_def hash_key_def DECISION_RESULT_PREFIX_def)

lemma rule_group_text:
  "(name, pfx, sf) \<in> set RULE_GROUPS \<Longrightarrow> prefix pfx k \<Longrightarrow> text_key k"
  by (auto simp: RULE_GROUPS_def text_key_def zset_key_def hash_key_def key_defs prefix_def)

subsection \<open>Routines\<close>

context typed_redis
begin

lemma well_window: "zset_key k \<Longrightarrow> wellT (sane_at obs) (window_step rc k cutoff now i ttl)"
  unfolding window_step_def by (intro well_intros well_cmd) simp_all

lemma well_auth_check:
  "zset_key k \<Longrightarrow> zset_key k' \<Longrightarrow> wellT (sane_at obs) (auth_check rc (k, k') i now cutoff ttl)"
  unfolding auth_check_def by (intro well_intros well_window) simp_all

lemma well_replay_check: "plain_key k \<Longrightarrow> wellT (sane_at obs) (replay_check rc k a)"
  unfolding replay_check_def Let_def
  using plain_ok [of k] by (intro well_intros well_cmd) simp_all

lemma well_session_write: "hash_key k \<Longrightarrow> wellT (sane_at obs) (session_write rc k a)"
  unfolding session_write_def by (intro well_intros well_cmd) simp_all

lemma well_tx_check:
  assumes "plain_key (k_replay k)" "zset_key (k_burst k)" "hash_key (k_session k)"
  shows "wellT (sane_at obs) (tx_check rc k a)"
  unfolding tx_check_def
  by (intro well_intros well_replay_check well_window well_session_write well_cmd assms) (simp add: assms)

lemma well_queue_check:
  assumes P: "dp_redis P = rc"
  shows "wellT (sane_at obs) (queue_check P it)"
  unfolding queue_check_def queue_tx_check_def queue_auth_check_def Let_def P
  by (cases "it_event it") (auto simp: tx_check_keys_def intro!: well_intros well_tx_check well_auth_check)

text \<open>The decision service stores what the pipeline can read.\<close>

lemma well_Decide:
  assumes E: "eng_rdb E = rc" and ttl: "0 < dc_ResultTTL (eng_cfg E)"
  shows "wellT (sane_at obs) (Decide E tx)"
proof -
  have keys: "plain_key (k_replay (decide_keys E tx))" "zset_key (k_burst (decide_keys E tx))" "hash_key (k_session (decide_keys E tx))"
    by (simp_all add: decide_keys_def plain_key_def zset_key_def hash_key_def DECISION_RESULT_PREFIX_def)
  have get: "wellT (sane_at obs) (rc (GET (result_key tx)))" by (rule well_cmd) (simp add: text_key_def)
  have stored: "wellT (sane_at obs) (stored_verdict E tx)"
  proof (rule wellI)
    fix s r s' assume s: "sane_at obs s" and run: "stored_verdict E tx s = (r, s')"
    obtain q where "rc (GET (result_key tx)) s = (q, s')" "\<exists>x. r = Inr x"
      using run by (auto simp: stored_verdict_def E split: prod.splits)
    with wellD [OF get s] show "sane_at obs s' \<and> r \<noteq> Inl wrongtype \<and> (\<forall>x. r = Inr x \<longrightarrow> True)" by auto
  qed
  have "readable (result_key tx) (marshal_decision d)" for d
    using python_reads_decision by (auto simp: readable_def)
  then have store: "wellT (sane_at obs) (rc (set_cmd (result_key tx) (marshal_decision d) (dc_ResultTTL (eng_cfg E))))" for d
    using ttl by (intro well_cmd) (simp add: set_cmd_def text_key_def)
  have asks: "wellT (sane_at obs) (pipe_execute (map (\<lambda>k. rc (EXISTS k)) (lookup_keys tx)))"
    by (intro well_pipe) (auto intro!: well_cmd)
  show ?thesis
    unfolding Decide_def Let_def E
    by (auto intro!: well_intros asks stored store well_tx_check keys simp: wrongtype_def split: option.splits)
qed

lemma well_cooled: "wellT (on_server (sane_at obs)) (filter_cooled_down rc cfg ds)"
  unfolding filter_cooled_down_def
  using plain_ok by (intro well_intros well_pipe) (auto intro!: well_cmd)

lemma well_release: "wellT (sane_at obs) (release_cooldown rc keys)"
  unfolding release_cooldown_def by (intro well_intros well_cmd) simp

text \<open>Containment writes rules and receipts.\<close>

lemma well_plan: "well (sane_at obs) (plan rc d cfg) (\<lambda>(actions, writes). \<forall>(k, t)\<in>set writes. plain_key k)"
proof -
  have asks: "wellT (sane_at obs) (rc (EXISTS k))" for k by (rule well_cmd) simp
  show ?thesis
    unfolding plan_def Let_def
    by (cases "de_ip_address d") (auto intro!: well_if well_retQ well_bind [OF asks])
qed

lemma well_reset: "wellT (sane_at obs) (reset_pipe rc)"
  using well_cmd [of UNWATCH] by (simp add: well_def reset_pipe_def)

lemma well_resetting: "well (sane_at obs) m Q \<Longrightarrow> well (sane_at obs) (resetting rc m) Q"
proof (rule wellI)
  fix s r s'
  assume m: "well (sane_at obs) m Q" and s: "sane_at obs s" and run: "resetting rc m s = (r, s')"
  obtain q t where q: "m s = (q, t)" by fastforce
  note 1 = wellD [OF m s q]
  obtain x u where u: "reset_pipe rc t = (x, u)" by fastforce
  from wellD [OF well_reset _ u] 1 have "sane_at obs u" by simp
  with 1 run q u show "sane_at obs s' \<and> r \<noteq> Inl wrongtype \<and> (\<forall>x. r = Inr x \<longrightarrow> Q x)"
    by (cases q) (auto simp: resetting_def)
qed

lemma well_exec:
  assumes "\<forall>(k, t)\<in>set writes. plain_key k"
  shows "wellT (sane_at obs) (exec_writes rc cfg d actions writes)"
proof -
  have "cmd_ok (containment_tx cfg d actions writes)"
    using assms plain_ok plain_rule_keys(4) by (auto simp: containment_tx_def)
  from well_cmd [OF this] show ?thesis
    unfolding well_def exec_writes_def by (fastforce split: prod.splits sum.splits exn.splits)
qed

lemma load_actions_no_wrongtype: "load_actions v \<noteq> Inl wrongtype"
  by (auto simp: load_actions_def wrongtype_def split: option.splits json.splits)

lemma well_turn: "wellT (sane_at obs) (containment_turn rc cfg d)"
proof -
  have receipt: "wellT (sane_at obs) (\<lambda>s. (map_sum id Some (load_actions v), s))" for v
    using load_actions_no_wrongtype [of v] by (cases "load_actions v") (simp_all add: well_def)
  have rest: "wellT (sane_at obs) (bindE (resetting rc (plan rc d cfg)) (\<lambda>(actions, writes).
        if actions = [] then bindE (resetting rc (rc UNWATCH)) (\<lambda>_. ret (Some []))
        else exec_writes rc cfg d actions writes))"
    by (rule well_bindQ [OF well_resetting [OF well_plan]])
      (auto intro!: well_intros well_resetting well_cmd well_exec)
  have "text_key (receipt_key d)" using plain_ok [of "receipt_key d"] by simp
  then show ?thesis
    unfolding containment_turn_def
    by (intro well_intros well_resetting well_cmd) (auto split: reply.splits intro: rest receipt well_bind [OF well_reset])
qed

lemma well_apply: "wellT (sane_at obs) (apply_containment rc cfg n d)"
proof (induction n)
  case (Suc n)
  then show ?case by (auto split: option.splits intro!: well_intros well_turn)
qed (simp add: well_ret)

text \<open>Listing the rules reads what SCAN found under the prefixes of the rules, which are texts.\<close>

lemma well_group:
  assumes "g \<in> set RULE_GROUPS"
  shows "wellT (sane_at obs) (list_group rc g)"
proof -
  obtain name pfx sf where g: "g = (name, pfx, sf)" by (cases g)
  with assms have texts: "text_key k" if "prefix pfx k" for k
    using rule_group_text that by blast
  show ?thesis
    unfolding list_group_def Let_def g prod.case
    by (rule well_bindQ [OF well_reply]) (use texts in \<open>auto intro!: well_intros well_pipe well_cmd\<close>)
qed

lemma well_list_rules: "wellT (sane_at obs) (list_rules rc)"
  unfolding list_rules_def by (intro well_intros well_mapE well_group)

end

subsection \<open>Services\<close>

text \<open>Error replies come from Redis only: not from the validators, nor from the producer.\<close>

definition tame_detector :: "('r, 'p) DetectionPipeline \<Rightarrow> bool" where
  "tame_detector P \<longleftrightarrow> (\<forall>v. dp_validate_tx P v \<noteq> Inl wrongtype \<and> dp_validate_auth P v \<noteq> Inl wrongtype) \<and>
     (\<forall>d p. fst (dp_emit P d p) \<noteq> Inl wrongtype) \<and>
     (\<forall>f v p. dp_emit_audit P = Some f \<longrightarrow> fst (f v p) \<noteq> Inl wrongtype)"

definition tame_container :: "('r, 'p) ContainmentPipeline \<Rightarrow> (json \<Rightarrow> exn + DetectionEvent) \<Rightarrow> bool" where
  "tame_container C model_validate \<longleftrightarrow> (\<forall>v. model_validate v \<noteq> Inl wrongtype) \<and>
     (\<forall>v p. fst (cp_emit_audit C v p) \<noteq> Inl wrongtype)"

lemma map_sum_Inl_iff: "map_sum id f x = Inl e \<longleftrightarrow> x = Inl e"
  by (cases x) simp_all

lemma parse_records_tame: "tame_detector P \<Longrightarrow> parse_records P i rs \<noteq> Inl wrongtype"
proof (induction rs arbitrary: i)
  case (Cons rec rs)
  have "parse_record P i rec \<noteq> Inl wrongtype"
    using Cons.prems by (auto simp: parse_record_def tame_detector_def map_sum_Inl_iff split: prod.splits)
  with Cons show ?case by (auto simp: map_sum_Inl_iff split: sum.splits exn.splits)
qed simp

lemma decided_no_wrongtype: "detections_from_decision tx raw \<noteq> Inl wrongtype"
proof -
  have reasons: "reason_detections tx v rs \<noteq> Inl wrongtype" for v rs
  proof (induction rs)
    case (Cons r rs)
    then show ?case
      by (cases r) (auto simp: wrongtype_def split: option.splits json.splits sum.splits)
  qed simp
  then show ?thesis
    by (auto simp: detections_from_decision_def iter_json_def wrongtype_def
        split: reply.splits option.splits json.splits sum.splits)
qed

lemma interpret_well: "wellT (on_server I) (interpret_item P it)"
  unfolding interpret_item_def Let_def
  by (cases "it_event it"; cases "it_result it")
    (auto simp: wrongtype_def geo_interpret_def split: check_result.splits sum.splits option.splits if_splits intro!: well_intros)

lemma decided_well: "wellT (on_server I) (decided_item P x)"
  unfolding decided_item_def
  by (auto simp: decided_no_wrongtype wrongtype_def split: event.splits sum.splits intro!: well_intros)
    (metis decided_no_wrongtype wrongtype_def)

context typed_redis
begin

lemma well_run_batch:
  assumes P: "dp_redis P = rc" and t: "tame_detector P"
  shows "wellT (on_server (sane_at obs)) (run_batch P items)"
proof -
  have emits: "wellT (on_server (sane_at obs)) (on_out (dp_emit P d))" for d
    using t by (intro well_on_out) (simp add: tame_detector_def)
  have audits: "wellT (on_server (sane_at obs)) (blocked P it)" for it
    unfolding blocked_def using t by (auto simp: tame_detector_def split: option.splits intro!: well_intros)
  have enforce: "wellT (on_server (sane_at obs)) (enforce P items)"
    unfolding enforce_def Let_def P by (intro well_intros well_pipe well_forE audits) (auto intro!: well_cmd)
  have check: "wellT (on_server (sane_at obs)) (check P items)" for items
    unfolding check_def Let_def by (intro well_intros well_pipe) (auto intro: well_queue_check [OF P])
  have decide: "wellT (on_server (sane_at obs)) (decide P items)" for items
    unfolding decide_def P by (intro well_intros well_pipe well_mapE decided_well) (auto intro!: well_cmd)
  show ?thesis
    unfolding run_batch_def Let_def P
    by (intro well_intros enforce check well_mapE interpret_well decide well_cooled well_forE emits)
qed

lemma well_handle_batch:
  assumes "dp_redis P = rc" and "tame_detector P"
  shows "wellT (on_server (sane_at obs)) (handle_batch P records)"
  using parse_records_tame [OF assms(2), of 0 records] well_run_batch [OF assms]
  unfolding handle_batch_def by (auto split: sum.splits intro!: well_intros)

lemma well_detection:
  assumes C: "cp_redis C = rc" and t: "tame_container C model_validate"
  shows "wellT (on_server (sane_at obs)) (containment_handle_record C model_validate fuel value)"
proof -
  have "fst (cp_emit_audit C v p) \<noteq> Inl wrongtype" for v p
    using t by (simp add: tame_container_def)
  then have "wellT (on_server (sane_at obs)) (handle_detection C fuel d)" for d
    unfolding handle_detection_def C by (auto split: option.splits intro!: well_intros well_apply)
  then show ?thesis
    using t unfolding containment_handle_record_def tame_container_def
    by (auto split: sum.splits intro!: well_intros)
qed

lemma well_serve:
  assumes A: "api_redis A = rc"
  shows "wellT (on_server (sane_at obs)) (serve A creds client req)"
proof -
  have read: "wellT (on_server (sane_at obs)) (require_read A creds)"
    unfolding require_read_def compare_digest_def
    by (auto simp: wrongtype_def split: option.splits sum.splits intro!: well_intros)
  have writes: "wellT (on_server (sane_at obs)) (require_write A creds)"
    unfolding require_write_def by (intro well_intros read) (simp add: wrongtype_def)
  have ttl: "wellT (on_server (sane_at obs)) (query_ttl b t)" for b t
    unfolding query_ttl_def by (auto simp: wrongtype_def split: option.splits intro!: well_intros)
  have aud: "wellT (on_server (sane_at obs)) (audit A client action kws)" for action kws
    unfolding audit_def well_def by (auto split: sum.splits option.splits prod.splits)
  have set: "wellT (on_server (sane_at obs)) (on_redis (rc (SET_EX k v t)))" if "plain_key k" for k v t
    using plain_ok [OF that] by (intro well_intros well_cmd) simp
  have del: "wellT (on_server (sane_at obs)) (on_redis (rc (DEL keys)))" for keys
    by (intro well_intros well_cmd) simp
  have ping: "wellT (on_server (sane_at obs)) (health A)"
    using well_on_redis [OF well_cmd [of PING]] unfolding health_def A well_def
    by (auto simp: wrongtype_def split: prod.splits sum.splits)
  note routes = get_rules_def add_quarantine_def lift_quarantine_def clear_step_up_def add_ip_block_def lift_ip_block_def
  show ?thesis
    by (cases req; simp only: serve.simps routes root_route_def A Let_def)
      (intro well_intros read writes ttl aud set del ping well_list_rules plain_rule_keys; simp add: wrongtype_def)+
qed

end

end
