(* ===== verification/Handover.thy ===== *)
theory Handover
  imports DecisionRun "HOL-Library.Multiset"
begin

text \<open>
  A transaction the decision service scored comes through Kafka later. The detection engine then emits
  the very detections it would have emitted had nobody asked before, and leaves the same state behind.
\<close>

subsection \<open>The same transaction, the same settings\<close>

definition same_config :: "DecisionConfig \<Rightarrow> RedisConfig \<Rightarrow> bool" where
  "same_config g cfg \<longleftrightarrow>
     dc_ReplayTTL g = replay_ttl_hours cfg * go_hour \<and> dc_BurstWindow g = burst_window_seconds cfg * go_second \<and>
     dc_BurstThreshold g = burst_threshold cfg \<and> dc_BurstKeyTTL g = burst_key_ttl_seconds cfg * go_second \<and>
     dc_SessionTTL g = session_ttl_days cfg * 24 * go_hour \<and> dc_MaxVelocityKmh g = geo_max_velocity_kmh cfg"

definition same_transaction :: "'r Engine \<Rightarrow> Transaction \<Rightarrow> TransactionEvent \<Rightarrow> bool" where
  "same_transaction E tx t \<longleftrightarrow>
     gx_EventID tx = tx_event_id t \<and> gx_UserID tx = tx_user_id t \<and> gx_Amount tx = tx_amount t \<and>
     gx_Merchant tx = tx_merchant t \<and> gx_Location tx = tx_location t \<and> gx_Latitude tx = tx_latitude t \<and>
     gx_Longitude tx = tx_longitude t \<and> pythonISOFormat (tx_time E tx) = isoformat (tx_timestamp t) \<and>
     of_int (gt_unix_nano (tx_time E tx)) / 10 ^ 9 = timestamp (tx_timestamp t)"

definition mirrors :: "'s Engine \<Rightarrow> ('r, 'p) DetectionPipeline \<Rightarrow> bool" where
  "mirrors E P \<longleftrightarrow> eng_sha256 E = dp_sha256 P \<and> same_config (eng_cfg E) (dp_redis_config P) \<and> 0 < dc_ResultTTL (eng_cfg E)"

abbreviation decision_ref :: "TransactionEvent \<Rightarrow> string" where
  "decision_ref t \<equiv> DECISION_REF_PREFIX @ tx_event_id t"

lemma seconds_whole: "seconds (n * go_second) = of_int n" "go_int (of_int n) = n"
  by (simp_all add: seconds_def go_second_def go_int_def)

lemma same_keys: "mirrors E P \<Longrightarrow> same_transaction E tx t \<Longrightarrow> decide_keys E tx = tx_check_keys P t"
  by (simp add: mirrors_def same_transaction_def decide_keys_def tx_check_keys_def ReplayHash_def replay_text_def
      replay_key_def replay_hash_def replay_payload_def burst_key_def session_key_def)

lemma same_args:
  assumes "mirrors E P" and "same_transaction E tx t"
  shows "decide_args E tx = tx_check_args P t (decision_ref t)"
proof -
  let ?cfg = "dp_redis_config P"
  have h: "seconds (replay_ttl_hours ?cfg * go_hour) = of_int (replay_ttl_hours ?cfg * 3600)"
    "seconds (session_ttl_days ?cfg * 24 * go_hour) = of_int (session_ttl_days ?cfg * 86400)"
    using seconds_whole(1) [of "replay_ttl_hours ?cfg * 3600"] seconds_whole(1) [of "session_ttl_days ?cfg * 86400"]
    by (simp_all add: go_hour_def mult.assoc)
  show ?thesis
    using assms
    by (simp add: mirrors_def same_config_def same_transaction_def decide_args_def tx_check_args_def Let_def
        seconds_whole h MIN_TIME_SECONDS_def minTimeSeconds_def DECISION_REF_PREFIX_def del: of_int_mult)
qed

lemma mirrors_ok: "mirrors E P \<Longrightarrow> config_ok (dp_redis_config P) \<Longrightarrow> engine_ok (eng_cfg E)"
  by (simp add: mirrors_def same_config_def config_ok_def engine_ok_def go_hour_def go_second_def)

subsection \<open>Detections of one transaction\<close>

text \<open>What two detections have in common when they say the same: everything but time and evidence.\<close>

definition gist :: "DetectionEvent \<Rightarrow> string \<times> string \<times> string \<times> string \<times> string \<times> string option" where
  "gist d = (detection_id d, detection_type d, severity d, de_user_id d, transaction_id d, de_ip_address d)"

definition type_id :: "('r, 'p) DetectionPipeline \<Rightarrow> string \<Rightarrow> string \<Rightarrow> string" where
  "type_id P ref ty = stable_detection_id (dp_uuid5 P) (case map_of ID_PREFIX ty of None \<Rightarrow> ''det'' | Some p \<Rightarrow> p) ref ty []"

definition type_gist :: "('r, 'p) DetectionPipeline \<Rightarrow> TransactionEvent \<Rightarrow> string \<Rightarrow> string \<Rightarrow>
    string \<times> string \<times> string \<times> string \<times> string \<times> string option" where
  "type_gist P t ref ty = (type_id P ref ty, ty, ''high'', tx_user_id t, tx_event_id t, None)"

definition type_key :: "TransactionEvent \<Rightarrow> string \<Rightarrow> string" where
  "type_key t ty = COOLDOWN_KEY_PREFIX @ ty @ '':'' @ ''user:'' @ tx_user_id t"

definition about :: "TransactionEvent \<Rightarrow> DetectionEvent \<Rightarrow> bool" where
  "about t d \<longleftrightarrow> severity d = ''high'' \<and> de_user_id d = tx_user_id t \<and> transaction_id d = tx_event_id t \<and>
     de_ip_address d = None \<and> dict_get (details d) ''scope'' = None"

lemma about_assigned:
  assumes "about t d"
  shows "gist (assign_stable_id P ref d) = type_gist P t ref (detection_type d)"
    and "cooldown_key (assign_stable_id P ref d) = type_key t (detection_type d)"
    and "detection_id (assign_stable_id P ref d) = type_id P ref (detection_type d)"
  using assms
  by (simp_all add: about_def gist_def type_gist_def type_id_def assign_stable_id_def Let_def dict_get_default_def
      cooldown_key_def cooldown_subject_def type_key_def)

lemma type_key_inj: "type_key t ty = type_key t ty' \<longleftrightarrow> ty = ty'"
  by (simp add: type_key_def)

lemma winners_filter:
  "distinct (map cooldown_key ds) \<Longrightarrow> winners taken ds = filter (\<lambda>d. \<not> taken (cooldown_key d)) ds"
proof (induction taken ds rule: winners.induct)
  case (2 taken d ds)
  have "cooldown_key x \<noteq> cooldown_key d" if "x \<in> set ds" for x
    using "2.prems" that by (metis distinct.simps(2) image_eqI list.simps(9) set_map)
  then have "filter (\<lambda>x. \<not> (taken(cooldown_key d := True)) (cooldown_key x)) ds = filter (\<lambda>x. \<not> taken (cooldown_key x)) ds"
    by (intro filter_cong) auto
  with 2 show ?case by (cases "taken (cooldown_key d)") (simp_all del: fun_upd_apply)
qed simp

text \<open>The outcome of a record is fixed by the types of its candidates and the state the check left.\<close>

lemma outcome_by_types:
  assumes active: "\<not> live m (quarantine_key (tx_user_id t))"
    and it: "it = new_item i (Tx t) ref"
    and ds: "(case cands_of P (Tx t) (fst (check_one P m it)) of Some ds \<Rightarrow> ds | None \<Rightarrow> decided_of m (Tx t)) = ds"
    and ab: "\<forall>d\<in>set ds. about t d" and dis: "distinct (map detection_type ds)"
  defines "free \<equiv> \<lambda>ty. \<not> live m (type_key t ty)"
  shows "map gist (fst (batch_outcome P m [it])) = map (type_gist P t ref) (filter free (map detection_type ds))"
    and "ty \<in> set (map detection_type ds) \<Longrightarrow> free ty \<Longrightarrow> fmlookup (snd (batch_outcome P m [it])) (type_key t ty) =
      Some (mk_entry (RStr (type_id P ref ty)) (Some (detection_cooldown_seconds (dp_redis_config P))))"
    and "k \<notin> type_key t ` {ty \<in> set (map detection_type ds). free ty} \<Longrightarrow>
      fmlookup (snd (batch_outcome P m [it])) k = fmlookup (snd (check_one P m it)) k"
proof -
  let ?m1 = "snd (check_one P m it)"
  let ?cs = "map (assign_stable_id P ref) ds"
  let ?ttl = "detection_cooldown_seconds (dp_redis_config P)"
  have as: "\<forall>d\<in>set ds. gist (assign_stable_id P ref d) = type_gist P t ref (detection_type d)"
    "\<forall>d\<in>set ds. cooldown_key (assign_stable_id P ref d) = type_key t (detection_type d)"
    using ab by (simp_all add: about_assigned(1,2))
  have act: "active_items m [it] = [it]" using active by (simp add: active_items_def it)
  have cs: "batch_candidates P m [it] = ?cs"
    unfolding batch_candidates_def act ds [symmetric]
    by (simp add: it item_candidates_def split_beta cong: option.case_cong)
  have keys: "map cooldown_key ?cs = map (type_key t) (map detection_type ds)"
    using as(2) by simp
  have "distinct (map cooldown_key ?cs)"
    unfolding keys distinct_map [of "type_key t"] using dis type_key_inj by (auto simp: inj_on_def)
  then have "winners (live ?m1) ?cs = filter (\<lambda>d. \<not> live ?m1 (cooldown_key d)) ?cs" by (rule winners_filter)
  also have "\<dots> = filter (\<lambda>d. \<not> live m (cooldown_key d)) ?cs"
    by (intro filter_cong) (simp_all add: check_one_frame)
  also have "\<dots> = map (assign_stable_id P ref) (filter (\<lambda>d. free (detection_type d)) ds)"
    using as(2) by (simp add: filter_map o_def free_def cong: filter_cong)
  finally have ws: "winners (live ?m1) ?cs = map (assign_stable_id P ref) (filter (\<lambda>d. free (detection_type d)) ds)" .
  have out: "batch_outcome P m [it] = (let w = winners (live ?m1) ?cs in (w, claim ?ttl w ?m1))"
    by (simp add: batch_outcome_def cs act Let_def split_beta)
  show "map gist (fst (batch_outcome P m [it])) = map (type_gist P t ref) (filter free (map detection_type ds))"
    unfolding out ws Let_def fst_conv using as(1) by (simp add: filter_map o_def)
  let ?ws = "map (assign_stable_id P ref) (filter (\<lambda>d. free (detection_type d)) ds)"
  have look: "fmlookup (snd (batch_outcome P m [it])) k =
     (if k \<in> cooldown_key ` set ?ws
      then Some (mk_entry (RStr (detection_id (last (filter (\<lambda>d. cooldown_key d = k) ?ws)))) (Some ?ttl))
      else fmlookup ?m1 k)" for k
    unfolding out ws Let_def snd_conv by (rule claim_lookup)
  have set: "cooldown_key ` set ?ws = type_key t ` {ty \<in> set (map detection_type ds). free ty}"
    using as(2) by (force simp: image_iff)
  show "fmlookup (snd (batch_outcome P m [it])) k = fmlookup ?m1 k"
    if "k \<notin> type_key t ` {ty \<in> set (map detection_type ds). free ty}"
    using look [of k] that unfolding set by simp
  show "fmlookup (snd (batch_outcome P m [it])) (type_key t ty) = Some (mk_entry (RStr (type_id P ref ty)) (Some ?ttl))"
    if ty: "ty \<in> set (map detection_type ds)" "free ty"
  proof -
    let ?f = "filter (\<lambda>d. cooldown_key d = type_key t ty) ?ws"
    have mem: "type_key t ty \<in> cooldown_key ` set ?ws" unfolding set using ty by blast
    then have "?f \<noteq> []" by (auto simp: filter_empty_conv)
    then have "last ?f \<in> set ?f" by (rule last_in_set)
    then obtain d where d: "last ?f = assign_stable_id P ref d" "d \<in> set ds" "cooldown_key (last ?f) = type_key t ty"
      by auto
    then have "detection_type d = ty" using about_assigned(2) [of t d P ref] ab type_key_inj by metis
    with d about_assigned(3) [of t d P ref] ab have "detection_id (last ?f) = type_id P ref ty" by simp
    with look [of "type_key t ty"] mem show ?thesis by simp
  qed
qed

subsection \<open>The candidates, asked or not\<close>

definition check_types :: "RedisConfig \<Rightarrow> tx_result \<Rightarrow> string list" where
  "check_types cfg res =
     (if replay_status res = ''replay'' then [''replay_attack''] else []) @
     (if geo_status res = ''anomaly'' then [''geo_velocity_anomaly''] else []) @
     (if burst_threshold cfg < burst_count res then [''fraud_burst''] else [])"

lemma check_types_distinct: "distinct (check_types cfg res)"
  by (simp add: check_types_def)

lemma scored_candidates:
  assumes "fits_event (Tx t) (TxResult res)" and "replay_status res \<noteq> ''prescored''"
  shows "\<exists>ds. cands_of P (Tx t) (TxResult res) = Some ds \<and> (\<forall>d\<in>set ds. about t d) \<and>
    map detection_type ds = check_types (dp_redis_config P) res"
  using assms
  by (cases "geo_status res = ''anomaly''")
    (auto simp: replay_interpret_def geo_interpret_def burst_interpret_def check_types_def about_def dict_get_def not_le)

lemma reason_types: "same_config g cfg \<Longrightarrow> mset (map rs_Type (reasons_of g tx res)) = mset (check_types cfg res)"
  by (simp add: reasons_of_def check_types_def same_config_def)

lemma reasons_known: "r \<in> set (reasons_of g tx res) \<Longrightarrow> rs_Type r \<in> set decision_types"
  by (auto simp: reasons_of_def decision_types_def split: if_splits)

lemma reasons_about: "r \<in> set (reasons_of g tx res) \<Longrightarrow> about t (reason_detection t v r)"
  by (auto simp: reasons_of_def about_def reason_detection_def dict_get_def split: if_splits)

lemma scored_sel [simp]: "dn_Reasons (scored E tx res) = reasons_of (eng_cfg E) tx res"
  by (simp add: scored_def Let_def)

lemma stored_candidates:
  assumes "fmlookup m (decision_key (Tx t)) = Some (mk_entry (RStr (marshal_decision (scored E tx res))) ttl)"
  shows "decided_of m (Tx t) = map (reason_detection t (dn_Verdict (scored E tx res))) (reasons_of (eng_cfg E) tx res)"
proof -
  have "filter (\<lambda>r. rs_Type r \<in> set decision_types) (reasons_of (eng_cfg E) tx res) = reasons_of (eng_cfg E) tx res"
    using reasons_known by (simp add: filter_id_conv)
  with assms show ?thesis
    by (simp add: decision_reply_def python_reads_decision del: decision_key.simps)
qed

subsection \<open>The check after a decision\<close>

text \<open>The reference a delivery carries decides the replay status and nothing else.\<close>

lemma args_ref_sel [simp]:
  "a_record_ref (tx_check_args P t r) = r" "a_event_id (tx_check_args P t r) = tx_event_id t"
  "a_replay_ttl_s (tx_check_args P t r) = replay_ttl_hours (dp_redis_config P) * 3600"
  by (simp_all add: tx_check_args_def Let_def)

lemma args_ref:
  "a_now_ts (tx_check_args P t r) = a_now_ts (tx_check_args P t [])"
  "a_burst_cutoff (tx_check_args P t r) = a_burst_cutoff (tx_check_args P t [])"
  "a_burst_key_ttl_s (tx_check_args P t r) = a_burst_key_ttl_s (tx_check_args P t [])"
  "a_session_ttl_s (tx_check_args P t r) = a_session_ttl_s (tx_check_args P t [])"
  "geo_of m k (tx_check_args P t r) = geo_of m k (tx_check_args P t [])"
  "session_after (tx_check_args P t r) h = session_after (tx_check_args P t []) h"
  unfolding geo_of_def geo_check_def tx_check_args_def session_after_def Let_def tx_args.simps
  by (rule refl)+

definition seen_as :: "keyspace \<Rightarrow> string \<Rightarrow> string option" where
  "seen_as m k = (if live m k then Some (rule_value m k) else None)"

lemma seen_as_cong: "fmlookup m' k = fmlookup m k \<Longrightarrow> seen_as m' k = seen_as m k"
  by (simp add: seen_as_def rule_value_def)

lemma replay_outcome_seen:
  "replay_outcome m k a =
     (case seen_as m k of None \<Rightarrow> (''first'', a_record_ref a)
      | Some v \<Rightarrow> (replay_status_of v (a_record_ref a) (a_event_id a), v))"
  by (simp add: replay_outcome_def seen_as_def Let_def split: option.splits)

text \<open>A first sighting: the two deliveries leave the same state but for the reference they leave behind.\<close>

lemma first_state:
  assumes "seen_as m (replay_key (dp_sha256 P) t) = None" and "k \<noteq> replay_key (dp_sha256 P) t"
  shows "fmlookup (tx_state m (tx_check_keys P t) (tx_check_args P t r)) k =
    fmlookup (tx_state m (tx_check_keys P t) (tx_check_args P t r')) k"
proof -
  have key: "k_replay (tx_check_keys P t) = replay_key (dp_sha256 P) t" by (simp add: tx_check_keys_def)
  show ?thesis
    using assms
    unfolding tx_state_def burst_state_def replay_state_def key replay_outcome_seen args_ref_sel
      args_ref [where r = r] args_ref [where r = r']
    by (simp add: seen_as_def split: if_splits)
qed

lemma outcome_ref:
  assumes "fst (replay_outcome m (k_replay k) (tx_check_args P t r)) \<noteq> ''prescored''"
  shows "replay_status (tx_outcome m k (tx_check_args P t r)) = fst (replay_outcome m (k_replay k) (tx_check_args P t r))"
    and "burst_count (tx_outcome m k (tx_check_args P t r)) =
      int (fcard (fmdom (window_after m (k_burst k) (a_burst_cutoff (tx_check_args P t [])) (a_now_ts (tx_check_args P t [])) (tx_event_id t))))"
    and "geo_status (tx_outcome m k (tx_check_args P t r)) = fst (geo_of m k (tx_check_args P t []))"
  using assms unfolding tx_outcome_def args_ref [where r = r]
  by (auto simp: split_beta Let_def)

lemma prescored_check:
  assumes "seen_as m (replay_key (dp_sha256 P) t) = Some (decision_ref t)" and "r \<noteq> decision_ref t"
  shows "check_one P m (new_item i (Tx t) r) = (TxResult (prescored_result (decision_ref t)), m)"
proof -
  have "replay_outcome m (k_replay (tx_check_keys P t)) (tx_check_args P t r) = (''prescored'', decision_ref t)"
    using assms by (simp add: replay_outcome_seen tx_check_keys_def replay_status_of_def)
  then show ?thesis by (simp add: check_one_def tx_outcome_def tx_state_def)
qed

subsection \<open>The handover\<close>

lemma result_key_same: "same_transaction E tx t \<Longrightarrow> result_key tx = decision_key (Tx t)"
  by (simp add: same_transaction_def result_key_def DECISION_RESULT_PREFIX_def)

text \<open>A decision on a transaction that was not decided before scores it and stores the score.\<close>

lemma decide_scores:
  assumes mir: "mirrors E P" and tx: "same_transaction E tx t" and rule: "rule_on m tx = None"
    and new: "seen_as m (replay_key (dp_sha256 P) t) \<noteq> Some (decision_ref t)"
  shows "decide_outcome E m tx =
    (scored E tx (tx_outcome m (tx_check_keys P t) (tx_check_args P t (decision_ref t))),
     fmupd (decision_key (Tx t))
       (mk_entry (RStr (marshal_decision (scored E tx (tx_outcome m (tx_check_keys P t) (tx_check_args P t (decision_ref t))))))
                 (Some (result_ttl (eng_cfg E))))
       (tx_state m (tx_check_keys P t) (tx_check_args P t (decision_ref t))))"
    and "replay_status (tx_outcome m (tx_check_keys P t) (tx_check_args P t (decision_ref t))) =
      (if seen_as m (replay_key (dp_sha256 P) t) = None then ''first'' else ''replay'')"
proof -
  have key: "k_replay (tx_check_keys P t) = replay_key (dp_sha256 P) t" by (simp add: tx_check_keys_def)
  have out: "fst (replay_outcome m (k_replay (tx_check_keys P t)) (tx_check_args P t (decision_ref t))) =
      (if seen_as m (replay_key (dp_sha256 P) t) = None then ''first'' else ''replay'')"
    using new unfolding replay_outcome_seen args_ref_sel key by (auto simp: replay_status_of_def split: option.splits)
  then show st: "replay_status (tx_outcome m (tx_check_keys P t) (tx_check_args P t (decision_ref t))) =
      (if seen_as m (replay_key (dp_sha256 P) t) = None then ''first'' else ''replay'')"
    using outcome_ref(1) [of m "tx_check_keys P t" P t "decision_ref t"] by simp
  then have "replay_status (tx_outcome m (tx_check_keys P t) (tx_check_args P t (decision_ref t))) \<noteq> ''redelivery''" by simp
  then show "decide_outcome E m tx = (scored E tx (tx_outcome m (tx_check_keys P t) (tx_check_args P t (decision_ref t))),
     fmupd (decision_key (Tx t))
       (mk_entry (RStr (marshal_decision (scored E tx (tx_outcome m (tx_check_keys P t) (tx_check_args P t (decision_ref t))))))
                 (Some (result_ttl (eng_cfg E))))
       (tx_state m (tx_check_keys P t) (tx_check_args P t (decision_ref t))))"
    unfolding decide_outcome_def rule option.case same_keys [OF mir tx] same_args [OF mir tx] Let_def store_result_def
      result_key_same [OF tx]
    by (simp del: decision_key.simps)
qed

text \<open>Both ways, the candidates have the same types and the check leaves the same state.\<close>

definition candidates_at :: "('r, 'p) DetectionPipeline \<Rightarrow> keyspace \<Rightarrow> TransactionEvent \<Rightarrow> string \<Rightarrow> DetectionEvent list" where
  "candidates_at P m t r =
     (case cands_of P (Tx t) (fst (check_one P m (new_item 0 (Tx t) r))) of Some ds \<Rightarrow> ds | None \<Rightarrow> decided_of m (Tx t))"

lemma check_item: "check_one P m (new_item i (Tx t) r) =
    (TxResult (tx_outcome m (tx_check_keys P t) (tx_check_args P t r)), tx_state m (tx_check_keys P t) (tx_check_args P t r))"
  by (simp add: check_one_def)

lemma candidates_unscored:
  assumes "seen_as m (replay_key (dp_sha256 P) t) \<noteq> Some (decision_ref t)"
  shows "(\<forall>d\<in>set (candidates_at P m t r). about t d) \<and>
    map detection_type (candidates_at P m t r) =
      check_types (dp_redis_config P) (tx_outcome m (tx_check_keys P t) (tx_check_args P t r))"
proof -
  let ?res = "tx_outcome m (tx_check_keys P t) (tx_check_args P t r)"
  have "fst (replay_outcome m (k_replay (tx_check_keys P t)) (tx_check_args P t r)) \<noteq> ''prescored''"
    using assms by (auto simp: replay_outcome_seen tx_check_keys_def replay_status_of_def split: option.splits)
  then have "replay_status ?res \<noteq> ''prescored''" using outcome_ref(1) by metis
  moreover have "fits_event (Tx t) (TxResult ?res)"
    using check_one_fits [of "new_item 0 (Tx t) r" P m] by (simp add: check_item)
  ultimately obtain ds where "cands_of P (Tx t) (TxResult ?res) = Some ds" "\<forall>d\<in>set ds. about t d"
    "map detection_type ds = check_types (dp_redis_config P) ?res"
    using scored_candidates by blast
  then show ?thesis by (simp add: candidates_at_def check_item del: cands_of.simps)
qed

lemma handover_first:
  assumes mir: "mirrors E P" and tx: "same_transaction E tx t" and rule: "rule_on m tx = None"
    and new: "seen_as m (replay_key (dp_sha256 P) t) = None" and ref: "r \<noteq> decision_ref t"
  defines "m2 \<equiv> snd (decide_outcome E m tx)"
  shows "(\<forall>d\<in>set (candidates_at P m2 t r). about t d) \<and>
      mset (map detection_type (candidates_at P m2 t r)) = mset (map detection_type (candidates_at P m t r))"
    and "k \<noteq> replay_key (dp_sha256 P) t \<Longrightarrow> k \<noteq> decision_key (Tx t) \<Longrightarrow>
      fmlookup (snd (check_one P m2 (new_item i (Tx t) r))) k = fmlookup (snd (check_one P m (new_item i (Tx t) r))) k"
proof -
  let ?K = "tx_check_keys P t"
  let ?a = "tx_check_args P t (decision_ref t)"
  let ?res = "tx_outcome m ?K ?a"
  have new': "seen_as m (replay_key (dp_sha256 P) t) \<noteq> Some (decision_ref t)" using new by simp
  have m2: "m2 = fmupd (decision_key (Tx t)) (mk_entry (RStr (marshal_decision (scored E tx ?res))) (Some (result_ttl (eng_cfg E))))
      (tx_state m ?K ?a)"
    using decide_scores(1) [OF mir tx rule new'] by (simp add: m2_def del: decision_key.simps)
  have key: "k_replay ?K = replay_key (dp_sha256 P) t" by (simp add: tx_check_keys_def)
  have ne: "replay_key (dp_sha256 P) t \<noteq> decision_key (Tx t)"
    by (simp add: replay_key_def DECISION_RESULT_PREFIX_def)
  have rs: "replay_status ?res = ''first''" using decide_scores(2) [OF mir tx rule new'] new by simp
  have out: "fst (replay_outcome m (k_replay ?K) (tx_check_args P t q)) = ''first''" for q
    using new by (simp add: replay_outcome_seen key)
  have "fmlookup (tx_state m ?K ?a) (replay_key (dp_sha256 P) t) =
      Some (mk_entry (RStr (decision_ref t)) (Some (a_replay_ttl_s ?a)))"
    using new out [of "decision_ref t"] unfolding tx_state_def burst_state_def replay_state_def key
    by (auto simp: tx_check_keys_def key_defs seen_as_def replay_key_def split: if_splits)
  then have "seen_as m2 (replay_key (dp_sha256 P) t) = Some (decision_ref t)"
    using ne by (simp add: m2 seen_as_def rule_value_def del: decision_key.simps)
  note pre = prescored_check [OF this ref]
  have dec: "decided_of m2 (Tx t) = map (reason_detection t (dn_Verdict (scored E tx ?res))) (reasons_of (eng_cfg E) tx ?res)"
    by (rule stored_candidates) (simp add: m2 del: decision_key.simps)
  have cand: "candidates_at P m2 t r = map (reason_detection t (dn_Verdict (scored E tx ?res))) (reasons_of (eng_cfg E) tx ?res)"
    unfolding candidates_at_def pre dec [symmetric] by (simp add: prescored_result_def)
  have same: "check_types (dp_redis_config P) (tx_outcome m ?K (tx_check_args P t r)) = check_types (dp_redis_config P) ?res"
    using outcome_ref [of m ?K P t r] outcome_ref [of m ?K P t "decision_ref t"] out
    by (simp add: check_types_def)
  have "mset (map rs_Type (reasons_of (eng_cfg E) tx ?res)) = mset (check_types (dp_redis_config P) ?res)"
    using mir by (intro reason_types) (simp add: mirrors_def)
  moreover have "map detection_type (candidates_at P m2 t r) = map rs_Type (reasons_of (eng_cfg E) tx ?res)"
    by (simp add: cand reason_detection_def)
  moreover have "map detection_type (candidates_at P m t r) = check_types (dp_redis_config P) ?res"
    using candidates_unscored [OF new', of r] unfolding same ..
  ultimately have types: "mset (map detection_type (candidates_at P m2 t r)) = mset (map detection_type (candidates_at P m t r))"
    by (simp only:)
  have "\<forall>d\<in>set (candidates_at P m2 t r). about t d" unfolding cand using reasons_about by auto
  with types show "(\<forall>d\<in>set (candidates_at P m2 t r). about t d) \<and>
      mset (map detection_type (candidates_at P m2 t r)) = mset (map detection_type (candidates_at P m t r))" by blast
  show "fmlookup (snd (check_one P m2 (new_item i (Tx t) r))) k = fmlookup (snd (check_one P m (new_item i (Tx t) r))) k"
    if "k \<noteq> replay_key (dp_sha256 P) t" "k \<noteq> decision_key (Tx t)"
    using first_state [OF new that(1), of "decision_ref t" r] that(2)
    unfolding pre snd_conv by (simp add: m2 check_item del: decision_key.simps)
qed

lemma handover_seen:
  assumes mir: "mirrors E P" and tx: "same_transaction E tx t" and rule: "rule_on m tx = None" and typed: "typed_ks m"
    and cfg: "config_ok (dp_redis_config P)"
    and seen: "seen_as m (replay_key (dp_sha256 P) t) = Some v" "v \<noteq> decision_ref t"
  defines "m2 \<equiv> snd (decide_outcome E m tx)"
  shows "(\<forall>d\<in>set (candidates_at P m2 t r). about t d) \<and>
      mset (map detection_type (candidates_at P m2 t r)) = mset (map detection_type (candidates_at P m t r))"
    and "k \<noteq> decision_key (Tx t) \<Longrightarrow>
      fmlookup (snd (check_one P m2 (new_item i (Tx t) r))) k = fmlookup (snd (check_one P m (new_item i (Tx t) r))) k"
proof -
  let ?K = "tx_check_keys P t"
  let ?a = "tx_check_args P t r"
  let ?it = "new_item i (Tx t) r"
  define m1 where "m1 = tx_state m ?K ?a"
  have new: "seen_as m (replay_key (dp_sha256 P) t) \<noteq> Some (decision_ref t)" using seen by simp
  have key: "k_replay ?K = replay_key (dp_sha256 P) t" by (simp add: tx_check_keys_def)
  have np: "fst (replay_outcome m (k_replay ?K) (tx_check_args P t q)) \<noteq> ''prescored''" for q
    using seen by (auto simp: replay_outcome_seen key replay_status_of_def)
  have nf: "fst (replay_outcome m (k_replay ?K) ?a) \<noteq> ''first''"
    using seen by (auto simp: replay_outcome_seen key replay_status_of_def)
  have live: "live m (k_replay ?K)" using seen by (auto simp: seen_as_def key split: if_splits)
  have "tx_state m ?K (tx_check_args P t (decision_ref t)) = m1"
    using np live unfolding m1_def tx_state_def burst_state_def replay_state_def args_ref_sel
      args_ref [where r = r] args_ref [where r = "decision_ref t"]
    by simp
  then obtain e where m2: "m2 = fmupd (decision_key (Tx t)) e m1"
    using decide_scores(1) [OF mir tx rule new] by (simp add: m2_def del: decision_key.simps)
  have put: "check_one P m2 (new_item j (Tx t) r) = (TxResult (tx_outcome m1 ?K ?a), fmupd (decision_key (Tx t)) e (tx_state m1 ?K ?a))" for j
    unfolding m2 check_one_put [OF plain_decision_key] by (simp add: check_item)
  note again = tx_again [OF good_keys_typed [OF tx_check_keys_good [of P t] typed] tx_args_ok [OF cfg, of t r], folded m1_def]
  have rs: "replay_status (tx_outcome m1 ?K ?a) = replay_status (tx_outcome m ?K ?a)"
    using again nf outcome_ref(1) [OF np [of r]] by simp
  have same: "check_types (dp_redis_config P) (tx_outcome m1 ?K ?a) = check_types (dp_redis_config P) (tx_outcome m ?K ?a)"
    using again rs by (simp add: check_types_def)
  have "seen_as m2 (replay_key (dp_sha256 P) t) = Some v"
  proof -
    have "replay_key (dp_sha256 P) t \<noteq> decision_key (Tx t)" by (simp add: replay_key_def DECISION_RESULT_PREFIX_def)
    moreover have "fmlookup m1 (k_replay ?K) = fmlookup m (k_replay ?K)"
      using tx_state_lookup(3) [OF good_keys_typed [OF tx_check_keys_good [of P t] typed] np [of r]] live
      by (auto simp: m1_def split: option.splits)
    ultimately have "fmlookup m2 (replay_key (dp_sha256 P) t) = fmlookup m (replay_key (dp_sha256 P) t)"
      unfolding key by (simp add: m2 del: decision_key.simps)
    from seen_as_cong [OF this] seen(1) show ?thesis by simp
  qed
  then have new2: "seen_as m2 (replay_key (dp_sha256 P) t) \<noteq> Some (decision_ref t)" using seen(2) by simp
  have eq: "tx_outcome m2 ?K ?a = tx_outcome m1 ?K ?a" using put [of 0] by (simp add: check_item)
  show "(\<forall>d\<in>set (candidates_at P m2 t r). about t d) \<and>
      mset (map detection_type (candidates_at P m2 t r)) = mset (map detection_type (candidates_at P m t r))"
    using candidates_unscored [OF new2, of r] candidates_unscored [OF new, of r] unfolding eq same by (simp del: mset_map)
  show "fmlookup (snd (check_one P m2 ?it)) k = fmlookup (snd (check_one P m ?it)) k" if "k \<noteq> decision_key (Tx t)"
    using that again unfolding put by (simp add: check_item m1_def del: decision_key.simps)
qed

lemma handover:
  fixes i :: nat
  assumes mir: "mirrors E P" and tx: "same_transaction E tx t" and rule: "rule_on m tx = None" and ok: "sound P m"
    and new: "seen_as m (replay_key (dp_sha256 P) t) \<noteq> Some (decision_ref t)" and ref: "r \<noteq> decision_ref t"
  defines "m2 \<equiv> snd (decide_outcome E m tx)" and "it \<equiv> new_item i (Tx t) r"
  shows "mset (map gist (fst (batch_outcome P m2 [it]))) = mset (map gist (fst (batch_outcome P m [it])))"
    and "k \<noteq> replay_key (dp_sha256 P) t \<Longrightarrow> k \<noteq> decision_key (Tx t) \<Longrightarrow>
      fmlookup (snd (batch_outcome P m2 [it])) k = fmlookup (snd (batch_outcome P m [it])) k"
proof -
  let ?A = "candidates_at P m2 t r"
  let ?B = "candidates_at P m t r"
  have typed: "typed_ks m" and cfg: "config_ok (dp_redis_config P)" using ok by (simp_all add: sound_def)
  have A: "(\<forall>d\<in>set ?A. about t d) \<and> mset (map detection_type ?A) = mset (map detection_type ?B)"
    and state: "\<And>k. k \<noteq> replay_key (dp_sha256 P) t \<Longrightarrow> k \<noteq> decision_key (Tx t) \<Longrightarrow>
      fmlookup (snd (check_one P m2 it)) k = fmlookup (snd (check_one P m it)) k"
  proof -
    show "(\<forall>d\<in>set ?A. about t d) \<and> mset (map detection_type ?A) = mset (map detection_type ?B)"
      using handover_first(1) [OF mir tx rule _ ref, folded m2_def]
        handover_seen(1) [OF mir tx rule typed cfg, folded m2_def] new
      by (cases "seen_as m (replay_key (dp_sha256 P) t)") (blast, metis)
    show "fmlookup (snd (check_one P m2 it)) k = fmlookup (snd (check_one P m it)) k"
      if "k \<noteq> replay_key (dp_sha256 P) t" "k \<noteq> decision_key (Tx t)" for k
      unfolding it_def
      using handover_first(2) [OF mir tx rule _ ref that, folded m2_def]
        handover_seen(2) [OF mir tx rule typed cfg _ _ that(2), folded m2_def] new
      by (cases "seen_as m (replay_key (dp_sha256 P) t)") (blast, metis)
  qed
  have B: "\<forall>d\<in>set ?B. about t d" "distinct (map detection_type ?B)"
    using candidates_unscored [OF new, of r] check_types_distinct by auto
  have disA: "distinct (map detection_type ?A)" using A B(2) mset_eq_imp_distinct_iff by blast
  have frame: "fmlookup m2 k = fmlookup m k" if "\<not> check_key k" "k \<noteq> decision_key (Tx t)" for k
    using decide_scores(1) [OF mir tx rule new] that
      check_one_frame [OF that(1), of P m "new_item 0 (Tx t) (decision_ref t)"]
    by (simp add: m2_def check_item del: decision_key.simps)
  have q: "\<not> live m (quarantine_key (tx_user_id t))"
    using rule tx by (auto simp: rule_on_def same_transaction_def split: if_splits)
  have "quarantine_key (tx_user_id t) \<noteq> decision_key (Tx t)"
    by (simp add: key_defs QUARANTINE_KEY_PREFIX_def DECISION_RESULT_PREFIX_def)
  then have q2: "\<not> live m2 (quarantine_key (tx_user_id t))"
    using q frame [of "quarantine_key (tx_user_id t)"] plain_enforcement_key [of "Tx t"] by simp
  have free: "live m2 (type_key t ty) = live m (type_key t ty)" for ty
    using frame [of "type_key t ty"]
    by (simp add: type_key_def check_key_def COOLDOWN_KEY_PREFIX_def DECISION_RESULT_PREFIX_def)
  have cA: "(case cands_of P (Tx t) (fst (check_one P m2 it)) of Some ds \<Rightarrow> ds | None \<Rightarrow> decided_of m2 (Tx t)) = ?A"
    and cB: "(case cands_of P (Tx t) (fst (check_one P m it)) of Some ds \<Rightarrow> ds | None \<Rightarrow> decided_of m (Tx t)) = ?B"
    by (simp_all only: candidates_at_def check_item it_def)
  note oA = outcome_by_types [OF q2 it_def [THEN meta_eq_to_obj_eq] cA conjunct1 [OF A] disA]
  note oB = outcome_by_types [OF q it_def [THEN meta_eq_to_obj_eq] cB B]
  let ?f = "\<lambda>ty. \<not> live m (type_key t ty)"
  have gA: "map gist (fst (batch_outcome P m2 [it])) = map (type_gist P t r) (filter ?f (map detection_type ?A))"
    using oA(1) unfolding free .
  have "mset (filter ?f (map detection_type ?A)) = mset (filter ?f (map detection_type ?B))"
    using A by (simp only: mset_filter)
  then show "mset (map gist (fst (batch_outcome P m2 [it]))) = mset (map gist (fst (batch_outcome P m [it])))"
    unfolding gA oB(1) by (simp only: mset_map)
  have set: "set (map detection_type ?A) = set (map detection_type ?B)" using A by (metis mset_eq_setD)
  show "fmlookup (snd (batch_outcome P m2 [it])) k = fmlookup (snd (batch_outcome P m [it])) k"
    if k: "k \<noteq> replay_key (dp_sha256 P) t" "k \<noteq> decision_key (Tx t)"
  proof (cases "k \<in> type_key t ` {ty \<in> set (map detection_type ?B). ?f ty}")
    case True
    then obtain ty where ty: "k = type_key t ty" "ty \<in> set (map detection_type ?B)" "?f ty" by blast
    then show ?thesis using oA(2) [of ty] oB(2) [of ty] set free by metis
  next
    case False
    then have "fmlookup (snd (batch_outcome P m2 [it])) k = fmlookup (snd (check_one P m2 it)) k"
      by (intro oA(3)) (simp only: set free not_False_eq_True)
    with oB(3) [OF False] state [OF k] show ?thesis by simp
  qed
qed

lemma decide_outcome_sound:
  assumes "mirrors E P" and "same_transaction E tx t" and "rule_on m tx = None" and ok: "sound P m"
    and "seen_as m (replay_key (dp_sha256 P) t) \<noteq> Some (decision_ref t)"
  shows "sound P (snd (decide_outcome E m tx))"
proof -
  let ?m1 = "tx_state m (tx_check_keys P t) (tx_check_args P t (decision_ref t))"
  have typed: "typed_ks ?m1" using ok by (intro tx_state_typed_ks tx_check_keys_good) (simp add: sound_def)
  have "fmlookup ?m1 (decision_key (Tx x)) = fmlookup m (decision_key (Tx x))" for x
    using check_one_frame [OF plain_decision_key, of P m "new_item 0 (Tx t) (decision_ref t)" "Tx x"] by (simp add: check_item)
  then have dec: "decisions_ok ?m1" using ok by (simp add: sound_def decisions_ok_def decision_reply_def del: decision_key.simps)
  have "decisions_ok (fmupd (decision_key (Tx t)) (mk_entry (RStr (marshal_decision d)) x) ?m1)" for d x
    unfolding decisions_ok_def
  proof
    fix y
    show "\<exists>ds. detections_from_decision y (decision_reply (fmupd (decision_key (Tx t)) (mk_entry (RStr (marshal_decision d)) x) ?m1) (decision_key (Tx y))) = Inr ds"
      using dec python_reads_decision [of y d]
      by (cases "decision_key (Tx y) = decision_key (Tx t)")
        (simp_all add: decisions_ok_def decision_reply_def del: decision_key.simps)
  qed
  moreover have "fits (decision_key (Tx t)) (RStr v)" for v
    by (simp add: zset_key_def hash_key_def DECISION_RESULT_PREFIX_def)
  ultimately show ?thesis
    using ok typed unfolding decide_scores(1) [OF assms(1-3,5)] snd_conv sound_def by (auto intro!: typed_ks_upd simp del: decision_key.simps fits.simps)
qed

text \<open>
  (C6) Asking the decision service first changes nothing about what the detection engine does with
  the record. Against one server that is up, for a transaction not decided before and on which no
  rule stands, with the settings of the two services in agreement: \<open>Engine.Decide\<close> succeeds, and the
  record that then arrives through Kafka makes the detection pipeline emit the detections it would
  have emitted had nobody asked (the same ids, types, severities, users and transactions, each as
  often) and leaves the same key space, the replay reference and the stored decision apart. It holds
  for a transaction seen for the first time, whose detections come from the stored decision, and for
  one whose fingerprint was seen before.
\<close>

theorem decided_then_delivered:
  assumes up: "redis_up rc obs" and E: "eng_rdb E = rc" and P: "dp_redis P = rc"
    and mir: "mirrors E P" and tx: "same_transaction E tx t" and nm: "named tx"
    and ok: "sound P (ks (obs (w_redis w)))" and rule: "rule_on (ks (obs (w_redis w))) tx = None"
    and new: "seen_as (ks (obs (w_redis w))) (replay_key (dp_sha256 P) t) \<noteq> Some (decision_ref t)"
    and ref: "r \<noteq> decision_ref t"
  shows "\<exists>d s1 b1 w1 b2 w2.
    Decide E tx (w_redis w) = (Inr d, s1) \<and>
    run_batch P [new_item i (Tx t) r] (w\<lparr>w_redis := s1\<rparr>) = (Inr b1, w1) \<and>
    run_batch P [new_item i (Tx t) r] w = (Inr b2, w2) \<and>
    mset (map gist (emitted b1)) = mset (map gist (emitted b2)) \<and>
    (\<forall>k. k \<noteq> replay_key (dp_sha256 P) t \<and> k \<noteq> decision_key (Tx t) \<longrightarrow>
       fmlookup (ks (obs (w_redis w1))) k = fmlookup (ks (obs (w_redis w2))) k)"
proof -
  let ?m = "ks (obs (w_redis w))"
  let ?m2 = "snd (decide_outcome E ?m tx)"
  let ?it = "new_item i (Tx t) r"
  have cfg: "config_ok (dp_redis_config P)" and typed: "typed_ks ?m" using ok by (simp_all add: sound_def)
  obtain s1 where D: "Decide E tx (w_redis w) = (Inr (fst (decide_outcome E ?m tx)), s1)" "ks (obs s1) = ?m2"
    using Decide_run [OF up E typed mirrors_ok [OF mir cfg] nm] by blast
  have ok2: "sound P ?m2" by (rule decide_outcome_sound [OF mir tx rule ok new])
  obtain w1 where w1: "run_batch P [?it] (w\<lparr>w_redis := s1\<rparr>) = (Inr \<lparr>emitted = fst (batch_outcome P ?m2 [?it]), br_failures = [],
      claimed_cooldown_keys = map cooldown_key (fst (batch_outcome P ?m2 [?it]))\<rparr>, w1)"
    "ks (obs (w_redis w1)) = snd (batch_outcome P ?m2 [?it])"
    using run_batch_run [OF up P _ ok2 prod.collapse [symmetric], of "w\<lparr>w_redis := s1\<rparr>" "[?it]"] D(2) by auto
  obtain w2 where w2: "run_batch P [?it] w = (Inr \<lparr>emitted = fst (batch_outcome P ?m [?it]), br_failures = [],
      claimed_cooldown_keys = map cooldown_key (fst (batch_outcome P ?m [?it]))\<rparr>, w2)"
    "ks (obs (w_redis w2)) = snd (batch_outcome P ?m [?it])"
    using run_batch_run [OF up P refl ok prod.collapse [symmetric], of "[?it]"] by auto
  note h = handover [OF mir tx rule ok new ref, where i = i]
  have "\<forall>k. k \<noteq> replay_key (dp_sha256 P) t \<and> k \<noteq> decision_key (Tx t) \<longrightarrow>
       fmlookup (ks (obs (w_redis w1))) k = fmlookup (ks (obs (w_redis w2))) k"
    unfolding w1(2) w2(2) using h(2) by blast
  with D(1) w1(1) w2(1) h(1) show ?thesis
    by (intro exI conjI) (assumption | simp only: BatchResult.select_convs)+
qed

subsection \<open>The traveller asks first\<close>

definition default_decision_config :: DecisionConfig where
  "default_decision_config = \<lparr>dc_ReplayTTL = 24 * go_hour, dc_BurstWindow = 60 * go_second, dc_BurstThreshold = 20,
     dc_BurstKeyTTL = 120 * go_second, dc_SessionTTL = 7 * 24 * go_hour, dc_MaxVelocityKmh = 900,
     dc_ResultTTL = 86400 * go_second, dc_DenyScore = 80, dc_ChallengeScore = 40\<rparr>"

definition sample_now :: go_time where
  "sample_now = \<lparr>gt_base = ''2026-01-01T00:00:00'', gt_nanosecond = 0, gt_offset = ''+00:00'', gt_unix_nano = 1767225600 * go_second\<rparr>"

definition sample_decider :: "conn Engine" where
  "sample_decider = \<lparr>eng_rdb = redis_step, eng_cfg = default_decision_config, eng_sha256 = (\<lambda>x. x), eng_uuid = ''0'',
     eng_arrival = sample_now, eng_now = sample_now\<rparr>"

definition far_request :: Transaction where
  "far_request = \<lparr>gx_EventID = ''far'', gx_UserID = ''user_1'', gx_Amount = 10, gx_Merchant = ''Amazon'',
     gx_Timestamp = Some \<lparr>gt_base = ''T01'', gt_nanosecond = 0, gt_offset = [], gt_unix_nano = 3600 * go_second\<rparr>,
     gx_Location = ''US-CA'', gx_Latitude = 0, gx_Longitude = 180, gx_IPAddress = ''10.0.0.1''\<rparr>"

lemma sample_decider_sel [simp]:
  "eng_rdb sample_decider = redis_step" "eng_cfg sample_decider = default_decision_config"
  "eng_sha256 sample_decider = (\<lambda>x. x)" "eng_uuid sample_decider = ''0''" "eng_arrival sample_decider = sample_now"
  "eng_now sample_decider = sample_now"
  by (simp_all add: sample_decider_def)

lemma far_same: "same_transaction sample_decider far_request far" "named far_request"
  by (simp_all add: same_transaction_def named_def far_request_def far_def sample_tx_def tx_time_def pythonISOFormat_def go_second_def)

lemma sample_mirrors: "mirrors sample_decider sample_detector"
  by (simp add: mirrors_def same_config_def default_decision_config_def sample_detector_def default_redis_config_def
      go_hour_def go_second_def)

lemma settled_free: "rule_on settled far_request = None"
  by (simp add: rule_on_def settled_def far_request_def key_defs QUARANTINE_KEY_PREFIX_def STEP_UP_KEY_PREFIX_def IP_BLOCK_KEY_PREFIX_def)

lemma settled_unseen: "seen_as settled (replay_key sha t) = None"
  by (simp add: seen_as_def settled_def replay_key_def)

theorem decided_then_delivered_witness:
  "\<exists>d s1 b1 w1 b2 w2.
    Decide sample_decider far_request (w_redis (world_with settled)) = (Inr d, s1) \<and>
    run_batch sample_detector [new_item 0 (Tx far) ''tx-events:0:1''] ((world_with settled)\<lparr>w_redis := s1\<rparr>) = (Inr b1, w1) \<and>
    run_batch sample_detector [new_item 0 (Tx far) ''tx-events:0:1''] (world_with settled) = (Inr b2, w2) \<and>
    mset (map gist (emitted b1)) = mset (map gist (emitted b2)) \<and>
    (\<forall>k. k \<noteq> replay_key (dp_sha256 sample_detector) far \<and> k \<noteq> decision_key (Tx far) \<longrightarrow>
       fmlookup (ks (w_redis w1)) k = fmlookup (ks (w_redis w2)) k)"
proof -
  have "''tx-events:0:1'' \<noteq> decision_ref far" by (simp add: DECISION_REF_PREFIX_def)
  with decided_then_delivered [OF mem.redis_up_axioms sample_decider_sel(1) sample_detector_redis sample_mirrors far_same,
      of "world_with settled"] settled_sound settled_free settled_unseen
  show ?thesis unfolding world_with_sel by (metis option.distinct(1))
qed

end
