(* ===== verification/Reachable.thy ===== *)
theory Reachable
  imports TypeSafety Handover
begin

text \<open>
  The services together as a transition system on the key space they share. A step is a batch of
  the detection engine, the release of its cooldowns, a detection handled by the containment engine,
  a request to the control API, a decision of the decision service (at any time, with any id), a
  well-typed command of another client, or the passing of time. The steps of a service include those in which its calls fail.
\<close>

subsection \<open>Steps\<close>

text \<open>Time passes: times to live go down, and a key that has one may expire.\<close>

fun older :: "entry option \<Rightarrow> entry option \<Rightarrow> bool" where
  "older None None = True"
| "older None (Some _) = False"
| "older (Some e) None = (e_ttl e \<noteq> None)"
| "older (Some e) (Some e') = (e_val e' = e_val e \<and>
     (case e_ttl e of
        None \<Rightarrow> e_ttl e' = None
      | Some t \<Rightarrow> (case e_ttl e' of None \<Rightarrow> False | Some t' \<Rightarrow> 0 < t' \<and> t' \<le> t)))"

definition elapses :: "keyspace \<Rightarrow> keyspace \<Rightarrow> bool" where
  "elapses m m' \<longleftrightarrow> (\<forall>k. older (fmlookup m k) (fmlookup m' k))"

record ('r, 'p, 'q, 'k) system =
  sys_obs :: "'r \<Rightarrow> conn"
  sys_detector :: "('r, 'p) DetectionPipeline"
  sys_container :: "('r, 'q) ContainmentPipeline"
  sys_validate :: "json \<Rightarrow> exn + DetectionEvent"
  sys_api :: "('r, 'k) api"
  sys_engine :: "'r Engine"

inductive system_step :: "('r, 'p, 'q, 'k) system \<Rightarrow> keyspace \<Rightarrow> keyspace \<Rightarrow> bool" for S where
  Detects: "handle_batch (sys_detector S) records w = (q, w') \<Longrightarrow>
    system_step S (ks (sys_obs S (w_redis w))) (ks (sys_obs S (w_redis w')))"
| Releases: "release_claims (sys_detector S) keys w = (q, w') \<Longrightarrow>
    system_step S (ks (sys_obs S (w_redis w))) (ks (sys_obs S (w_redis w')))"
| Contains: "containment_handle_record (sys_container S) (sys_validate S) fuel value w = (q, w') \<Longrightarrow>
    system_step S (ks (sys_obs S (w_redis w))) (ks (sys_obs S (w_redis w')))"
| Serves: "serve (sys_api S) creds client req w = (q, w') \<Longrightarrow>
    system_step S (ks (sys_obs S (w_redis w))) (ks (sys_obs S (w_redis w')))"
| Decides: "Decide ((sys_engine S)\<lparr>eng_arrival := arrival, eng_now := now, eng_uuid := uuid\<rparr>) tx s = (q, s') \<Longrightarrow>
    system_step S (ks (sys_obs S s)) (ks (sys_obs S s'))"
| Others: "cmd_ok c \<Longrightarrow> kv_step c m = (q, m') \<Longrightarrow> system_step S m m'"
| Elapses: "elapses m m' \<Longrightarrow> system_step S m m'"

inductive_cases system_stepE: "system_step S m m'"

text \<open>The services speak to one server, and only Redis raises error replies.\<close>

definition wired :: "'r redis \<Rightarrow> ('r, 'p, 'q, 'k) system \<Rightarrow> bool" where
  "wired rc S \<longleftrightarrow> dp_redis (sys_detector S) = rc \<and> cp_redis (sys_container S) = rc \<and> api_redis (sys_api S) = rc \<and>
     eng_rdb (sys_engine S) = rc \<and> 0 < dc_ResultTTL (eng_cfg (sys_engine S)) \<and>
     tame_detector (sys_detector S) \<and> tame_container (sys_container S) (sys_validate S)"

subsection \<open>Every reachable key space is sane\<close>

lemma older_mortal: "older (Some e) (Some e') \<Longrightarrow> mortal e \<Longrightarrow> mortal e'"
  by (auto simp: mortal_def split: rval.splits option.splits)

lemma elapses_sane:
  assumes "elapses m m'" and "sane_ks m"
  shows "sane_ks m'"
proof -
  have "sane k (e_val e') \<and> mortal e'" if e': "fmlookup m' k = Some e'" for k e'
  proof -
    from assms(1) e' have o: "older (fmlookup m k) (Some e')" by (metis elapses_def)
    then obtain e where e: "fmlookup m k = Some e" by (cases "fmlookup m k") auto
    with o older_mortal sane_lookup [OF assms(2) e] sane_mortal [OF assms(2) e] show ?thesis by auto
  qed
  then show ?thesis by (auto simp: sane_ks_def)
qed

context typed_redis
begin

lemma step_sane:
  assumes w: "wired rc S" and obs: "sys_obs S = obs"
  shows "system_step S m m' \<Longrightarrow> sane_ks m \<Longrightarrow> sane_ks m'"
proof (erule system_stepE, goal_cases)
  case (1 records v q v')
  with w obs wellD [OF well_handle_batch [of "sys_detector S" records] _ 1(4)] show ?case by (simp add: wired_def)
next
  case (2 keys v q v')
  have "wellT (on_server (sane_at obs)) (release_claims (sys_detector S) keys)"
    using w well_release by (auto simp: wired_def release_claims_def intro!: well_intros)
  from wellD [OF this _ 2(4)] 2 obs show ?case by simp
next
  case (3 fuel val v q v')
  with w obs wellD [OF well_detection [of "sys_container S" "sys_validate S" fuel val] _ 3(4)] show ?case by (simp add: wired_def)
next
  case (4 creds client req v q v')
  with w obs wellD [OF well_serve [of "sys_api S" creds client req] _ 4(4)] show ?case by (simp add: wired_def)
next
  case (5 uuid now arrival tx s q s')
  have "wellT (sane_at obs) (Decide ((sys_engine S)\<lparr>eng_arrival := arrival, eng_now := now, eng_uuid := uuid\<rparr>) tx)"
    using w by (intro well_Decide) (simp_all add: wired_def)
  from wellD [OF this _ 5(4)] 5 obs show ?case by simp
next
  case (6 c q)
  with kv_typed [of m c] show ?case by (simp add: typed_end_def)
next
  case 7
  with elapses_sane show ?case by blast
qed

lemma reachable_sane:
  assumes "wired rc S" and "sys_obs S = obs"
  shows "(system_step S)\<^sup>*\<^sup>* m m' \<Longrightarrow> sane_ks m \<Longrightarrow> sane_ks m'"
  by (induction rule: rtranclp_induct) (auto intro: step_sane [OF assms])

end

context redis_up
begin

lemma reachable_sane_up:
  "wired rc S \<Longrightarrow> sys_obs S = obs \<Longrightarrow> (system_step S)\<^sup>*\<^sup>* m m' \<Longrightarrow> sane_ks m \<Longrightarrow> sane_ks m'"
  by (rule alone.reachable_sane)

end


lemma sane_texts_under: "sane_ks m \<Longrightarrow> \<forall>(name, pfx, sf)\<in>set RULE_GROUPS. texts_under m pfx"
  using typed_values(1) rule_group_text by (fastforce simp: texts_under_def)

text \<open>
  (C7) No service ever meets a key of the wrong type. Start from an empty server, let the detection
  engine, the containment engine, the API, the decision service, other clients that keep to the types,
  and time take any number of steps in any order, with other clients' commands between any two
  commands of a service and any call failing as an outage: from the key space reached, no batch, no
  detection, no request and no decision ends with Redis's WRONGTYPE error.
\<close>

theorem services_never_meet_wrong_types:
  assumes "typed_redis rc obs others" and "wired rc S" and "sys_obs S = obs"
    and "(system_step S)\<^sup>*\<^sup>* fmempty m"
    and "ks (obs (w_redis w)) = m" and "ks (obs (w_redis v)) = m" and "ks (obs (w_redis u)) = m" and "ks (obs s) = m"
  shows "fst (handle_batch (sys_detector S) records w) \<noteq> Inl wrongtype \<and>
    fst (containment_handle_record (sys_container S) (sys_validate S) fuel value v) \<noteq> Inl wrongtype \<and>
    fst (serve (sys_api S) creds client req u) \<noteq> Inl wrongtype \<and>
    fst (Decide (sys_engine S) tx s) \<noteq> Inl wrongtype"
proof -
  note tr = assms(1)
  have m: "sane_ks m" using typed_redis.reachable_sane [OF tr assms(2,3,4)] by simp
  have P: "dp_redis (sys_detector S) = rc" "tame_detector (sys_detector S)"
    and C: "cp_redis (sys_container S) = rc" "tame_container (sys_container S) (sys_validate S)"
    and A: "api_redis (sys_api S) = rc" and E: "eng_rdb (sys_engine S) = rc" "0 < dc_ResultTTL (eng_cfg (sys_engine S))"
    using assms(2) by (simp_all add: wired_def)
  note no = well_no_wrongtype
  show ?thesis
    using no [OF typed_redis.well_handle_batch [OF tr P]] no [OF typed_redis.well_detection [OF tr C]]
      no [OF typed_redis.well_serve [OF tr A]] no [OF typed_redis.well_Decide [OF tr E]] m assms(5-8) by simp
qed


text \<open>
  (C13) The system does not wedge itself: against a server that is up and with usable settings, from
  every reachable key space a batch of any items runs to its end with the outcome the specification
  gives it, the rules can be listed, and a transaction that names its event and user is decided as the
  specification of the decision service says.
\<close>

theorem reachable_progress:
  assumes "redis_up rc obs" and "wired rc S" and "sys_obs S = obs" and "P = sys_detector S"
    and "config_ok (dp_redis_config P)" and "0 < detection_cooldown_seconds (dp_redis_config P)" and "emits_ok P"
    and "(system_step S)\<^sup>*\<^sup>* fmempty m" and "ks (obs (w_redis w)) = m" and "ks (obs s) = m"
    and "engine_ok (eng_cfg (sys_engine S))" and "named tx"
  shows "(\<exists>r w'. run_batch P items w = (Inr r, w') \<and> (emitted r, ks (obs (w_redis w'))) = batch_outcome P m items) \<and>
    (\<exists>rules s'. list_rules rc s = (Inr rules, s') \<and> ks (obs s') = m) \<and>
    (\<exists>d s'. Decide (sys_engine S) tx s = (Inr d, s') \<and> (d, ks (obs s')) = decide_outcome (sys_engine S) m tx)"
proof -
  have m: "sane_ks m" using redis_up.reachable_sane_up [OF assms(1-3,8)] by simp
  have P: "dp_redis P = rc" using assms(2,4) by (simp add: wired_def)
  obtain ds m' where out: "batch_outcome P m items = (ds, m')" by fastforce
  have "\<exists>r w'. run_batch P items w = (Inr r, w') \<and> (emitted r, ks (obs (w_redis w'))) = batch_outcome P m items"
    using run_batch_run [OF assms(1) P assms(9) [symmetric] sane_sound [OF m assms(5-7)] out] out by fastforce
  moreover have "\<forall>(name, pfx, sf)\<in>set RULE_GROUPS. texts_under (ks (obs s)) pfx"
    unfolding assms(10) by (rule sane_texts_under [OF m])
  from redis_up.groups_keep [OF assms(1) this] obtain xs s' where
    "mapE (list_group rc) RULE_GROUPS s = (Inr xs, s')" "ks (obs s') = m"
    unfolding assms(10) by blast
  then have "\<exists>rules s'. list_rules rc s = (Inr rules, s') \<and> ks (obs s') = m"
    by (simp add: list_rules_def bindE_def ret_def)
  moreover have E: "eng_rdb (sys_engine S) = rc" using assms(2) by (simp add: wired_def)
  have "\<exists>d s'. Decide (sys_engine S) tx s = (Inr d, s') \<and> (d, ks (obs s')) = decide_outcome (sys_engine S) m tx"
    using Decide_run [OF assms(1) E _ assms(11,12), of s] sane_typed [OF m] unfolding assms(10) by fastforce
  ultimately show ?thesis by blast
qed

subsection \<open>A concrete system\<close>

text \<open>An operator quarantines a user on a fresh system, in which every transaction is one from home.\<close>

definition home_detector :: "(conn, json list) DetectionPipeline" where
  "home_detector = sample_detector\<lparr>dp_validate_tx := (\<lambda>_. Inr home)\<rparr>"

definition sample_system :: "(conn, json list, json list, ledger) system" where
  "sample_system = \<lparr>sys_obs = (\<lambda>s. s), sys_detector = home_detector, sys_container = sample_containment,
     sys_validate = (\<lambda>_. Inr (sample_detection ''d1'' ''u'')), sys_api = sample_api (Inr empty_ledger),
     sys_engine = sample_decider\<rparr>"

lemma sample_wired: "wired redis_step sample_system" "sys_obs sample_system = (\<lambda>s. s)"
  by (auto simp: wired_def sample_system_def home_detector_def sample_detector_def sample_containment_def tame_detector_def
      tame_container_def wrongtype_def default_decision_config_def go_second_def)

lemma sample_reached:
  "\<exists>m. (system_step sample_system)\<^sup>*\<^sup>* fmempty m \<and> live m (quarantine_key ''u'')"
proof -
  obtain x w' where run: "serve (sample_api (Inr empty_ledger)) (Some ''s3cret'') None (AddQuarantine ''u'' None ''fraud'') (idle_api fmempty) = (Inr x, w')"
    and l: "live (ks (w_redis w')) (quarantine_key ''u'')"
    using quarantine_accepted by blast
  from run have "serve (sys_api sample_system) (Some ''s3cret'') None (AddQuarantine ''u'' None ''fraud'') (idle_api fmempty) = (Inr x, w')"
    by (simp add: sample_system_def)
  from Serves [OF this] have "system_step sample_system fmempty (ks (w_redis w'))" by (simp add: sample_system_def)
  with l show ?thesis by blast
qed

theorem services_never_meet_wrong_types_witness:
  "\<exists>m. (system_step sample_system)\<^sup>*\<^sup>* fmempty m \<and> live m (quarantine_key ''u'') \<and>
     fst (handle_batch home_detector [(''tx-events'', 0, 7, JObj [])] (world_with m)) \<noteq> Inl wrongtype \<and>
     fst (containment_handle_record sample_containment (\<lambda>_. Inr (sample_detection ''d1'' ''u'')) 1 (JObj []) (world_with m)) \<noteq> Inl wrongtype \<and>
     fst (serve (sample_api (Inr empty_ledger)) None None GetRules (idle_api m)) \<noteq> Inl wrongtype \<and>
     fst (Decide sample_decider far_request (conn_with m)) \<noteq> Inl wrongtype"
proof -
  obtain m where m: "(system_step sample_system)\<^sup>*\<^sup>* fmempty m" "live m (quarantine_key ''u'')"
    using sample_reached by blast
  have ks: "ks (w_redis (world_with m)) = m" "ks (w_redis (world_with m)) = m" "ks (w_redis (idle_api m)) = m" "ks (conn_with m) = m"
    by (simp_all add: world_with_def conn_with_def)
  have "fst (handle_batch (sys_detector sample_system) [(''tx-events'', 0, 7, JObj [])] (world_with m)) \<noteq> Inl wrongtype \<and>
    fst (containment_handle_record (sys_container sample_system) (sys_validate sample_system) 1 (JObj []) (world_with m)) \<noteq> Inl wrongtype \<and>
    fst (serve (sys_api sample_system) None None GetRules (idle_api m)) \<noteq> Inl wrongtype \<and>
    fst (Decide (sys_engine sample_system) far_request (conn_with m)) \<noteq> Inl wrongtype"
    using ks by (intro services_never_meet_wrong_types [OF mem.alone.typed_redis_axioms sample_wired m(1)])
  with m show ?thesis by (auto simp: sample_system_def)
qed


theorem reachable_progress_witness:
  "\<exists>m r w'. (system_step sample_system)\<^sup>*\<^sup>* fmempty m \<and> live m (quarantine_key ''u'') \<and>
     run_batch home_detector trip (world_with m) = (Inr r, w') \<and>
     (\<exists>rules s'. list_rules redis_step (conn_with m) = (Inr rules, s')) \<and>
     (\<exists>d s'. Decide sample_decider far_request (conn_with m) = (Inr d, s'))"
proof -
  obtain m where m: "(system_step sample_system)\<^sup>*\<^sup>* fmempty m" "live m (quarantine_key ''u'')"
    using sample_reached by blast
  have P: "home_detector = sys_detector sample_system" by (simp add: sample_system_def)
  have "sound sample_detector fmempty" by (rule sample_sound) simp_all
  then have s: "config_ok (dp_redis_config home_detector)" "0 < detection_cooldown_seconds (dp_redis_config home_detector)"
    "emits_ok home_detector" by (simp_all add: sound_def home_detector_def emits_ok_def)
  have ks: "ks (w_redis (world_with m)) = m" "ks (conn_with m) = m" by (simp_all add: world_with_def conn_with_def)
  have e: "engine_ok (eng_cfg (sys_engine sample_system))" "sys_engine sample_system = sample_decider"
    by (simp_all add: sample_system_def engine_ok_def default_decision_config_def go_hour_def go_second_def)
  from reachable_progress [OF mem.redis_up_axioms sample_wired P s m(1) ks e(1) far_same(2), of trip] m show ?thesis
    unfolding e(2) by blast
qed

end
