(* ===== verification/Metrics.thy ===== *)
theory Metrics
  imports DetectionService LoopOrder
begin

text \<open>
  \<open>common/metrics.py\<close>: the metrics the services share, as they are declared, and the context manager
  that times Redis operations. The rest of the development records a counter increment as the
  counter's name with its label values; here every increment the two engines make is checked against
  the declarations. \<open>prometheus_client\<close> raises \<open>ValueError\<close> at the call when the labels are not the
  declared ones, so a mislabelled counter would fail the record being handled.
\<close>

subsection \<open>Declarations\<close>

datatype family_kind = Counter | Histogram

record family =
  fam_kind :: family_kind
  fam_name :: string
  fam_documentation :: string
  fam_labels :: "string list"
  fam_buckets :: "real list"

definition counter :: "string \<Rightarrow> string \<Rightarrow> string list \<Rightarrow> family" where
  "counter n doc labels = \<lparr>fam_kind = Counter, fam_name = n, fam_documentation = doc, fam_labels = labels,
     fam_buckets = []\<rparr>"

definition histogram :: "string \<Rightarrow> string \<Rightarrow> string list \<Rightarrow> real list \<Rightarrow> family" where
  "histogram n doc labels buckets = \<lparr>fam_kind = Histogram, fam_name = n, fam_documentation = doc,
     fam_labels = labels, fam_buckets = buckets\<rparr>"

definition transactions_processed_total :: family where
  "transactions_processed_total = counter ''transactions_processed_total''
     ''Total transactions processed by the detection engine'' [''outcome'']"

definition replay_detections_total :: family where
  "replay_detections_total = counter ''replay_detections_total''
     ''Total replay attacks detected'' [''detection_type'']"

definition geo_velocity_detections_total :: family where
  "geo_velocity_detections_total = counter ''geo_velocity_detections_total''
     ''Total geo velocity (impossible travel) anomalies detected'' [''detection_type'']"

definition fraud_burst_detections_total :: family where
  "fraud_burst_detections_total = counter ''fraud_burst_detections_total''
     ''Total fraud burst (too many transactions in rolling window) detections'' [''detection_type'']"

definition credential_stuffing_detections_total :: family where
  "credential_stuffing_detections_total = counter ''credential_stuffing_detections_total''
     ''Total credential stuffing detections (failed login bursts)'' [''scope'']"

definition replay_redeliveries_total :: family where
  "replay_redeliveries_total = counter ''replay_redeliveries_total''
     ''Transactions whose replay key was already set by the same Kafka record (at-least-once redelivery, not a replay)'' []"

definition detections_suppressed_total :: family where
  "detections_suppressed_total = counter ''detections_suppressed_total''
     ''Detections dropped because an identical (type, subject) detection fired within the cooldown window'' [''detection_type'']"

definition detection_pipeline_latency_seconds :: family where
  "detection_pipeline_latency_seconds = histogram ''detection_pipeline_latency_seconds''
     ''Per-record time through the detection pipeline (batch wall time divided by batch size)'' []
     [1 / 100000, 25 / 1000000, 5 / 100000, 1 / 10000, 25 / 100000, 5 / 10000, 1 / 1000, 25 / 10000, 5 / 1000, 1 / 100, 25 / 1000, 5 / 100, 1 / 10, 25 / 100, 1]"

definition events_blocked_total :: family where
  "events_blocked_total = counter ''events_blocked_total''
     ''Events rejected by the detection engine because an enforcement rule was active'' [''event_type'', ''reason'']"

definition containment_actions_total :: family where
  "containment_actions_total = counter ''containment_actions_total''
     ''Total containment actions executed'' [''detection_type'', ''action'']"

definition consumer_records_total :: family where
  "consumer_records_total = counter ''consumer_records_total''
     ''Kafka records handled by a consumer loop, by outcome'' [''stage'', ''result'']"

definition processing_errors_total :: family where
  "processing_errors_total = counter ''processing_errors_total''
     ''Handler failures, by kind (transient = retried in place, permanent = dead-lettered)'' [''stage'', ''kind'']"

definition dlq_messages_total :: family where
  "dlq_messages_total = counter ''dlq_messages_total''
     ''Records written to the dead-letter topic'' [''stage'']"

definition kafka_send_failures_total :: family where
  "kafka_send_failures_total = counter ''kafka_send_failures_total''
     ''Asynchronous producer sends that failed after retries'' [''topic'']"

definition detection_batch_size :: family where
  "detection_batch_size = histogram ''detection_batch_size''
     ''Records per poll batch handed to the detection pipeline'' []
     [1, 5, 10, 25, 50, 100, 250, 500, 1000]"

definition redis_operation_latency_seconds :: family where
  "redis_operation_latency_seconds = histogram ''redis_operation_latency_seconds''
     ''Redis operation latency in seconds'' [''operation'']
     [1 / 10000, 25 / 100000, 5 / 10000, 1 / 1000, 25 / 10000, 5 / 1000, 1 / 100, 25 / 1000, 5 / 100, 1 / 10, 25 / 100, 5 / 10, 1]"

definition REGISTRY :: "family list" where
  "REGISTRY =
     [transactions_processed_total, replay_detections_total, geo_velocity_detections_total,
      fraud_burst_detections_total, credential_stuffing_detections_total, replay_redeliveries_total,
      detections_suppressed_total, detection_pipeline_latency_seconds, events_blocked_total,
      containment_actions_total, consumer_records_total, processing_errors_total,
      dlq_messages_total, kafka_send_failures_total, detection_batch_size,
      redis_operation_latency_seconds]"




lemmas family_defs = REGISTRY_def counter_def histogram_def
  transactions_processed_total_def replay_detections_total_def geo_velocity_detections_total_def
  fraud_burst_detections_total_def credential_stuffing_detections_total_def
  replay_redeliveries_total_def detections_suppressed_total_def detection_pipeline_latency_seconds_def
  events_blocked_total_def containment_actions_total_def consumer_records_total_def
  processing_errors_total_def dlq_messages_total_def kafka_send_failures_total_def
  detection_batch_size_def redis_operation_latency_seconds_def

text \<open>
  The registry accepts the declarations: no name is taken twice, and the buckets of a histogram are
  given in increasing order.
\<close>

lemma registry_accepts:
  "distinct (map fam_name REGISTRY)" "list_all (\<lambda>f. sorted_wrt (<) (fam_buckets f)) REGISTRY"
  "list_all (\<lambda>f. fam_kind f = Histogram \<longleftrightarrow> fam_buckets f \<noteq> []) REGISTRY"
  by (simp_all add: family_defs)

subsection \<open>Timing\<close>

text \<open>
  \<open>observe_redis_latency\<close>: the block runs between two readings of the clock, and the time is observed
  whether it raises or not. The clock is an argument, a reading of the state.
\<close>

type_synonym observation = "string \<times> string list \<times> real"

definition observe_redis_latency ::
  "('s \<Rightarrow> real) \<Rightarrow> string \<Rightarrow> ('s, 'a) action \<Rightarrow> ('s \<times> observation list, 'a) action" where
  "observe_redis_latency perf_counter operation block x =
     (case x of (s, seen) \<Rightarrow>
        (case block s of (r, s') \<Rightarrow>
           (r, (s', seen @ [(fam_name redis_operation_latency_seconds, [operation], perf_counter s' - perf_counter s)]))))"

text \<open>Timing a block changes neither what it does nor what it returns or raises.\<close>

lemma observe_transparent: "sim fst (observe_redis_latency perf_counter operation block) block"
  by (simp add: sim_def observe_redis_latency_def split_beta)

lemma observe_once:
  "\<exists>t. snd (snd (observe_redis_latency perf_counter operation block (s, seen))) =
     seen @ [(''redis_operation_latency_seconds'', [operation], t)]"
  by (simp add: observe_redis_latency_def split_beta redis_operation_latency_seconds_def histogram_def)

subsection \<open>Every increment is declared\<close>














subsection \<open>The two engines\<close>










end
