(* ===== verification/Simulator.thy ===== *)
theory Simulator
  imports Pipeline KafkaClient Environment
begin

text \<open>
  \<open>simulator/transaction_simulator.py\<close>: the traffic generator. The host supplies what is random or
  from outside: \<open>random.Random\<close> (its \<open>random()\<close> and the index \<open>choice\<close> draws), UUIDs, the clock and
  the pause between iterations, as actions on a state of its own. Python's generator yields its
  events to the loop that consumes it; here \<open>yield_event\<close> is that consumer, called at every \<open>yield\<close>, so
  that drawing and consuming interleave as they do in the program. The endless \<open>while\<close> takes the
  number of iterations to run.
\<close>

subsection \<open>Settings\<close>

definition MERCHANTS :: "string list" where
  "MERCHANTS = [''Amazon'', ''Stripe'', ''PayPal'', ''Walmart'', ''Target'',
     ''Best Buy'', ''Netflix'', ''Spotify'', ''Uber'', ''Lyft'']"

definition LOCATION_COORDS :: "(string \<times> real \<times> real) list" where
  "LOCATION_COORDS =
     [(''US-CA'', 37, -122), (''US-NY'', 40.7, -74), (''US-TX'', 29.8, -95.4), (''UK-LON'', 51.5, -0.1),
      (''DE-BER'', 52.5, 13.4), (''FR-PAR'', 48.9, 2.4), (''JP-TYO'', 35.7, 139.7), (''AU-SYD'', -33.9, 151.2),
      (''US-FL'', 25.8, -80.2), (''US-WA'', 47.6, -122.3)]"

definition LOCATIONS :: "string list" where
  "LOCATIONS = map fst LOCATION_COORDS"

definition SAMPLE_IPS :: "string list" where
  "SAMPLE_IPS = [''198.51.100.10'', ''198.51.100.11'', ''203.0.113.50'', ''192.0.2.100'', ''192.0.2.200'']"

definition STUFFING_USER_IP :: string where
  "STUFFING_USER_IP = ''203.0.113.99''"

definition STUFFING_ATTACK_IP :: string where
  "STUFFING_ATTACK_IP = ''198.51.100.250''"

definition BURST_SIZE :: nat where
  "BURST_SIZE = 25"

definition STUFFING_USER_FAILS :: nat where
  "STUFFING_USER_FAILS = 12"

definition STUFFING_IP_FAILS :: nat where
  "STUFFING_IP_FAILS = 52"

record SimulatorSettings =
  interval_seconds :: real
  num_users :: int
  replay_probability :: real
  impossible_travel_probability :: real
  auth_fail_probability :: real
  burst_every :: int
  stuffing_user_every :: int
  stuffing_ip_every :: int
  sim_seed :: "int option"
  decision_url :: "string option"

definition default_simulator_settings :: SimulatorSettings where
  "default_simulator_settings = \<lparr>interval_seconds = 0.5, num_users = 100, replay_probability = 0.05,
     impossible_travel_probability = 0.02, auth_fail_probability = 0.1, burst_every = 200,
     stuffing_user_every = 150, stuffing_ip_every = 400, sim_seed = None, decision_url = None\<rparr>"

text \<open>\<open>float(os.getenv(name, x))\<close> and \<open>int(os.getenv(name, i))\<close> with a number as the default.\<close>

definition float_or :: "environment \<Rightarrow> string \<Rightarrow> real \<Rightarrow> real reading" where
  "float_or env name x = (case env name of None \<Rightarrow> Some (Inr x) | Some s \<Rightarrow> py_float s)"

definition int_or :: "environment \<Rightarrow> string \<Rightarrow> int \<Rightarrow> int reading" where
  "int_or env name i = (case env name of None \<Rightarrow> Some (Inr i) | Some s \<Rightarrow> py_int s)"

definition text_or_none :: "environment \<Rightarrow> string \<Rightarrow> string option" where
  "text_or_none env name = (case env name of None \<Rightarrow> None | Some s \<Rightarrow> if s = [] then None else Some s)"

definition simulator_settings_from_env :: "environment \<Rightarrow> SimulatorSettings reading" where
  "simulator_settings_from_env env =
     (let d = default_simulator_settings in
     bind_reading (float_or env ''SIM_INTERVAL_SECONDS'' (interval_seconds d)) (\<lambda>interval.
     bind_reading (int_or env ''SIM_USERS'' (num_users d)) (\<lambda>users.
     bind_reading (float_or env ''SIM_REPLAY_PROBABILITY'' (replay_probability d)) (\<lambda>replay_p.
     bind_reading (float_or env ''SIM_IMPOSSIBLE_TRAVEL_PROBABILITY'' (impossible_travel_probability d)) (\<lambda>travel_p.
     bind_reading (float_or env ''SIM_AUTH_FAIL_PROBABILITY'' (auth_fail_probability d)) (\<lambda>fail_p.
     bind_reading (int_or env ''SIM_BURST_EVERY'' (burst_every d)) (\<lambda>burst.
     bind_reading (int_or env ''SIM_STUFFING_USER_EVERY'' (stuffing_user_every d)) (\<lambda>stuffing_user.
     bind_reading (int_or env ''SIM_STUFFING_IP_EVERY'' (stuffing_ip_every d)) (\<lambda>stuffing_ip.
     bind_reading (case text_or_none env ''SIM_SEED'' of
                     None \<Rightarrow> Some (Inr None)
                   | Some s \<Rightarrow> bind_reading (py_int s) (\<lambda>i. Some (Inr (Some i)))) (\<lambda>seed.
     Some (Inr \<lparr>interval_seconds = interval, num_users = users, replay_probability = replay_p,
       impossible_travel_probability = travel_p, auth_fail_probability = fail_p, burst_every = burst,
       stuffing_user_every = stuffing_user, stuffing_ip_every = stuffing_ip, sim_seed = seed,
       decision_url = text_or_none env ''SIM_DECISION_URL''\<rparr>)))))))))))"

subsection \<open>Events\<close>

record Emitted =
  em_event :: "event option"
  scenario :: string

abbreviation emitted_as :: "event \<Rightarrow> string \<Rightarrow> Emitted" where
  "emitted_as ev sc \<equiv> \<lparr>em_event = Some ev, scenario = sc\<rparr>"

definition pacing_marker :: Emitted where
  "pacing_marker = \<lparr>em_event = None, scenario = ''__sleep__''\<rparr>"

record 's host =
  rng_random :: "('s, real) action"
  rng_below :: "nat \<Rightarrow> ('s, nat) action"
  uuid4 :: "('s, string) action"
  utc_now :: "('s, datetime) action"

definition choice :: "'s host \<Rightarrow> 'a list \<Rightarrow> ('s, 'a) action" where
  "choice H xs = (if xs = [] then raise_exn (OtherError ''IndexError'')
                  else bindE (rng_below H (length xs)) (\<lambda>i. ret (xs ! i)))"

definition uniform :: "'s host \<Rightarrow> real \<Rightarrow> real \<Rightarrow> ('s, real) action" where
  "uniform H a b = bindE (rng_random H) (\<lambda>r. ret (a + (b - a) * r))"

text \<open>\<open>round(x, 2)\<close>.\<close>

definition round2 :: "real \<Rightarrow> real" where
  "round2 x = of_int (round_half_even (x * 100)) / 100"

definition make_transaction :: "'s host \<Rightarrow> string \<Rightarrow> string \<Rightarrow> ('s, TransactionEvent) action" where
  "make_transaction H user_id location =
     (case map_of LOCATION_COORDS location of
        None \<Rightarrow> raise_exn (OtherError ''KeyError'')
      | Some (lat, lon) \<Rightarrow>
          bindE (uuid4 H) (\<lambda>eid.
          bindE (uniform H 5 500) (\<lambda>x.
          bindE (choice H MERCHANTS) (\<lambda>merchant.
          bindE (utc_now H) (\<lambda>now.
          ret \<lparr>tx_event_id = eid, tx_user_id = user_id, tx_amount = round2 x, tx_merchant = merchant,
               tx_timestamp = now, tx_location = location, tx_latitude = lat, tx_longitude = lon\<rparr>)))))"

definition make_auth :: "'s host \<Rightarrow> string \<Rightarrow> string \<Rightarrow> bool \<Rightarrow> ('s, AuthEvent) action" where
  "make_auth H user_id ip success =
     bindE (uuid4 H) (\<lambda>eid.
     bindE (utc_now H) (\<lambda>now.
     ret \<lparr>au_event_id = eid, au_user_id = user_id, au_ip_address = ip, au_success = success, au_timestamp = now\<rparr>))"

subsection \<open>The generator\<close>

definition user_ids :: "SimulatorSettings \<Rightarrow> string list" where
  "user_ids st = map (\<lambda>i. ''user_'' @ show_int i) [1..num_users st]"

text \<open>The home city of every user.\<close>

type_synonym homes = "string \<rightharpoonup> string"

definition home_of :: "homes \<Rightarrow> string \<Rightarrow> ('s, string) action" where
  "home_of home u = (case home u of None \<Rightarrow> raise_exn (OtherError ''KeyError'') | Some l \<Rightarrow> ret l)"

text \<open>One transaction: a replay, impossible travel, or a normal one, which alone becomes the last.\<close>

definition one_transaction ::
  "'s host \<Rightarrow> (Emitted \<Rightarrow> ('s, unit) action) \<Rightarrow> SimulatorSettings \<Rightarrow> homes \<Rightarrow> (string \<rightharpoonup> TransactionEvent) \<Rightarrow> string \<Rightarrow>
   ('s, string \<rightharpoonup> TransactionEvent) action" where
  "one_transaction H yield_event st home last_tx user_id =
     bindE (rng_random H) (\<lambda>roll.
     case (if roll < replay_probability st then last_tx user_id else None) of
       Some tx \<Rightarrow> bindE (yield_event (emitted_as (Tx tx) ''replay'')) (\<lambda>_. ret last_tx)
     | None \<Rightarrow>
         bindE (home_of home user_id) (\<lambda>loc.
         if replay_probability st \<le> roll \<and> roll < replay_probability st + impossible_travel_probability st then
           bindE (choice H (filter (\<lambda>l. l \<noteq> loc) LOCATIONS)) (\<lambda>away.
           bindE (make_transaction H user_id away) (\<lambda>tx.
           bindE (yield_event (emitted_as (Tx tx) ''impossible_travel'')) (\<lambda>_. ret last_tx)))
         else
           bindE (make_transaction H user_id loc) (\<lambda>tx.
           bindE (yield_event (emitted_as (Tx tx) ''normal'')) (\<lambda>_. ret (last_tx(user_id \<mapsto> tx))))))"

definition one_auth ::
  "'s host \<Rightarrow> (Emitted \<Rightarrow> ('s, unit) action) \<Rightarrow> SimulatorSettings \<Rightarrow> string list \<Rightarrow> ('s, unit) action" where
  "one_auth H yield_event st users =
     bindE (choice H users) (\<lambda>au_user.
     bindE (rng_random H) (\<lambda>r.
     bindE (choice H SAMPLE_IPS) (\<lambda>ip.
     bindE (make_auth H au_user ip (auth_fail_probability st \<le> r)) (\<lambda>au.
     yield_event (emitted_as (Auth au) ''normal'')))))"

text \<open>\<open>every and iteration % every == 0\<close>.\<close>

definition due :: "int \<Rightarrow> nat \<Rightarrow> bool" where
  "due every i \<longleftrightarrow> every \<noteq> 0 \<and> int i mod every = 0"

definition fraud_burst ::
  "'s host \<Rightarrow> (Emitted \<Rightarrow> ('s, unit) action) \<Rightarrow> homes \<Rightarrow> string list \<Rightarrow> ('s, unit) action" where
  "fraud_burst H yield_event home users =
     bindE (choice H users) (\<lambda>victim.
     forE (\<lambda>_. bindE (home_of home victim) (\<lambda>loc.
       bindE (make_transaction H victim loc) (\<lambda>tx. yield_event (emitted_as (Tx tx) ''fraud_burst''))))
       [0..<BURST_SIZE])"

definition stuffing_user ::
  "'s host \<Rightarrow> (Emitted \<Rightarrow> ('s, unit) action) \<Rightarrow> string list \<Rightarrow> ('s, unit) action" where
  "stuffing_user H yield_event users =
     bindE (choice H users) (\<lambda>victim.
     forE (\<lambda>_. bindE (make_auth H victim STUFFING_USER_IP False) (\<lambda>au.
       yield_event (emitted_as (Auth au) ''stuffing_user'')))
       [0..<STUFFING_USER_FAILS])"

definition stuffing_ip ::
  "'s host \<Rightarrow> (Emitted \<Rightarrow> ('s, unit) action) \<Rightarrow> string list \<Rightarrow> ('s, unit) action" where
  "stuffing_ip H yield_event users =
     forE (\<lambda>i. bindE (if users = [] then raise_exn (OtherError ''ZeroDivisionError'') else ret (users ! (i mod length users))) (\<lambda>uid.
       bindE (make_auth H uid STUFFING_ATTACK_IP False) (\<lambda>au. yield_event (emitted_as (Auth au) ''stuffing_ip''))))
       [0..<STUFFING_IP_FAILS]"

definition iteration ::
  "'s host \<Rightarrow> (Emitted \<Rightarrow> ('s, unit) action) \<Rightarrow> SimulatorSettings \<Rightarrow> string list \<Rightarrow> homes \<Rightarrow> nat \<Rightarrow>
   (string \<rightharpoonup> TransactionEvent) \<Rightarrow> ('s, string \<rightharpoonup> TransactionEvent) action" where
  "iteration H yield_event st users home i last_tx =
     bindE (choice H users) (\<lambda>user_id.
     bindE (one_transaction H yield_event st home last_tx user_id) (\<lambda>last_tx'.
     bindE (one_auth H yield_event st users) (\<lambda>_.
     bindE (if due (burst_every st) i then fraud_burst H yield_event home users else ret ()) (\<lambda>_.
     bindE (if due (stuffing_user_every st) i then stuffing_user H yield_event users else ret ()) (\<lambda>_.
     bindE (if due (stuffing_ip_every st) i then stuffing_ip H yield_event users else ret ()) (\<lambda>_.
     bindE (yield_event pacing_marker) (\<lambda>_. ret last_tx')))))))"

fun iterations ::
  "'s host \<Rightarrow> (Emitted \<Rightarrow> ('s, unit) action) \<Rightarrow> SimulatorSettings \<Rightarrow> string list \<Rightarrow> homes \<Rightarrow> nat \<Rightarrow>
   (string \<rightharpoonup> TransactionEvent) \<Rightarrow> nat \<Rightarrow> ('s, unit) action" where
  "iterations H yield_event st users home i last_tx 0 = ret ()"
| "iterations H yield_event st users home i last_tx (Suc n) =
     bindE (iteration H yield_event st users home i last_tx) (\<lambda>last_tx'.
     iterations H yield_event st users home (Suc i) last_tx' n)"

definition generate_events ::
  "'s host \<Rightarrow> (Emitted \<Rightarrow> ('s, unit) action) \<Rightarrow> SimulatorSettings \<Rightarrow> nat \<Rightarrow> ('s, unit) action" where
  "generate_events H yield_event st n =
     (let users = user_ids st in
      bindE (mapE (\<lambda>_. choice H LOCATIONS) users) (\<lambda>locs.
      iterations H yield_event st users (map_of (zip users locs)) 1 Map.empty n))"

subsection \<open>Running the simulator\<close>

text \<open>
  The process: its host, the producer, the number of events sent and the verdicts counted. \<open>si_post\<close> is
  the HTTP request of \<open>ask_decision\<close> (it returns the body, or raises), \<open>si_dump\<close> is Pydantic's
  \<open>model_dump(mode="json")\<close>.
\<close>

record ('h, 'k) sim_state =
  sim_host :: 'h
  sim_producer :: "'k producer"
  sent :: nat
  verdicts :: "json list"

record ('h, 'k) simulator =
  si_host :: "'h host"
  si_pause :: "real \<Rightarrow> ('h, unit) action"
  si_post :: "string \<Rightarrow> json \<Rightarrow> ('h, string) action"
  si_lib :: "'k kafka_lib"
  si_kafka_config :: KafkaConfig
  si_dump :: "event \<Rightarrow> json"

definition on_host :: "('h, 'a) action \<Rightarrow> (('h, 'k) sim_state, 'a) action" where
  "on_host m s = (case m (sim_host s) of (r, h) \<Rightarrow> (r, s\<lparr>sim_host := h\<rparr>))"

definition on_producer :: "('k producer, 'a) action \<Rightarrow> (('h, 'k) sim_state, 'a) action" where
  "on_producer m s = (case m (sim_producer s) of (r, p) \<Rightarrow> (r, s\<lparr>sim_producer := p\<rparr>))"

definition lift_host :: "'h host \<Rightarrow> ('h, 'k) sim_state host" where
  "lift_host H = \<lparr>rng_random = on_host (rng_random H), rng_below = (\<lambda>n. on_host (rng_below H n)),
     uuid4 = on_host (uuid4 H), utc_now = on_host (utc_now H)\<rparr>"

definition ask_decision :: "('h, 'k) simulator \<Rightarrow> string \<Rightarrow> TransactionEvent \<Rightarrow> ('h, json option) action" where
  "ask_decision S url tx h =
     (case si_post S url (JObj [(''transaction'', si_dump S (Tx tx))]) h of (r, h') \<Rightarrow>
        (case r of
           Inl e \<Rightarrow> if e = OtherError ''URLError'' \<or> e = TimeoutError then (Inr None, h') else (Inl e, h')
         | Inr body \<Rightarrow>
             if \<not> valid_utf8 body then (Inl (OtherError ''UnicodeDecodeError''), h') else (Inr (json_loads body), h')))"

text \<open>The verdict that is counted, and the fields that are read to log one that is not an approval.\<close>

definition verdict_of :: "json option \<Rightarrow> exn + json" where
  "verdict_of decision =
     (case decision of
        None \<Rightarrow> Inr (JStr ''UNAVAILABLE'')
      | Some d \<Rightarrow>
          if \<not> json_truthy d then Inr (JStr ''UNAVAILABLE'')
          else case d of JObj kvs \<Rightarrow> Inr (dict_get_default kvs ''verdict'' (JStr ''?'')) | _ \<Rightarrow> Inl (OtherError ''AttributeError''))"

fun hashable :: "json \<Rightarrow> bool" where
  "hashable (JArr _) = False"
| "hashable (JObj _) = False"
| "hashable _ = True"

definition log_verdict :: "json option \<Rightarrow> ('s, unit) action" where
  "log_verdict decision =
     (case decision of
        Some (JObj kvs) \<Rightarrow>
          (case iter_json (dict_get_default kvs ''reasons'' (JArr [])) of
             Inl e \<Rightarrow> raise_exn e
           | Inr rs \<Rightarrow> if \<forall>r\<in>set rs. \<exists>d. r = JObj d then ret () else raise_exn (OtherError ''AttributeError''))
      | _ \<Rightarrow> ret ())"

definition consult :: "('h, 'k) simulator \<Rightarrow> SimulatorSettings \<Rightarrow> TransactionEvent \<Rightarrow> (('h, 'k) sim_state, unit) action" where
  "consult S st tx =
     (case decision_url st of
        None \<Rightarrow> ret ()
      | Some url \<Rightarrow>
          if url = [] then ret ()
          else bindE (on_host (ask_decision S url tx)) (\<lambda>decision.
          case verdict_of decision of
            Inl e \<Rightarrow> raise_exn e
          | Inr v \<Rightarrow>
              if \<not> hashable v then raise_exn (OtherError ''TypeError'')
              else bindE (\<lambda>s. (Inr (), s\<lparr>verdicts := verdicts s @ [v]\<rparr>)) (\<lambda>_.
                   if v \<noteq> JStr ''ALLOW'' \<and> v \<noteq> JStr ''UNAVAILABLE'' then log_verdict decision else ret ())))"

definition count_sent :: "(('h, 'k) sim_state, unit) action" where
  "count_sent s = (Inr (), s\<lparr>sent := Suc (sent s)\<rparr>)"

definition publish :: "('h, 'k) simulator \<Rightarrow> SimulatorSettings \<Rightarrow> Emitted \<Rightarrow> (('h, 'k) sim_state, unit) action" where
  "publish S st item =
     (if scenario item = ''__sleep__'' then on_host (si_pause S (interval_seconds st))
      else case em_event item of
             Some (Tx tx) \<Rightarrow>
               bindE (consult S st tx) (\<lambda>_.
               bindE (on_producer (send_message (si_lib S) (tx_events_topic (si_kafka_config S))
                        (si_dump S (Tx tx)) (Some (tx_user_id tx)))) (\<lambda>_. count_sent))
           | Some (Auth au) \<Rightarrow>
               bindE (on_producer (send_message (si_lib S) (auth_events_topic (si_kafka_config S))
                        (si_dump S (Auth au)) (Some (au_user_id au)))) (\<lambda>_. count_sent)
           | None \<Rightarrow> raise_exn (OtherError ''AttributeError''))"

text \<open>An interrupt ends the loop quietly; the producer is flushed however it ended.\<close>

definition run_simulator ::
  "('h, 'k) simulator \<Rightarrow> SimulatorSettings \<Rightarrow> nat \<Rightarrow> (('h, 'k) sim_state, unit) action" where
  "run_simulator S st n s =
     (case generate_events (lift_host (si_host S)) (publish S st) st n s of (r, s1) \<Rightarrow>
        (case k_flush (si_lib S) (p_client (sim_producer s1)) of (q, cbs, c) \<Rightarrow>
           let s2 = s1\<lparr>sim_producer := called_back cbs ((sim_producer s1)\<lparr>p_client := c\<rparr>)\<rparr>
           in case q of
                Some e \<Rightarrow> (Inl e, s2)
              | None \<Rightarrow> (if r = Inl (OtherError ''KeyboardInterrupt'') then Inr () else r, s2)))"

end
