(* ===== verification/SimulatorProps.thy ===== *)
theory SimulatorProps
  imports Simulator
begin

text \<open>
  What the simulator's traffic looks like, whatever the random draws: each iteration's shape, the
  size of the injected attacks and their origin. The contract of a host is the locale
  \<open>traffic_host\<close>: draws are in their documented ranges, and the consumer of the generator takes every
  event it is given; \<open>takes s es s'\<close> says that it took the events \<open>es\<close> on the way from \<open>s\<close> to \<open>s'\<close>. One
  interpretation records the events, another is the program's own consumer, which publishes them.
\<close>

subsection \<open>What the traffic should be\<close>

text \<open>A transaction of a user from a known city, with a plausible amount and merchant.\<close>

definition made_for :: "string \<Rightarrow> string \<Rightarrow> TransactionEvent \<Rightarrow> bool" where
  "made_for u loc tx \<longleftrightarrow> tx_user_id tx = u \<and> tx_location tx = loc \<and>
     map_of LOCATION_COORDS loc = Some (tx_latitude tx, tx_longitude tx) \<and>
     5 \<le> tx_amount tx \<and> tx_amount tx \<le> 500 \<and> tx_merchant tx \<in> set MERCHANTS"

definition home_tx :: "homes \<Rightarrow> string \<Rightarrow> string \<Rightarrow> Emitted \<Rightarrow> bool" where
  "home_tx home u sc e \<longleftrightarrow> (\<exists>tx loc. home u = Some loc \<and> made_for u loc tx \<and> e = emitted_as (Tx tx) sc)"

definition failed_login :: "string \<Rightarrow> string \<Rightarrow> string \<Rightarrow> Emitted \<Rightarrow> bool" where
  "failed_login u ip sc e \<longleftrightarrow>
     (\<exists>au. au_user_id au = u \<and> au_ip_address au = ip \<and> \<not> au_success au \<and> e = emitted_as (Auth au) sc)"

text \<open>The pacing marker is the only item without an event.\<close>

definition proper :: "Emitted \<Rightarrow> bool" where
  "proper e \<longleftrightarrow> (em_event e = None \<longleftrightarrow> scenario e = ''__sleep__'')"

lemma proper_items [simp]: "proper (emitted_as ev sc) \<longleftrightarrow> sc \<noteq> ''__sleep__''" "proper pacing_marker"
  by (auto simp: proper_def pacing_marker_def)

text \<open>The transaction of an iteration, and the transaction that becomes its user's last one.\<close>

definition tx_step ::
  "homes \<Rightarrow> (string \<rightharpoonup> TransactionEvent) \<Rightarrow> string \<Rightarrow> Emitted \<Rightarrow> (string \<rightharpoonup> TransactionEvent) \<Rightarrow> bool" where
  "tx_step home lst u e lst' \<longleftrightarrow>
     (\<exists>tx. lst u = Some tx \<and> e = emitted_as (Tx tx) ''replay'' \<and> lst' = lst) \<or>
     (\<exists>tx loc. made_for u loc tx \<and> home u \<noteq> Some loc \<and> e = emitted_as (Tx tx) ''impossible_travel'' \<and> lst' = lst) \<or>
     (\<exists>tx loc. home u = Some loc \<and> made_for u loc tx \<and> e = emitted_as (Tx tx) ''normal'' \<and> lst' = lst(u \<mapsto> tx))"

definition login :: "string list \<Rightarrow> Emitted \<Rightarrow> bool" where
  "login users e \<longleftrightarrow>
     (\<exists>au. au_user_id au \<in> set users \<and> au_ip_address au \<in> set SAMPLE_IPS \<and> e = emitted_as (Auth au) ''normal'')"

definition burst_events :: "homes \<Rightarrow> string list \<Rightarrow> bool \<Rightarrow> Emitted list \<Rightarrow> bool" where
  "burst_events home users on es \<longleftrightarrow>
     (if on then length es = BURST_SIZE \<and> (\<exists>u\<in>set users. \<forall>e\<in>set es. home_tx home u ''fraud_burst'' e) else es = [])"

definition user_stuffing :: "string list \<Rightarrow> bool \<Rightarrow> Emitted list \<Rightarrow> bool" where
  "user_stuffing users on es \<longleftrightarrow>
     (if on then length es = STUFFING_USER_FAILS \<and>
        (\<exists>u\<in>set users. \<forall>e\<in>set es. failed_login u STUFFING_USER_IP ''stuffing_user'' e) else es = [])"

definition ip_stuffing :: "string list \<Rightarrow> bool \<Rightarrow> Emitted list \<Rightarrow> bool" where
  "ip_stuffing users on es \<longleftrightarrow>
     (if on then length es = STUFFING_IP_FAILS \<and>
        (\<forall>e\<in>set es. \<exists>u\<in>set users. failed_login u STUFFING_ATTACK_IP ''stuffing_ip'' e) else es = [])"

definition iteration_shape ::
  "SimulatorSettings \<Rightarrow> string list \<Rightarrow> homes \<Rightarrow> nat \<Rightarrow> (string \<rightharpoonup> TransactionEvent) \<Rightarrow> Emitted list \<Rightarrow>
   (string \<rightharpoonup> TransactionEvent) \<Rightarrow> bool" where
  "iteration_shape st users home i lst es lst' \<longleftrightarrow>
     (\<exists>u\<in>set users. \<exists>t a bs us is. es = t # a # bs @ us @ is @ [pacing_marker] \<and>
        tx_step home lst u t lst' \<and> login users a \<and> burst_events home users (due (burst_every st) i) bs \<and>
        user_stuffing users (due (stuffing_user_every st) i) us \<and> ip_stuffing users (due (stuffing_ip_every st) i) is)"

lemma iteration_shapeI:
  "u \<in> set users \<Longrightarrow> tx_step home lst u t lst' \<Longrightarrow> login users a \<Longrightarrow> burst_events home users (due (burst_every st) i) bs \<Longrightarrow>
   user_stuffing users (due (stuffing_user_every st) i) us \<Longrightarrow> ip_stuffing users (due (stuffing_ip_every st) i) is \<Longrightarrow>
   iteration_shape st users home i lst (t # a # bs @ us @ is @ [pacing_marker]) lst'"
  unfolding iteration_shape_def by blast

fun traffic ::
  "SimulatorSettings \<Rightarrow> string list \<Rightarrow> homes \<Rightarrow> nat \<Rightarrow> (string \<rightharpoonup> TransactionEvent) \<Rightarrow> Emitted list list \<Rightarrow> bool" where
  "traffic st users home i lst [] = True"
| "traffic st users home i lst (es # ess) =
     (\<exists>lst'. iteration_shape st users home i lst es lst' \<and> traffic st users home (Suc i) lst' ess)"

lemma rounded_between:
  assumes "of_int a \<le> (x :: real)" and "x \<le> of_int b"
  shows "a \<le> round_half_even x \<and> round_half_even x \<le> b"
proof -
  have "a \<le> \<lfloor>x\<rfloor>" "\<lfloor>x\<rfloor> \<le> b" using assms by linarith+
  moreover have "\<lfloor>x\<rfloor> < b" if "x - of_int \<lfloor>x\<rfloor> > 0" using that assms(2) by linarith
  ultimately show ?thesis by (auto simp: round_half_even_def Let_def)
qed

lemma round2_between: "5 \<le> x \<Longrightarrow> x < 500 \<Longrightarrow> 5 \<le> round2 x \<and> round2 x \<le> 500"
  using rounded_between [of 500 "x * 100" 50000] by (auto simp: round2_def field_simps)

lemma location_known: "loc \<in> set LOCATIONS \<Longrightarrow> \<exists>lat lon. map_of LOCATION_COORDS loc = Some (lat, lon)"
  unfolding LOCATIONS_def by (metis list.set_map map_of_eq_None_iff option.exhaust surj_pair)

lemma elsewhere: "filter (\<lambda>l. l \<noteq> loc) LOCATIONS \<noteq> []"
  by (auto simp: LOCATIONS_def LOCATION_COORDS_def filter_empty_conv)

subsection \<open>The contract of a host\<close>

locale traffic_host =
  fixes H :: "'s host" and yield_event :: "Emitted \<Rightarrow> ('s, unit) action" and takes :: "'s \<Rightarrow> Emitted list \<Rightarrow> 's \<Rightarrow> bool"
  assumes takes_nothing: "takes s [] s"
    and takes_more: "takes s es s' \<Longrightarrow> takes s' es' s'' \<Longrightarrow> takes s (es @ es') s''"
    and random_range: "\<exists>x s'. rng_random H s = (Inr x, s') \<and> 0 \<le> x \<and> x < 1 \<and> takes s [] s'"
    and below_range: "0 < n \<Longrightarrow> \<exists>i s'. rng_below H n s = (Inr i, s') \<and> i < n \<and> takes s [] s'"
    and uuid_given: "\<exists>x s'. uuid4 H s = (Inr x, s') \<and> takes s [] s'"
    and clock_given: "\<exists>x s'. utc_now H s = (Inr x, s') \<and> takes s [] s'"
    and event_taken: "proper e \<Longrightarrow> \<exists>s'. yield_event e s = (Inr (), s') \<and> takes s [e] s'"
begin

text \<open>\<open>yields m R\<close>: \<open>m\<close> always returns, and \<open>R\<close> holds of its result and of the events it yielded.\<close>

definition yields :: "('s, 'a) action \<Rightarrow> ('a \<Rightarrow> Emitted list \<Rightarrow> bool) \<Rightarrow> bool" where
  "yields m R \<longleftrightarrow> (\<forall>s. \<exists>x s' es. m s = (Inr x, s') \<and> takes s es s' \<and> R x es)"

lemma yieldsD: "yields m R \<Longrightarrow> \<exists>x s' es. m s = (Inr x, s') \<and> takes s es s' \<and> R x es"
  by (simp add: yields_def)

lemma yields_ret: "R x [] \<Longrightarrow> yields (ret x) R"
  using takes_nothing by (auto simp: yields_def ret_def)

lemma yields_mono: "yields m R \<Longrightarrow> (\<And>x es. R x es \<Longrightarrow> Q x es) \<Longrightarrow> yields m Q"
  unfolding yields_def by meson

lemma yields_bindE:
  assumes "yields m R" and "\<And>x es. R x es \<Longrightarrow> yields (f x) (\<lambda>y es'. Q y (es @ es'))"
  shows "yields (bindE m f) Q"
  unfolding yields_def
proof
  fix s
  obtain x s1 es where m: "m s = (Inr x, s1)" "takes s es s1" "R x es"
    using yieldsD [OF assms(1)] by blast
  obtain y s2 es' where f: "f x s1 = (Inr y, s2)" "takes s1 es' s2" "Q y (es @ es')"
    using yieldsD [OF assms(2) [OF m(3)]] by blast
  from takes_more [OF m(2) f(2)] m(1) f(1,3) show "\<exists>y s' es. bindE m f s = (Inr y, s') \<and> takes s es s' \<and> Q y es"
    by (auto simp: bindE_def)
qed

lemma yields_random: "yields (rng_random H) (\<lambda>x es. es = [] \<and> 0 \<le> x \<and> x < 1)"
  unfolding yields_def using random_range by metis

lemma yields_uuid: "yields (uuid4 H) (\<lambda>x es. es = [])"
  unfolding yields_def using uuid_given by metis

lemma yields_clock: "yields (utc_now H) (\<lambda>x es. es = [])"
  unfolding yields_def using clock_given by metis

lemma yields_event: "proper e \<Longrightarrow> yields (yield_event e) (\<lambda>_ es. es = [e])"
  unfolding yields_def using event_taken by metis

lemma yields_choice:
  assumes "xs \<noteq> []"
  shows "yields (choice H xs) (\<lambda>x es. es = [] \<and> x \<in> set xs)"
proof -
  have below: "yields (rng_below H (length xs)) (\<lambda>i es. es = [] \<and> i < length xs)"
    unfolding yields_def using below_range [of "length xs"] assms by (metis length_greater_0_conv)
  show ?thesis
    using assms unfolding choice_def by (auto intro!: yields_bindE [OF below] yields_ret)
qed

lemma yields_uniform: "a < b \<Longrightarrow> yields (uniform H a b) (\<lambda>x es. es = [] \<and> a \<le> x \<and> x < b)"
  unfolding uniform_def
proof (rule yields_bindE [OF yields_random], rule yields_ret)
  fix x :: real and es :: "Emitted list"
  assume "a < b" and x: "es = [] \<and> 0 \<le> x \<and> x < 1"
  have 1: "(b - a) * x < b - a" using mult_strict_left_mono [of x 1 "b - a"] x \<open>a < b\<close> by simp
  have 2: "0 \<le> (b - a) * x" using x \<open>a < b\<close> by simp
  have "a \<le> a + (b - a) * x" using 2 by linarith
  moreover have "a + (b - a) * x < b" using 1 by linarith
  ultimately show "es @ [] = [] \<and> a \<le> a + (b - a) * x \<and> a + (b - a) * x < b" using x by simp
qed

text \<open>A loop whose body yields one event with a property.\<close>

lemma yields_forE:
  assumes "\<And>i. yields (f i) (\<lambda>_ es. \<exists>e. es = [e] \<and> P e)"
  shows "yields (forE f is) (\<lambda>_ es. length es = length is \<and> (\<forall>e\<in>set es. P e))"
proof (induction "is")
  case Nil
  show ?case by (auto intro!: yields_ret)
next
  case (Cons i "is")
  show ?case
    unfolding forE.simps
    by (rule yields_bindE [OF assms]) (auto intro!: yields_mono [OF Cons])
qed

lemma yields_transaction:
  assumes "loc \<in> set LOCATIONS"
  shows "yields (make_transaction H u loc) (\<lambda>tx es. es = [] \<and> made_for u loc tx)"
proof -
  obtain lat lon where c: "map_of LOCATION_COORDS loc = Some (lat, lon)" using location_known [OF assms] by blast
  have amount: "yields (uniform H 5 500) (\<lambda>x es. es = [] \<and> 5 \<le> x \<and> x < 500)" by (rule yields_uniform) simp
  have merchant: "yields (choice H MERCHANTS) (\<lambda>x es. es = [] \<and> x \<in> set MERCHANTS)"
    by (rule yields_choice) (simp add: MERCHANTS_def)
  show ?thesis
    unfolding make_transaction_def c option.case prod.case
    by (rule yields_bindE [OF yields_uuid], rule yields_bindE [OF amount], rule yields_bindE [OF merchant],
        rule yields_bindE [OF yields_clock], rule yields_ret)
      (use round2_between in \<open>auto simp: made_for_def c\<close>)
qed

lemma yields_auth:
  "yields (make_auth H u ip ok) (\<lambda>au es. es = [] \<and> au_user_id au = u \<and> au_ip_address au = ip \<and> au_success au = ok)"
  unfolding make_auth_def
  by (rule yields_bindE [OF yields_uuid], rule yields_bindE [OF yields_clock], rule yields_ret) auto

lemma yields_home:
  assumes "home u = Some loc"
  shows "home_of home u = ret loc"
  using assms by (simp add: home_of_def)

lemma yields_one_transaction:
  assumes "home u = Some loc" and "loc \<in> set LOCATIONS"
  shows "yields (one_transaction H yield_event st home lst u) (\<lambda>lst' es. \<exists>t. es = [t] \<and> tx_step home lst u t lst')"
proof -
  have again: "yields (bindE (yield_event (emitted_as (Tx tx) ''replay'')) (\<lambda>_. ret lst))
      (\<lambda>lst' es. \<exists>t. es = [t] \<and> tx_step home lst u t lst')" if "lst u = Some tx" for tx
    by (rule yields_bindE [OF yields_event], simp, rule yields_ret) (use that in \<open>auto simp: tx_step_def\<close>)
  have travel: "yields (bindE (choice H (filter (\<lambda>l. l \<noteq> loc) LOCATIONS)) (\<lambda>away. bindE (make_transaction H u away)
      (\<lambda>tx. bindE (yield_event (emitted_as (Tx tx) ''impossible_travel'')) (\<lambda>_. ret lst))))
      (\<lambda>lst' es. \<exists>t. es = [t] \<and> tx_step home lst u t lst')"
    by (rule yields_bindE [OF yields_choice [OF elsewhere]], rule yields_bindE [OF yields_transaction], force,
        rule yields_bindE [OF yields_event], simp, rule yields_ret)
      (use assms(1) in \<open>auto simp: tx_step_def\<close>)
  have normal: "yields (bindE (make_transaction H u loc) (\<lambda>tx. bindE (yield_event (emitted_as (Tx tx) ''normal''))
      (\<lambda>_. ret (lst(u \<mapsto> tx))))) (\<lambda>lst' es. \<exists>t. es = [t] \<and> tx_step home lst u t lst')"
    by (rule yields_bindE [OF yields_transaction [OF assms(2)]], rule yields_bindE [OF yields_event], simp, rule yields_ret)
      (use assms(1) in \<open>auto simp: tx_step_def\<close>)
  show ?thesis
    unfolding one_transaction_def yields_home [of home, OF assms(1)] bindE_ret
    by (rule yields_bindE [OF yields_random])
      (use again travel normal in \<open>auto split: option.splits\<close>)
qed

lemma yields_one_auth: "users \<noteq> [] \<Longrightarrow> yields (one_auth H yield_event st users) (\<lambda>_ es. \<exists>a. es = [a] \<and> login users a)"
  unfolding one_auth_def
  by (rule yields_bindE [OF yields_choice], assumption, rule yields_bindE [OF yields_random],
      rule yields_bindE [OF yields_choice], simp add: SAMPLE_IPS_def, rule yields_bindE [OF yields_auth],
      rule yields_mono [OF yields_event], simp)
    (auto simp: login_def)

lemma yields_burst:
  assumes "users \<noteq> []" and "\<forall>u\<in>set users. \<exists>loc\<in>set LOCATIONS. home u = Some loc"
  shows "yields (fraud_burst H yield_event home users) (\<lambda>_ es. burst_events home users True es)"
  unfolding fraud_burst_def
proof (rule yields_bindE [OF yields_choice [OF assms(1)]])
  fix u and es :: "Emitted list"
  assume u: "es = [] \<and> u \<in> set users"
  with assms(2) obtain loc where loc: "loc \<in> set LOCATIONS" "home u = Some loc" by blast
  have one: "yields (bindE (home_of home u) (\<lambda>loc. bindE (make_transaction H u loc)
      (\<lambda>tx. yield_event (emitted_as (Tx tx) ''fraud_burst'')))) (\<lambda>_ es. \<exists>e. es = [e] \<and> home_tx home u ''fraud_burst'' e)"
    unfolding yields_home [of home, OF loc(2)] bindE_ret
    by (rule yields_bindE [OF yields_transaction [OF loc(1)]], rule yields_mono [OF yields_event], simp)
      (use loc(2) in \<open>auto simp: home_tx_def\<close>)
  show "yields (forE (\<lambda>_. bindE (home_of home u) (\<lambda>loc. bindE (make_transaction H u loc)
      (\<lambda>tx. yield_event (emitted_as (Tx tx) ''fraud_burst'')))) [0..<BURST_SIZE]) (\<lambda>_ es'. burst_events home users True (es @ es'))"
    by (rule yields_mono [OF yields_forE [OF one]]) (use u in \<open>auto simp: burst_events_def\<close>)
qed

lemma yields_stuffing_user:
  assumes "users \<noteq> []"
  shows "yields (stuffing_user H yield_event users) (\<lambda>_ es. user_stuffing users True es)"
  unfolding stuffing_user_def
proof (rule yields_bindE [OF yields_choice [OF assms]])
  fix u and es :: "Emitted list"
  assume u: "es = [] \<and> u \<in> set users"
  have one: "yields (bindE (make_auth H u STUFFING_USER_IP False) (\<lambda>au. yield_event (emitted_as (Auth au) ''stuffing_user'')))
      (\<lambda>_ es. \<exists>e. es = [e] \<and> failed_login u STUFFING_USER_IP ''stuffing_user'' e)"
    by (rule yields_bindE [OF yields_auth], rule yields_mono [OF yields_event], simp) (auto simp: failed_login_def)
  show "yields (forE (\<lambda>_. bindE (make_auth H u STUFFING_USER_IP False) (\<lambda>au. yield_event (emitted_as (Auth au) ''stuffing_user'')))
      [0..<STUFFING_USER_FAILS]) (\<lambda>_ es'. user_stuffing users True (es @ es'))"
    by (rule yields_mono [OF yields_forE [OF one]]) (use u in \<open>auto simp: user_stuffing_def\<close>)
qed

lemma yields_stuffing_ip:
  assumes "users \<noteq> []"
  shows "yields (stuffing_ip H yield_event users) (\<lambda>_ es. ip_stuffing users True es)"
proof -
  have one: "yields (bindE (if users = [] then raise_exn (OtherError ''ZeroDivisionError'') else ret (users ! (i mod length users)))
      (\<lambda>uid. bindE (make_auth H uid STUFFING_ATTACK_IP False) (\<lambda>au. yield_event (emitted_as (Auth au) ''stuffing_ip''))))
      (\<lambda>_ es. \<exists>e. es = [e] \<and> (\<exists>u\<in>set users. failed_login u STUFFING_ATTACK_IP ''stuffing_ip'' e))" for i
    unfolding if_not_P [OF assms] bindE_ret
    by (rule yields_bindE [OF yields_auth], rule yields_mono [OF yields_event], simp)
      (use assms in \<open>auto simp: failed_login_def\<close>)
  show ?thesis
    unfolding stuffing_ip_def
    by (rule yields_mono [OF yields_forE [OF one]]) (auto simp: ip_stuffing_def)
qed

lemma yields_on: "yields m (\<lambda>_ es. R True es) \<Longrightarrow> R False [] \<Longrightarrow> yields (if b then m else ret ()) (\<lambda>_ es. R b es)"
  by (cases b) (simp_all add: yields_ret)

lemma yields_iteration:
  assumes "users \<noteq> []" and homes: "\<forall>u\<in>set users. \<exists>loc\<in>set LOCATIONS. home u = Some loc"
  shows "yields (iteration H yield_event st users home i lst) (\<lambda>lst' es. iteration_shape st users home i lst es lst')"
  unfolding iteration_def
proof (rule yields_bindE [OF yields_choice [OF assms(1)]])
  fix u and es0 :: "Emitted list"
  assume u: "es0 = [] \<and> u \<in> set users"
  with homes obtain loc where loc: "home u = Some loc" "loc \<in> set LOCATIONS" by blast
  note burst = yields_on [where R = "burst_events home users" and b = "due (burst_every st) i", OF yields_burst [OF assms]]
  note users = yields_on [where R = "user_stuffing users" and b = "due (stuffing_user_every st) i", OF yields_stuffing_user [OF assms(1)]]
  note ips = yields_on [where R = "ip_stuffing users" and b = "due (stuffing_ip_every st) i", OF yields_stuffing_ip [OF assms(1)]]
  show "yields (bindE (one_transaction H yield_event st home lst u) (\<lambda>last_tx'.
     bindE (one_auth H yield_event st users) (\<lambda>_.
     bindE (if due (burst_every st) i then fraud_burst H yield_event home users else ret ()) (\<lambda>_.
     bindE (if due (stuffing_user_every st) i then stuffing_user H yield_event users else ret ()) (\<lambda>_.
     bindE (if due (stuffing_ip_every st) i then stuffing_ip H yield_event users else ret ()) (\<lambda>_.
     bindE (yield_event pacing_marker) (\<lambda>_. ret last_tx')))))))
     (\<lambda>lst' es. iteration_shape st users home i lst (es0 @ es) lst')"
    by (rule yields_bindE [OF yields_one_transaction [of home, OF loc]], rule yields_bindE [OF yields_one_auth [OF assms(1)]],
        rule yields_bindE [OF burst], simp add: burst_events_def, rule yields_bindE [OF users], simp add: user_stuffing_def,
        rule yields_bindE [OF ips], simp add: ip_stuffing_def, rule yields_bindE [OF yields_event], simp, rule yields_ret)
      (use u in \<open>auto intro: iteration_shapeI\<close>)
qed

lemma yields_iterations:
  assumes "users \<noteq> []" and "\<forall>u\<in>set users. \<exists>loc\<in>set LOCATIONS. home u = Some loc"
  shows "yields (iterations H yield_event st users home i lst n)
    (\<lambda>_ es. \<exists>ess. es = concat ess \<and> length ess = n \<and> traffic st users home i lst ess)"
proof (induction n arbitrary: i lst)
  case 0
  show ?case by (auto intro!: yields_ret exI [of _ "[]"])
next
  case (Suc n)
  show ?case
    unfolding iterations.simps
  proof (rule yields_bindE [OF yields_iteration [OF assms]])
    fix lst' es
    assume es: "iteration_shape st users home i lst es lst'"
    show "yields (iterations H yield_event st users home (Suc i) lst' n)
      (\<lambda>_ es'. \<exists>ess. es @ es' = concat ess \<and> length ess = Suc n \<and> traffic st users home i lst ess)"
    proof (rule yields_mono [OF Suc.IH])
      fix x es'
      assume "\<exists>ess. es' = concat ess \<and> length ess = n \<and> traffic st users home (Suc i) lst' ess"
      then obtain ess where "es' = concat ess" "length ess = n" "traffic st users home (Suc i) lst' ess" by blast
      with es show "\<exists>ess. es @ es' = concat ess \<and> length ess = Suc n \<and> traffic st users home i lst ess"
        by (intro exI [of _ "es # ess"]) auto
    qed
  qed
qed

lemma yields_homes:
  "yields (mapE (\<lambda>_. choice H LOCATIONS) us) (\<lambda>locs es. es = [] \<and> length locs = length us \<and> set locs \<subseteq> set LOCATIONS)"
proof (induction us)
  case Nil
  show ?case by (auto intro!: yields_ret)
next
  case (Cons u us)
  have any: "LOCATIONS \<noteq> []" by (simp add: LOCATIONS_def LOCATION_COORDS_def)
  show ?case
    unfolding mapE.simps
    by (rule yields_bindE [OF yields_choice [OF any]], rule yields_bindE [OF Cons], rule yields_ret) auto
qed

lemma generates_traffic:
  assumes "user_ids st \<noteq> []"
  shows "yields (generate_events H yield_event st n)
    (\<lambda>_ es. \<exists>home ess. (\<forall>u\<in>set (user_ids st). \<exists>loc\<in>set LOCATIONS. home u = Some loc) \<and> es = concat ess \<and>
       length ess = n \<and> traffic st (user_ids st) home 1 Map.empty ess)"
  unfolding generate_events_def Let_def
proof (rule yields_bindE [OF yields_homes])
  fix locs and es :: "Emitted list"
  assume locs: "es = [] \<and> length locs = length (user_ids st) \<and> set locs \<subseteq> set LOCATIONS"
  let ?home = "map_of (zip (user_ids st) locs)"
  have homes: "\<forall>u\<in>set (user_ids st). \<exists>loc\<in>set LOCATIONS. ?home u = Some loc"
  proof
    fix u
    assume "u \<in> set (user_ids st)"
    with locs have "u \<in> dom ?home" by simp
    then obtain loc where loc: "?home u = Some loc" by blast
    then have "loc \<in> set locs" by (meson map_of_SomeD set_zip_rightD)
    with locs loc show "\<exists>loc\<in>set LOCATIONS. ?home u = Some loc" by blast
  qed
  show "yields (iterations H yield_event st (user_ids st) ?home 1 Map.empty n)
    (\<lambda>_ es'. \<exists>home ess. (\<forall>u\<in>set (user_ids st). \<exists>loc\<in>set LOCATIONS. home u = Some loc) \<and> es @ es' = concat ess \<and>
       length ess = n \<and> traffic st (user_ids st) home 1 Map.empty ess)"
    by (rule yields_mono [OF yields_iterations [OF assms homes]]) (use locs homes in auto)
qed

end

subsection \<open>Publishing the traffic\<close>

text \<open>What is documented of the host: every draw returns, within its range.\<close>

definition lawful_host :: "'h host \<Rightarrow> bool" where
  "lawful_host H \<longleftrightarrow>
     (\<forall>h. (\<exists>x h'. rng_random H h = (Inr x, h') \<and> 0 \<le> x \<and> x < 1) \<and>
        (\<forall>n>0. \<exists>i h'. rng_below H n h = (Inr i, h') \<and> i < n) \<and>
        (\<exists>x h'. uuid4 H h = (Inr x, h')) \<and> (\<exists>x h'. utc_now H h = (Inr x, h')))"

fun message :: "('h, 'k) simulator \<Rightarrow> event \<Rightarrow> kafka_msg" where
  "message S (Tx tx) = \<lparr>m_topic = tx_events_topic (si_kafka_config S), m_value = si_dump S (Tx tx), m_key = Some (tx_user_id tx)\<rparr>"
| "message S (Auth au) = \<lparr>m_topic = auth_events_topic (si_kafka_config S), m_value = si_dump S (Auth au), m_key = Some (au_user_id au)\<rparr>"

definition messages :: "('h, 'k) simulator \<Rightarrow> Emitted list \<Rightarrow> kafka_msg list" where
  "messages S es = map (message S) (List.map_filter em_event es)"

definition published :: "('h, 'k) simulator \<Rightarrow> ('h, 'k) sim_state \<Rightarrow> Emitted list \<Rightarrow> ('h, 'k) sim_state \<Rightarrow> bool" where
  "published S s es s' \<longleftrightarrow> uses (si_lib S) (messages S es) (sim_producer s) (sim_producer s') \<and>
     sent s' = sent s + length (messages S es)"

lemma messages_append [simp]: "messages S (es @ es') = messages S es @ messages S es'"
  by (simp add: messages_def List.map_filter_def)

lemma messages_simps [simp]:
  "messages S [] = []" "messages S (e # es) = (case em_event e of None \<Rightarrow> [] | Some ev \<Rightarrow> [message S ev]) @ messages S es"
  by (simp_all add: messages_def List.map_filter_def split: option.splits)

lemma published_host: "published S s [] (s\<lparr>sim_host := h\<rparr>)"
  by (simp add: published_def uses_nothing)

lemma send_used:
  assumes "\<forall>m c. fst (k_send (si_lib S) m c) \<in> {None, Some KafkaError}"
  shows "\<exists>p'. send_message (si_lib S) t v k p = (Inr (), p') \<and> uses (si_lib S) [\<lparr>m_topic = t, m_value = v, m_key = k\<rparr>] p p'"
proof -
  obtain r cbs c where k: "k_send (si_lib S) \<lparr>m_topic = t, m_value = v, m_key = k\<rparr> (p_client p) = (r, cbs, c)"
    by (cases "k_send (si_lib S) \<lparr>m_topic = t, m_value = v, m_key = k\<rparr> (p_client p)") auto
  with assms have "r \<in> {None, Some KafkaError}" by (metis fst_conv)
  with k obtain p' where "send_message (si_lib S) t v k p = (Inr (), p')" by (auto simp: send_message_def Let_def)
  with uses.uses_send [OF uses_nothing this] show ?thesis by auto
qed

lemma publish_takes:
  assumes "\<forall>m c. fst (k_send (si_lib S) m c) \<in> {None, Some KafkaError}"
    and "\<forall>t h. fst (si_pause S t h) = Inr ()" and "decision_url st = None" and "proper e"
  shows "\<exists>s'. publish S st e s = (Inr (), s') \<and> published S s [e] s'"
proof (cases "em_event e")
  case None
  then have "scenario e = ''__sleep__''" using assms(4) by (simp add: proper_def)
  moreover obtain h where "si_pause S (interval_seconds st) (sim_host s) = (Inr (), h)"
    using assms(2) by (metis prod.collapse)
  ultimately show ?thesis
    using None by (simp add: publish_def on_host_def published_def uses_nothing)
next
  case (Some ev)
  then have sc: "scenario e \<noteq> ''__sleep__''" using assms(4) by (simp add: proper_def)
  let ?m = "message S ev"
  obtain p' where p': "send_message (si_lib S) (m_topic ?m) (m_value ?m) (m_key ?m) (sim_producer s) = (Inr (), p')"
    "uses (si_lib S) [?m] (sim_producer s) p'"
    using send_used [OF assms(1), of "m_topic ?m" "m_value ?m" "m_key ?m" "sim_producer s"]
    by (cases ev) auto
  then have "publish S st e s = (Inr (), s\<lparr>sim_producer := p', sent := Suc (sent s)\<rparr>)"
    using sc Some assms(3)
    by (cases ev) (simp_all add: publish_def consult_def on_producer_def bindE_def count_sent_def)
  with p'(2) Some show ?thesis by (simp add: published_def)
qed

lemma publishing:
  fixes S :: "('h, 'k) simulator"
  assumes "lawful_host (si_host S)" and "\<forall>m c. fst (k_send (si_lib S) m c) \<in> {None, Some KafkaError}"
    and "\<forall>t h. fst (si_pause S t h) = Inr ()" and "decision_url st = None"
  shows "traffic_host (lift_host (si_host S) :: ('h, 'k) sim_state host) (publish S st) (published S)"
proof
  fix s s' s'' :: "('h, 'k) sim_state" and es es'
  show "published S s [] s" using published_host [of S s "sim_host s"] by simp
  show "published S s es s' \<Longrightarrow> published S s' es' s'' \<Longrightarrow> published S s (es @ es') s''"
    unfolding published_def using uses_trans by force
next
  fix s :: "('h, 'k) sim_state" and e and n :: nat
  show "\<exists>x s'. rng_random (lift_host (si_host S)) s = (Inr x, s') \<and> 0 \<le> x \<and> x < 1 \<and> published S s [] s'"
    "\<exists>x s'. uuid4 (lift_host (si_host S)) s = (Inr x, s') \<and> published S s [] s'"
    "\<exists>x s'. utc_now (lift_host (si_host S)) s = (Inr x, s') \<and> published S s [] s'"
    "0 < n \<Longrightarrow> \<exists>i s'. rng_below (lift_host (si_host S)) n s = (Inr i, s') \<and> i < n \<and> published S s [] s'"
    using assms(1) published_host [of S s] unfolding lawful_host_def lift_host_def on_host_def
    by (simp_all split: prod.splits) (metis prod.inject)+
  show "proper e \<Longrightarrow> \<exists>s'. publish S st e s = (Inr (), s') \<and> published S s [e] s'"
    by (rule publish_takes [OF assms(2-4)])
qed



subsection \<open>Origins\<close>

text \<open>
  The scenario tag of an event tells where it comes from: this is what lines up the simulator's
  output with detections.
\<close>

definition tagged :: "string list \<Rightarrow> homes \<Rightarrow> Emitted list \<Rightarrow> Emitted \<Rightarrow> bool" where
  "tagged users home prior e \<longleftrightarrow>
     e = pacing_marker \<or> login users e \<or>
     (\<exists>u\<in>set users.
        home_tx home u ''normal'' e \<or> home_tx home u ''fraud_burst'' e \<or>
        failed_login u STUFFING_USER_IP ''stuffing_user'' e \<or> failed_login u STUFFING_ATTACK_IP ''stuffing_ip'' e \<or>
        (\<exists>tx loc. made_for u loc tx \<and> home u \<noteq> Some loc \<and> e = emitted_as (Tx tx) ''impossible_travel'') \<or>
        (\<exists>tx. emitted_as (Tx tx) ''normal'' \<in> set prior \<and> tx_user_id tx = u \<and> e = emitted_as (Tx tx) ''replay''))"

fun all_tagged :: "string list \<Rightarrow> homes \<Rightarrow> Emitted list \<Rightarrow> Emitted list \<Rightarrow> bool" where
  "all_tagged users home prior [] = True"
| "all_tagged users home prior (e # es) = (tagged users home prior e \<and> all_tagged users home (prior @ [e]) es)"

lemma tagged_more: "tagged users home prior e \<Longrightarrow> set prior \<subseteq> set prior' \<Longrightarrow> tagged users home prior' e"
  unfolding tagged_def by blast

lemma all_tagged_append:
  "all_tagged users home prior (es @ es') \<longleftrightarrow> all_tagged users home prior es \<and> all_tagged users home (prior @ es) es'"
  by (induction es arbitrary: prior) auto

lemma all_tagged_each: "\<forall>e\<in>set es. tagged users home prior e \<Longrightarrow> all_tagged users home prior es"
proof (induction es arbitrary: prior)
  case (Cons e es)
  have "tagged users home (prior @ [e]) x" if "x \<in> set es" for x
    using tagged_more [of users home prior x "prior @ [e]"] Cons.prems that by auto
  with Cons show ?case by simp
qed simp

text \<open>The last transaction of a user was published as a normal one before.\<close>

definition remembered :: "(string \<rightharpoonup> TransactionEvent) \<Rightarrow> Emitted list \<Rightarrow> bool" where
  "remembered lst prior \<longleftrightarrow>
     (\<forall>u tx. lst u = Some tx \<longrightarrow> emitted_as (Tx tx) ''normal'' \<in> set prior \<and> tx_user_id tx = u)"

lemma step_tagged:
  assumes "tx_step home lst u t lst'" and "remembered lst prior" and "u \<in> set users"
  shows "tagged users home prior t" and "remembered lst' (prior @ [t])"
proof -
  from assms show "tagged users home prior t"
    unfolding tx_step_def tagged_def remembered_def home_tx_def by blast
  from assms show "remembered lst' (prior @ [t])"
    by (auto simp: tx_step_def remembered_def made_for_def split: if_splits)
qed

lemma shape_tagged:
  assumes "iteration_shape st users home i lst es lst'" and "remembered lst prior"
  shows "all_tagged users home prior es" and "remembered lst' (prior @ es)"
proof -
  obtain u t a bs us "is" where u: "u \<in> set users" and es: "es = [t] @ (a # bs @ us @ is @ [pacing_marker])"
    and t: "tx_step home lst u t lst'" and rest: "login users a" "burst_events home users (due (burst_every st) i) bs"
      "user_stuffing users (due (stuffing_user_every st) i) us" "ip_stuffing users (due (stuffing_ip_every st) i) is"
    using assms(1) unfolding iteration_shape_def by auto
  note step = step_tagged [OF t assms(2) u]
  have "\<forall>e\<in>set (a # bs @ us @ is @ [pacing_marker]). tagged users home (prior @ [t]) e"
    using rest by (auto simp: tagged_def burst_events_def user_stuffing_def ip_stuffing_def split: if_splits)
  from all_tagged_each [OF this] step(1) show "all_tagged users home prior es"
    unfolding es all_tagged_append by simp
  from step(2) show "remembered lst' (prior @ es)" unfolding es by (auto simp: remembered_def)
qed

lemma traffic_tagged:
  "traffic st users home i lst ess \<Longrightarrow> remembered lst prior \<Longrightarrow> all_tagged users home prior (concat ess)"
proof (induction ess arbitrary: i lst prior)
  case Nil
  show ?case by simp
next
  case (Cons es ess)
  then obtain lst' where s: "iteration_shape st users home i lst es lst'" and r: "traffic st users home (Suc i) lst' ess"
    by auto
  from shape_tagged [OF s Cons.prems(2)] Cons.IH [OF r] show ?case by (simp add: all_tagged_append)
qed

text \<open>A consumer that keeps the events in a list.\<close>

definition beside :: "('h, 'a) action \<Rightarrow> ('h \<times> Emitted list, 'a) action" where
  "beside m s = (case m (fst s) of (r, h) \<Rightarrow> (r, (h, snd s)))"

definition recording :: "'h host \<Rightarrow> ('h \<times> Emitted list) host" where
  "recording H = \<lparr>rng_random = beside (rng_random H), rng_below = (\<lambda>n. beside (rng_below H n)),
     uuid4 = beside (uuid4 H), utc_now = beside (utc_now H)\<rparr>"

definition record_event :: "Emitted \<Rightarrow> ('h \<times> Emitted list, unit) action" where
  "record_event e s = (Inr (), (fst s, snd s @ [e]))"

lemma recorded:
  assumes "lawful_host H"
  shows "traffic_host (recording H) record_event (\<lambda>s es s'. snd s' = snd s @ es)"
proof
  fix s :: "'a \<times> Emitted list" and n :: nat
  show "\<exists>x s'. rng_random (recording H) s = (Inr x, s') \<and> 0 \<le> x \<and> x < 1 \<and> snd s' = snd s @ []"
    "\<exists>x s'. uuid4 (recording H) s = (Inr x, s') \<and> snd s' = snd s @ []"
    "\<exists>x s'. utc_now (recording H) s = (Inr x, s') \<and> snd s' = snd s @ []"
    "0 < n \<Longrightarrow> \<exists>i s'. rng_below (recording H) n s = (Inr i, s') \<and> i < n \<and> snd s' = snd s @ []"
    using assms unfolding lawful_host_def recording_def beside_def
    by (simp_all split: prod.splits) (metis prod.inject)+
qed (simp_all add: record_event_def)

text \<open>
  (C36) The scenario tags tell the truth: with at least one user and draws in range, every number of
  iterations of the generator returns, and each event is what its tag says, given the home cities:
  a replay repeats verbatim a transaction of the same user that was emitted as normal before, an
  impossible travel is a transaction from a known city other than home, normal and burst
  transactions come from home, with an amount from 5 to 500 and a known merchant, and stuffing
  events are failed logins from the two attack addresses.
\<close>

theorem scenario_tags_truthful:
  assumes "0 < num_users st" and "lawful_host H"
  shows "\<exists>h' es home. generate_events (recording H) record_event st n (h, []) = (Inr (), (h', es)) \<and>
    (\<forall>u\<in>set (user_ids st). \<exists>loc\<in>set LOCATIONS. home u = Some loc) \<and> all_tagged (user_ids st) home [] es"
proof -
  have users: "user_ids st \<noteq> []" using assms(1) by (simp add: user_ids_def)
  note host = recorded [OF assms(2)]
  obtain s' home ess where "generate_events (recording H) record_event st n (h, []) = (Inr (), s')" "snd s' = concat ess"
    "\<forall>u\<in>set (user_ids st). \<exists>loc\<in>set LOCATIONS. home u = Some loc" "traffic st (user_ids st) home 1 Map.empty ess"
    using traffic_host.yieldsD [OF host traffic_host.generates_traffic [OF host users, of n], of "(h, [])"] by auto
  moreover have "remembered Map.empty []" by (simp add: remembered_def)
  moreover obtain h' es where "s' = (h', es)" by fastforce
  ultimately show ?thesis
    using traffic_tagged by (intro exI [of _ h'] exI [of _ es] exI [of _ home]) auto
qed

subsection \<open>A host that counts\<close>

definition counting_host :: "nat host" where
  "counting_host = \<lparr>rng_random = (\<lambda>n. (Inr (real (n mod 100) / 100), Suc n)), rng_below = (\<lambda>k n. (Inr (n mod k), Suc n)),
     uuid4 = (\<lambda>n. (Inr (show_nat n), Suc n)), utc_now = (\<lambda>n. (Inr \<lparr>isoformat = show_nat n, timestamp = real n\<rparr>, n))\<rparr>"

definition counting_simulator :: "(nat, ledger) simulator" where
  "counting_simulator = \<lparr>si_host = counting_host, si_pause = (\<lambda>t n. (Inr (), Suc n)), si_post = (\<lambda>u v n. (Inr [], n)),
     si_lib = ledger_lib, si_kafka_config = default_kafka_config, si_dump = (\<lambda>ev. JNull)\<rparr>"

lemma counting_lawful: "lawful_host counting_host"
proof -
  have "\<exists>x :: real. real (n mod 100) = x * 100 \<and> 0 \<le> x \<and> x < 1" for n
    by (intro exI [of _ "real (n mod 100) / 100"]) simp
  then show ?thesis by (simp add: lawful_host_def counting_host_def)
qed

lemma counting_healthy:
  "\<forall>m c. fst (k_send (si_lib counting_simulator) m c) \<in> {None, Some KafkaError}"
  "\<forall>t h. fst (si_pause counting_simulator t h) = Inr ()" "si_host counting_simulator = counting_host"
  by (simp_all add: counting_simulator_def ledger_lib_def)

interpretation counting: traffic_host "lift_host counting_host" "publish counting_simulator default_simulator_settings"
    "published counting_simulator"
  using publishing [of counting_simulator default_simulator_settings] counting_lawful counting_healthy
  by (simp add: default_simulator_settings_def)


theorem scenario_tags_truthful_witness:
  "\<exists>h' es home. generate_events (recording counting_host) record_event default_simulator_settings 7 (0, []) = (Inr (), (h', es)) \<and>
     all_tagged (user_ids default_simulator_settings) home [] es"
  using scenario_tags_truthful [of default_simulator_settings counting_host 7 0] counting_lawful
  by (auto simp: default_simulator_settings_def)

subsection \<open>No users\<close>

text \<open>Without users the generator fails at its first draw, before it has yielded anything.\<close>

lemma no_users:
  assumes "num_users st \<le> 0"
  shows "generate_events H yield_event st (Suc n) s = (Inl (OtherError ''IndexError''), s)"
  using assms by (simp add: generate_events_def user_ids_def iteration_def choice_def raise_exn_def)

end
