(* ===== verification/AtLeastOnce.thy ===== *)
theory AtLeastOnce
  imports DetectionTheorems
begin

text \<open>
  At least once, from end to end: what was delivered stays delivered, so at the end of a run of an
  engine everything that is owed for a committed record has been delivered, however many batches
  came after it and however the run ended.
\<close>

subsection \<open>What was delivered stays delivered\<close>

definition delivers_more :: "('k \<Rightarrow> kafka_msg list) \<Rightarrow> ('r, 'k producer) world \<Rightarrow> ('r, 'k producer) world \<Rightarrow> bool" where
  "delivers_more delivered w w' \<longleftrightarrow> set (delivered (p_client (w_out w))) \<subseteq> set (delivered (p_client (w_out w')))"

abbreviation keeps_delivered :: "('k \<Rightarrow> kafka_msg list) \<Rightarrow> ('r, 'k, 'c) service \<Rightarrow> ('r, 'k, 'c) service \<Rightarrow> bool" where
  "keeps_delivered delivered s s' \<equiv> delivers_more delivered (sv_world s) (sv_world s')"

context kafka_producer
begin

lemma send_keeps: "set (delivered (p_client p)) \<subseteq> set (delivered (p_client (snd (send_message K t v k p))))"
proof -
  obtain r cbs c where s: "k_send K \<lparr>m_topic = t, m_value = v, m_key = k\<rparr> (p_client p) = (r, cbs, c)"
    by (cases "k_send K \<lparr>m_topic = t, m_value = v, m_key = k\<rparr> (p_client p)") auto
  from sent [OF s] show ?thesis by (auto simp: send_message_def s Let_def on_error_def split: option.splits)
qed

lemma flush_keeps: "set (delivered (p_client p)) \<subseteq> set (delivered (p_client (snd (flush_and_verify K p))))"
proof -
  obtain r cbs c where f: "k_flush K (p_client p) = (r, cbs, c)" by (cases "k_flush K (p_client p)") auto
  from flushed [OF f] show ?thesis by (auto simp: flush_and_verify_def f Let_def split: option.splits)
qed

lemma out_keeps:
  assumes "\<And>p. set (delivered (p_client p)) \<subseteq> set (delivered (p_client (snd (m p))))"
  shows "leads (delivers_more delivered) (on_out m)"
  using assms by (simp add: leads_def delivers_more_def on_out_def split_beta)

lemma pipeline_keeps: "pipeline_effects (delivers_more delivered) K"
proof unfold_locales
  fix w v u :: "('r, 'k producer) world"
  show "delivers_more delivered w w" by (simp add: delivers_more_def)
  show "delivers_more delivered w v \<Longrightarrow> delivers_more delivered v u \<Longrightarrow> delivers_more delivered w u"
    by (auto simp: delivers_more_def)
  show "delivers_more delivered w (w\<lparr>w_redis := s\<rparr>)" for s by (simp add: delivers_more_def)
  show "leads (delivers_more delivered :: ('r, 'k producer) world \<Rightarrow> _) (on_out (send_message K t m k))" for t m k
    by (intro out_keeps send_keeps)
  show "leads (delivers_more delivered :: ('r, 'k producer) world \<Rightarrow> _) (inc x)" for x
    by (simp add: leads_def delivers_more_def inc_def)
qed

end

sublocale kafka_producer \<subseteq> kept: pipeline_effects "delivers_more delivered" K
  by (rule pipeline_keeps)

context kafka_producer
begin

lemma world_keeps: "leads (delivers_more delivered) m \<Longrightarrow> leads (keeps_delivered delivered) (on_world m)"
  by (auto simp: leads_def on_world_def split: prod.splits) (metis snd_conv)

lemma loop_keeps:
  fixes E :: "('r, 'k, 'c) loop_env"
  assumes E: "le_lib E = K" and h: "\<And>ds. leads (delivers_more delivered) (le_handler E ds)"
  shows "loop_effects (keeps_delivered delivered) E"
proof unfold_locales
  fix s t u :: "('r, 'k, 'c) service"
  let ?R = "keeps_delivered delivered :: ('r, 'k, 'c) service \<Rightarrow> ('r, 'k, 'c) service \<Rightarrow> bool"
  show "?R s s" "?R s t \<Longrightarrow> ?R t u \<Longrightarrow> ?R s u" by (auto simp: delivers_more_def)
  show "leads ?R is_set" by (auto simp: leads_def is_set_def delivers_more_def split: option.splits nat.splits)
  show "leads ?R (sleep x)" for x by (simp add: leads_def sleep_def delivers_more_def)
  show "?R s (s\<lparr>sv_consumer := c\<rparr>)" for c by (simp add: delivers_more_def)
  show "?R s (reset E s)"
    by (simp add: delivers_more_def reset_def on_world_def on_out_def reset_send_errors_def)
  show "leads ?R (on_world (on_out (send_message (le_lib E) topic v k)))" for topic v k
    unfolding E by (intro world_keeps out_keeps send_keeps)
  show "leads ?R (on_world (on_out (flush_and_verify (le_lib E))))"
    unfolding E by (intro world_keeps out_keeps flush_keeps)
  show "leads ?R (on_world (inc x))" for x by (simp add: leads_def delivers_more_def inc_def on_world_def)
  show "leads ?R (on_world (le_handler E ds))" for ds by (rule world_keeps [OF h])
  show "?R s (stop_clients E s)"
    using flushed [of "p_client (prod_of s)"] E
    by (auto simp: delivers_more_def stop_clients_def Let_def split: prod.splits)
qed

end

context kafka_producer
begin

lemma detection_keeps:
  "loop_effects (keeps_delivered delivered) (detection_engine K model_dump P poll commit_offsets now str)"
  by (intro loop_keeps) (simp_all add: kept.leads_detection_handler out_keeps flush_keeps)

lemma containment_keeps:
  "loop_effects (keeps_delivered delivered) (containment_engine K kcfg rcfg rc model_validate fuel poll commit_offsets now str)"
  by (intro loop_keeps) (simp_all add: containment_engine_def per_record_def kept.leads_per_record kept.leads_containment_record)

end

subsection \<open>What is owed for a batch\<close>

text \<open>
  For a batch of the detection engine that was handled from \<open>s\<close> to \<open>s'\<close>: a dead letter for every record
  that cannot be decoded, and what the run of the handler in the last attempt owes for the others.
\<close>

definition detections_settled ::
  "('r, 'k, 'c) loop_env \<Rightarrow> (DetectionEvent \<Rightarrow> json) \<Rightarrow> ('r, 'k producer) DetectionPipeline \<Rightarrow> kafka_msg set \<Rightarrow>
   krecord list \<Rightarrow> ('r, 'k, 'c) service \<Rightarrow> ('r, 'k, 'c) service \<Rightarrow> bool" where
  "detections_settled E model_dump P D records s s' \<longleftrightarrow>
     (case classify records of (decoded, poison, skipped) \<Rightarrow>
        let letter = dlq_msg E (dlq_topic (dp_kafka_config P))
        in letter ` set poison \<subseteq> D \<and>
           (decoded \<noteq> [] \<longrightarrow>
              (\<exists>w. last_attempt E records s w s' \<and> batch_settled (le_lib E) model_dump P letter D decoded w)))"

lemma batch_settled_mono:
  assumes "batch_settled K model_dump P letter D decoded w" and "D \<subseteq> D'"
  shows "batch_settled K model_dump P letter D' decoded w"
proof -
  note owed = detection.owed_mono [of K model_dump P w "map to_decoded decoded" _ D D']
  have letters: "x \<in> D \<Longrightarrow> x \<in> D'" for x using assms(2) by blast
  show ?thesis
  proof (cases "fst (detection_handler K (detection_pipeline K model_dump P) (map to_decoded decoded) w)")
    case (Inl e)
    with assms(1) letters show ?thesis by (simp add: batch_settled_def)
  next
    case (Inr x)
    with assms owed letters show ?thesis by (cases x) (simp_all add: batch_settled_def)
  qed
qed

lemma detections_settled_mono:
  assumes "detections_settled E model_dump P D b s s'" and "D \<subseteq> D'"
  shows "detections_settled E model_dump P D' b s s'"
proof (cases "classify b")
  case (fields decoded poison skipped)
  let ?letter = "dlq_msg E (dlq_topic (dp_kafka_config P))"
  from assms(1) have "?letter ` set poison \<subseteq> D"
    and "decoded \<noteq> [] \<Longrightarrow> \<exists>w. last_attempt E b s w s' \<and> batch_settled (le_lib E) model_dump P ?letter D decoded w"
    by (simp_all add: detections_settled_def fields Let_def)
  with assms(2) batch_settled_mono [OF _ assms(2)] show ?thesis
    unfolding detections_settled_def fields Let_def prod.case by blast
qed

lemma handled_settled:
  assumes "kafka_producer K delivered pending" and "dlq_topic (dp_kafka_config P) \<noteq> []"
    and "E = detection_engine K model_dump P poll commit_offsets now str"
    and "handle_batch_with_retry E n b s = (Inr (Some ()), s')"
  shows "detections_settled E model_dump P (set (delivered (p_client (prod_of s')))) b s s'"
proof (cases "classify b")
  case cl: (fields decoded poison skipped)
  have "le_lib E = K" by (simp add: assms(3))
  with detections_delivered_first [OF assms(1-3) cl _ assms(4) refl refl] show ?thesis
    unfolding detections_settled_def cl Let_def by (cases "decoded = [] \<and> poison = []") auto
qed

text \<open>For a record of the containment engine: the audit record of its detection, or a dead letter.\<close>

definition record_settled ::
  "KafkaConfig \<Rightarrow> (json \<Rightarrow> exn + DetectionEvent) \<Rightarrow> (krecord \<times> exn \<Rightarrow> kafka_msg) \<Rightarrow> kafka_msg set \<Rightarrow> krecord \<Rightarrow> bool" where
  "record_settled kcfg model_validate letter D r \<longleftrightarrow>
     decode_json (r_value r) = Inr JNull \<or>
     (\<exists>v d actions. decode_json (r_value r) = Inr v \<and> model_validate v = Inr d \<and> audit_msg kcfg d actions \<in> D) \<or>
     (\<exists>e. letter (r, e) \<in> D)"

lemma record_settled_mono:
  "record_settled kcfg mv letter D r \<Longrightarrow> D \<subseteq> D' \<Longrightarrow> record_settled kcfg mv letter D' r"
  unfolding record_settled_def by blast

subsection \<open>Committed means delivered\<close>

lemma detection_commits_delivered:
  assumes kp: "kafka_producer K delivered pending" and dlq: "dlq_topic (dp_kafka_config P) \<noteq> []"
    and E: "E = detection_engine K model_dump P journal_poll journal_commit now str"
    and run: "run_consumer_loop E n m s = (q, s')"
  shows "\<exists>bs. map fst (j_commits (sv_consumer s')) = map fst (j_commits (sv_consumer s)) @ map offsets_of bs \<and>
    prefix bs (batches (j_polls (sv_consumer s))) \<and>
    (\<forall>b\<in>set bs. \<exists>t t'. arrives E n s b t \<and> handle_batch_with_retry E n b t = (Inr (Some ()), t') \<and>
       detections_settled E model_dump P (set (delivered (p_client (prod_of s')))) b t t')"
proof -
  have bh: "batch_handler K (le_handler E) (owes_detections K model_dump P)"
    unfolding E detection_engine_sel by (rule detection.batch_handler_axioms)
  have j: "le_poll E = journal_poll" "le_commit E = journal_commit" by (simp_all add: E detection_engine_def)
  have "loop_effects (keeps_delivered delivered) E" unfolding E by (rule kafka_producer.detection_keeps [OF kp])
  from consumer_loop_commits [OF this bh j run] obtain bs where bs: "committed (keeps_delivered delivered) E n s s' bs" by blast
  have "\<exists>t t'. arrives E n s b t \<and> handle_batch_with_retry E n b t = (Inr (Some ()), t') \<and>
      detections_settled E model_dump P (set (delivered (p_client (prod_of s')))) b t t'" if "b \<in> set bs" for b
  proof -
    from bs that obtain t t' where at: "arrives E n s b t" and h: "handle_batch_with_retry E n b t = (Inr (Some ()), t')"
      and since: "keeps_delivered delivered t' s'" unfolding committed_def by blast
    from detections_settled_mono [OF handled_settled [OF kp dlq E h]] since
    have "detections_settled E model_dump P (set (delivered (p_client (prod_of s')))) b t t'"
      by (simp add: delivers_more_def)
    with at h show ?thesis by blast
  qed
  with bs show ?thesis by (intro exI [of _ bs]) (auto simp: committed_def)
qed

lemma containment_commits_delivered:
  assumes kp: "kafka_producer K delivered pending" and dlq: "dlq_topic kcfg \<noteq> []"
    and E: "E = containment_engine K kcfg rcfg rc model_validate fuel journal_poll journal_commit now str"
    and run: "run_consumer_loop E n m s = (q, s')"
  shows "\<exists>bs. map fst (j_commits (sv_consumer s')) = map fst (j_commits (sv_consumer s)) @ map offsets_of bs \<and>
    prefix bs (batches (j_polls (sv_consumer s))) \<and>
    (\<forall>r\<in>set (concat bs). record_settled kcfg model_validate (dlq_msg E (dlq_topic kcfg))
       (set (delivered (p_client (prod_of s')))) r)"
proof -
  have bh: "batch_handler K (le_handler E) (\<lambda>_. all_owed (owes_audit kcfg model_validate) 0)"
    unfolding E containment_engine_sel by (rule containment.each.batch_handler_axioms)
  have j: "le_poll E = journal_poll" "le_commit E = journal_commit" by (simp_all add: E)
  have "loop_effects (keeps_delivered delivered) E" unfolding E by (rule kafka_producer.containment_keeps [OF kp])
  from consumer_loop_commits [OF this bh j run] obtain bs where bs: "committed (keeps_delivered delivered) E n s s' bs" by blast
  have "record_settled kcfg model_validate (dlq_msg E (dlq_topic kcfg)) (set (delivered (p_client (prod_of s')))) r"
    if "b \<in> set bs" "r \<in> set b" for b r
  proof -
    from bs that obtain t t' where h: "handle_batch_with_retry E n b t = (Inr (Some ()), t')"
      and since: "keeps_delivered delivered t' s'" unfolding committed_def by blast
    have "record_settled kcfg model_validate (dlq_msg E (dlq_topic kcfg)) (set (delivered (p_client (prod_of t')))) r"
      using containment_loses_nothing [OF kp dlq E h that(2)] unfolding record_settled_def by blast
    with record_settled_mono since show ?thesis by (auto simp: delivers_more_def)
  qed
  with bs show ?thesis by (intro exI [of _ bs]) (auto simp: committed_def)
qed

end
