(* ===== verification/LoopLiveness.thy ===== *)
theory LoopLiveness
  imports DetectionTheorems LoopOrder
begin




lemma reset_until [simp]: "sv_until (reset E s) = sv_until s"
  by (simp add: reset_def on_world_def split_beta)


text \<open>A backoff that calls for another attempt has read the event twice.\<close>

lemma is_set_False:
  "is_set s = (Inr False, s') \<Longrightarrow> sv_until s = Some j \<Longrightarrow> \<exists>i<j. sv_until s' = Some i"
  by (auto simp: is_set_def split: option.splits nat.splits)












end
