(* ===== verification/Engines.thy ===== *)
theory Engines
  imports AtLeastOnce Environment LoopLiveness ApiProps
begin

text \<open>
  Starting the two engines: \<open>detection_engine/consumer.py\<close> and \<open>containment_engine/consumer.py\<close> read
  their configuration from the environment, open their clients (\<open>create_consumer\<close> and
  \<open>create_producer\<close> of \<open>common/kafka_client.py\<close>, \<open>create_redis_client\<close> of \<open>common/redis_client.py\<close>), build
  their pipeline and enter the consumer loop. The constructors of the client libraries are an
  argument, \<open>cluster\<close>: each is called with options and may raise. What was called is kept in a log.
  The serialisers the producer is given are part of \<open>send_message\<close> (theory \<open>KafkaClient\<close>), whose messages
  hold the JSON value and the key; the consumer is given no deserialiser, and no rebalance listener. A
  result \<open>None\<close> is a setting whose reading is not modelled, or a loop that used up its fuel.
\<close>

subsection \<open>Clients\<close>

record producer_options =
  po_bootstrap_servers :: string
  po_linger_ms :: int
  po_batch_size :: int
  po_compression_type :: string
  po_acks :: string
  po_enable_idempotence :: bool
  po_max_in_flight_requests_per_connection :: int

record consumer_options =
  co_bootstrap_servers :: string
  co_group_id :: string
  co_auto_offset_reset :: string
  co_enable_auto_commit :: bool
  co_max_poll_records :: int
  co_fetch_min_bytes :: int
  co_fetch_max_wait_ms :: int

record pool_options =
  pool_host :: string
  pool_port :: int
  pool_db :: int
  pool_decode_responses :: bool
  pool_max_connections :: int
  pool_socket_keepalive :: bool

datatype startup =
    ServesMetrics int
  | OpensConsumer consumer_options
  | Subscribes "string list"
  | OpensProducer producer_options
  | OpensPool pool_options

type_synonym 'a starting = "(startup list, 'a option) action"

definition from_reading :: "'a reading \<Rightarrow> 'a starting" where
  "from_reading r = (case r of None \<Rightarrow> ret None | Some (Inl e) \<Rightarrow> raise_exn e | Some (Inr x) \<Rightarrow> ret (Some x))"

definition calls :: "(startup \<Rightarrow> exn option) \<Rightarrow> startup \<Rightarrow> unit starting" where
  "calls cluster c opened = (case cluster c of None \<Rightarrow> (Inr (Some ()), opened @ [c]) | Some e \<Rightarrow> (Inl e, opened @ [c]))"

definition create_producer :: "(startup \<Rightarrow> exn option) \<Rightarrow> environment \<Rightarrow> KafkaConfig option \<Rightarrow> unit starting" where
  "create_producer cluster env config =
     bindO (case config of Some cfg \<Rightarrow> ret (Some cfg) | None \<Rightarrow> from_reading (kafka_config_from_env env)) (\<lambda>cfg.
     calls cluster (OpensProducer \<lparr>
       po_bootstrap_servers = bootstrap_servers cfg,
       po_linger_ms = 5,
       po_batch_size = 65536,
       po_compression_type = ''lz4'',
       po_acks = ''all'',
       po_enable_idempotence = True,
       po_max_in_flight_requests_per_connection = 1\<rparr>))"

datatype topic_arg = OneTopic string | Topics "string list"

definition create_consumer ::
  "(startup \<Rightarrow> exn option) \<Rightarrow> environment \<Rightarrow> topic_arg \<Rightarrow> string \<Rightarrow> KafkaConfig option \<Rightarrow> unit starting" where
  "create_consumer cluster env topic group_id config =
     bindO (case config of Some cfg \<Rightarrow> ret (Some cfg) | None \<Rightarrow> from_reading (kafka_config_from_env env)) (\<lambda>cfg.
     let topics = (case topic of OneTopic t \<Rightarrow> [t] | Topics ts \<Rightarrow> ts)
     in bindO (calls cluster (OpensConsumer \<lparr>
          co_bootstrap_servers = bootstrap_servers cfg,
          co_group_id = group_id,
          co_auto_offset_reset = ''earliest'',
          co_enable_auto_commit = False,
          co_max_poll_records = max_poll_records cfg,
          co_fetch_min_bytes = fetch_min_bytes cfg,
          co_fetch_max_wait_ms = fetch_max_wait_ms cfg\<rparr>)) (\<lambda>_.
        calls cluster (Subscribes topics)))"

definition create_redis_client :: "(startup \<Rightarrow> exn option) \<Rightarrow> environment \<Rightarrow> RedisConfig option \<Rightarrow> unit starting" where
  "create_redis_client cluster env config =
     bindO (case config of Some cfg \<Rightarrow> ret (Some cfg) | None \<Rightarrow> from_reading (redis_config_from_env env)) (\<lambda>cfg.
     calls cluster (OpensPool \<lparr>
       pool_host = host cfg, pool_port = port cfg, pool_db = db cfg, pool_decode_responses = True,
       pool_max_connections = 20, pool_socket_keepalive = True\<rparr>))"

text \<open>
  With the handlers installed, a SIGINT or SIGTERM sets the shutdown event. When it comes is an
  argument: the number of further readings of the event that do not see it yet.
\<close>

definition install_signal_handlers :: "nat option \<Rightarrow> ('r, 'k, 'c) service \<Rightarrow> ('r, 'k, 'c) service" where
  "install_signal_handlers signal_after s = s\<lparr>sv_until := signal_after\<rparr>"

subsection \<open>The engines\<close>

text \<open>
  The state of the clients when they are opened, the signal, and the fuel of the two loops.
\<close>

record ('r, 'k, 'c) process =
  pr_redis :: 'r
  pr_producer :: 'k
  pr_consumer :: 'c
  pr_signal_after :: "nat option"
  pr_attempts :: nat
  pr_rounds :: nat

definition fresh_service :: "('r, 'k, 'c) process \<Rightarrow> ('r, 'k, 'c) service" where
  "fresh_service X = \<lparr>
     sv_world = \<lparr>w_redis = pr_redis X,
       w_out = \<lparr>p_client = pr_producer X, rtace_last_error = None, p_failures = []\<rparr>, w_metrics = []\<rparr>,
     sv_consumer = pr_consumer X, sv_until = None, sv_slept = [], sv_closed = False\<rparr>"

definition start_detection_engine ::
  "(startup \<Rightarrow> exn option) \<Rightarrow> environment \<Rightarrow> (KafkaConfig \<times> RedisConfig) starting" where
  "start_detection_engine cluster env =
     bindO (from_reading (env_int env ''DETECTION_METRICS_PORT'' ''9091'')) (\<lambda>metrics_port.
     bindO (calls cluster (ServesMetrics metrics_port)) (\<lambda>_.
     bindO (from_reading (kafka_config_from_env env)) (\<lambda>kafka_config.
     bindO (from_reading (redis_config_from_env env)) (\<lambda>redis_config.
     bindO (create_consumer cluster env (Topics [tx_events_topic kafka_config, auth_events_topic kafka_config])
              ''rtace-detection-engine'' (Some kafka_config)) (\<lambda>_.
     bindO (create_producer cluster env (Some kafka_config)) (\<lambda>_.
     bindO (create_redis_client cluster env (Some redis_config)) (\<lambda>_.
     ret (Some (kafka_config, redis_config)))))))))"

definition start_containment_engine ::
  "(startup \<Rightarrow> exn option) \<Rightarrow> environment \<Rightarrow> (KafkaConfig \<times> RedisConfig) starting" where
  "start_containment_engine cluster env =
     bindO (from_reading (env_int env ''CONTAINMENT_METRICS_PORT'' ''9094'')) (\<lambda>metrics_port.
     bindO (calls cluster (ServesMetrics metrics_port)) (\<lambda>_.
     bindO (from_reading (kafka_config_from_env env)) (\<lambda>kafka_config.
     bindO (from_reading (redis_config_from_env env)) (\<lambda>redis_config.
     bindO (create_consumer cluster env (OneTopic (detections_topic kafka_config))
              ''rtace-containment-engine'' (Some kafka_config)) (\<lambda>_.
     bindO (create_producer cluster env (Some kafka_config)) (\<lambda>_.
     bindO (create_redis_client cluster env (Some redis_config)) (\<lambda>_.
     ret (Some (kafka_config, redis_config)))))))))"

text \<open>
  A run: how it ended, the log of what was started, and the loop's environment with the final
  state if the loop was entered.
\<close>

type_synonym ('r, 'k, 'c) engine_run =
  "(exn + unit option) \<times> startup list \<times> (('r, 'k, 'c) loop_env \<times> ('r, 'k, 'c) service) option"

definition enter_loop ::
  "('r, 'k, 'c) process \<Rightarrow> (KafkaConfig \<Rightarrow> RedisConfig \<Rightarrow> ('r, 'k, 'c) loop_env) \<Rightarrow>
   (exn + (KafkaConfig \<times> RedisConfig) option) \<times> startup list \<Rightarrow> ('r, 'k, 'c) engine_run" where
  "enter_loop X engine started =
     (case started of (r, opened) \<Rightarrow>
        (case r of
           Inl e \<Rightarrow> (Inl e, opened, None)
         | Inr None \<Rightarrow> (Inr None, opened, None)
         | Inr (Some (kafka_config, redis_config)) \<Rightarrow>
             (let E = engine kafka_config redis_config
              in case run_consumer_loop E (pr_attempts X) (pr_rounds X)
                        (install_signal_handlers (pr_signal_after X) (fresh_service X)) of
                   (q, s) \<Rightarrow> (q, opened, Some (E, s)))))"

definition run_detection_engine ::
  "(startup \<Rightarrow> exn option) \<Rightarrow> environment \<Rightarrow> 'k kafka_lib \<Rightarrow> 'r redis \<Rightarrow> (DetectionEvent \<Rightarrow> json) \<Rightarrow>
   ('r, 'k producer) DetectionPipeline \<Rightarrow> (int \<Rightarrow> ('c, krecord list list) action) \<Rightarrow>
   (((string \<times> int) \<times> int) list \<Rightarrow> ('c, unit) action) \<Rightarrow> string \<Rightarrow> (exn \<Rightarrow> string) \<Rightarrow> ('r, 'k, 'c) process \<Rightarrow>
   ('r, 'k, 'c) engine_run" where
  "run_detection_engine cluster env K rc model_dump P poll commit_offsets now str X =
     enter_loop X
       (\<lambda>kafka_config redis_config. detection_engine K model_dump
          (P\<lparr>dp_redis := rc, dp_kafka_config := kafka_config, dp_redis_config := redis_config\<rparr>) poll commit_offsets now str)
       (start_detection_engine cluster env [])"

definition run_containment_engine ::
  "(startup \<Rightarrow> exn option) \<Rightarrow> environment \<Rightarrow> 'k kafka_lib \<Rightarrow> 'r redis \<Rightarrow> (json \<Rightarrow> exn + DetectionEvent) \<Rightarrow> nat \<Rightarrow>
   (int \<Rightarrow> ('c, krecord list list) action) \<Rightarrow> (((string \<times> int) \<times> int) list \<Rightarrow> ('c, unit) action) \<Rightarrow> string \<Rightarrow>
   (exn \<Rightarrow> string) \<Rightarrow> ('r, 'k, 'c) process \<Rightarrow> ('r, 'k, 'c) engine_run" where
  "run_containment_engine cluster env K rc model_validate fuel poll commit_offsets now str X =
     enter_loop X
       (\<lambda>kafka_config redis_config.
          containment_engine K kafka_config redis_config rc model_validate fuel poll commit_offsets now str)
       (start_containment_engine cluster env [])"

subsection \<open>Starting up\<close>

lemma bindO_run: "bindO m f x =
    (case m x of (r, y) \<Rightarrow> (case r of Inl e \<Rightarrow> (Inl e, y) | Inr None \<Rightarrow> (Inr None, y) | Inr (Some v) \<Rightarrow> f v y))"
  by (auto simp: bindO_def bindE_def ret_def split: prod.splits sum.splits option.splits)

lemma bindO_ret [simp]: "bindO (ret (Some x)) f = f x"
  by (rule ext) (simp add: bindO_run ret_def)

text \<open>The start of either engine, from its three arguments.\<close>

definition start_engine ::
  "(startup \<Rightarrow> exn option) \<Rightarrow> environment \<Rightarrow> string \<times> string \<Rightarrow> (KafkaConfig \<Rightarrow> topic_arg) \<Rightarrow> string \<Rightarrow>
   (KafkaConfig \<times> RedisConfig) starting" where
  "start_engine cluster env port_var topics group_id =
     bindO (from_reading (env_int env (fst port_var) (snd port_var))) (\<lambda>metrics_port.
     bindO (calls cluster (ServesMetrics metrics_port)) (\<lambda>_.
     bindO (from_reading (kafka_config_from_env env)) (\<lambda>kafka_config.
     bindO (from_reading (redis_config_from_env env)) (\<lambda>redis_config.
     bindO (create_consumer cluster env (topics kafka_config) group_id (Some kafka_config)) (\<lambda>_.
     bindO (create_producer cluster env (Some kafka_config)) (\<lambda>_.
     bindO (create_redis_client cluster env (Some redis_config)) (\<lambda>_.
     ret (Some (kafka_config, redis_config)))))))))"

lemma start_engines:
  "start_detection_engine cluster env = start_engine cluster env (''DETECTION_METRICS_PORT'', ''9091'')
     (\<lambda>cfg. Topics [tx_events_topic cfg, auth_events_topic cfg]) ''rtace-detection-engine''"
  "start_containment_engine cluster env = start_engine cluster env (''CONTAINMENT_METRICS_PORT'', ''9094'')
     (\<lambda>cfg. OneTopic (detections_topic cfg)) ''rtace-containment-engine''"
  by (simp_all add: start_detection_engine_def start_containment_engine_def start_engine_def)

definition topic_list :: "topic_arg \<Rightarrow> string list" where
  "topic_list t = (case t of OneTopic x \<Rightarrow> [x] | Topics xs \<Rightarrow> xs)"

text \<open>What is opened, in this order, when nothing is refused.\<close>

definition startup_plan :: "int \<Rightarrow> KafkaConfig \<Rightarrow> RedisConfig \<Rightarrow> string list \<Rightarrow> string \<Rightarrow> startup list" where
  "startup_plan metrics_port kcfg rcfg topics group_id =
     [ServesMetrics metrics_port,
      OpensConsumer \<lparr>co_bootstrap_servers = bootstrap_servers kcfg, co_group_id = group_id, co_auto_offset_reset = ''earliest'',
        co_enable_auto_commit = False, co_max_poll_records = max_poll_records kcfg,
        co_fetch_min_bytes = fetch_min_bytes kcfg, co_fetch_max_wait_ms = fetch_max_wait_ms kcfg\<rparr>,
      Subscribes topics,
      OpensProducer \<lparr>po_bootstrap_servers = bootstrap_servers kcfg, po_linger_ms = 5, po_batch_size = 65536,
        po_compression_type = ''lz4'', po_acks = ''all'', po_enable_idempotence = True,
        po_max_in_flight_requests_per_connection = 1\<rparr>,
      OpensPool \<lparr>pool_host = host rcfg, pool_port = port rcfg, pool_db = db rcfg, pool_decode_responses = True,
        pool_max_connections = 20, pool_socket_keepalive = True\<rparr>]"

lemma start_engine_ok:
  assumes "start_engine cluster env pv topics g [] = (Inr (Some (kcfg, rcfg)), opened)"
  shows "\<exists>p. env_int env (fst pv) (snd pv) = Some (Inr p) \<and> kafka_config_from_env env = Some (Inr kcfg) \<and>
    redis_config_from_env env = Some (Inr rcfg) \<and> opened = startup_plan p kcfg rcfg (topic_list (topics kcfg)) g \<and>
    list_all (\<lambda>c. cluster c = None) opened"
  using assms
  by (auto simp: start_engine_def bindO_run from_reading_def calls_def create_consumer_def create_producer_def
      create_redis_client_def ret_def raise_exn_def Let_def startup_plan_def topic_list_def
      split: option.splits sum.splits prod.splits)

lemma start_engine_unreadable:
  assumes "env_int env (fst pv) (snd pv) = Some (Inr p)" and "cluster (ServesMetrics p) = None"
    and "kafka_config_from_env env = Some (Inl e) \<or>
      (\<exists>kcfg. kafka_config_from_env env = Some (Inr kcfg)) \<and> redis_config_from_env env = Some (Inl e)"
  shows "start_engine cluster env pv topics g [] = (Inl e, [ServesMetrics p])"
  using assms by (auto simp: start_engine_def bindO_run from_reading_def calls_def ret_def raise_exn_def)

subsection \<open>Engines started from the environment\<close>

text \<open>
  (C16) An engine that cannot read its settings opens nothing: when the metrics port can be read and
  served but a Kafka or a Redis setting cannot be read, the run of either engine ends with that
  error, no consumer has joined its group, no producer and no connection pool was opened, and the
  loop was never entered.
\<close>

theorem engines_fail_closed:
  assumes "kafka_config_from_env env = Some (Inl e) \<or>
      (\<exists>kcfg. kafka_config_from_env env = Some (Inr kcfg)) \<and> redis_config_from_env env = Some (Inl e)"
    and "env_int env ''DETECTION_METRICS_PORT'' ''9091'' = Some (Inr p)" and "cluster (ServesMetrics p) = None"
    and "env_int env ''CONTAINMENT_METRICS_PORT'' ''9094'' = Some (Inr p')" and "cluster (ServesMetrics p') = None"
  shows "run_detection_engine cluster env K rc model_dump P poll commit_offsets now str X = (Inl e, [ServesMetrics p], None) \<and>
    run_containment_engine cluster env K' rc' model_validate fuel poll' commit_offsets' now' str' X' =
      (Inl e, [ServesMetrics p'], None)"
  using start_engine_unreadable [where e = e and env = env and pv = "(''DETECTION_METRICS_PORT'', ''9091'')"]
    start_engine_unreadable [where e = e and env = env and pv = "(''CONTAINMENT_METRICS_PORT'', ''9094'')"] assms
  by (simp add: run_detection_engine_def run_containment_engine_def start_engines enter_loop_def)

lemma enter_loop_entered:
  assumes "enter_loop X engine (start_engine cluster env pv topics g []) = (q, opened, Some (E, s))"
  shows "\<exists>p kcfg rcfg. kafka_config_from_env env = Some (Inr kcfg) \<and> redis_config_from_env env = Some (Inr rcfg) \<and>
    opened = startup_plan p kcfg rcfg (topic_list (topics kcfg)) g \<and> E = engine kcfg rcfg \<and>
    run_consumer_loop E (pr_attempts X) (pr_rounds X) (install_signal_handlers (pr_signal_after X) (fresh_service X)) = (q, s)"
proof -
  obtain kcfg rcfg where st: "start_engine cluster env pv topics g [] = (Inr (Some (kcfg, rcfg)), opened)"
    and E: "E = engine kcfg rcfg"
    and run: "run_consumer_loop E (pr_attempts X) (pr_rounds X) (install_signal_handlers (pr_signal_after X) (fresh_service X)) = (q, s)"
    using assms by (auto simp: enter_loop_def Let_def split: prod.splits sum.splits option.splits)
  from start_engine_ok [OF st] E run show ?thesis by blast
qed

lemma fresh_consumer [simp]: "sv_consumer (install_signal_handlers a (fresh_service X)) = pr_consumer X"
  by (simp add: install_signal_handlers_def fresh_service_def)

text \<open>
  (C4) At least once, for the detection engine as it is started: whenever the loop was entered, the
  configuration came from the environment, the consumer reads the transaction and login topics and never
  commits by itself, and the producer waits for all replicas and de-duplicates; and however the run
  ended, the offsets committed are those of a prefix of the polled batches, in order, and every batch
  of that prefix was handled in the state in which the loop came to it, and among the messages
  delivered at the end are the dead letters of its undecodable records and, of the run of the handler
  in its last attempt, every detection emitted and the dead letter of every record found invalid (or,
  when that run raised an error no retry would mend, a dead letter for each record).
\<close>

theorem detection_engine_at_least_once:
  assumes "kafka_producer K delivered pending"
    and "run_detection_engine cluster env K rc model_dump P journal_poll journal_commit now str X = (q, opened, Some (E, s))"
    and "\<forall>kcfg. kafka_config_from_env env = Some (Inr kcfg) \<longrightarrow> dlq_topic kcfg \<noteq> []"
  shows "\<exists>p kcfg rcfg bs. kafka_config_from_env env = Some (Inr kcfg) \<and> redis_config_from_env env = Some (Inr rcfg) \<and>
    opened = startup_plan p kcfg rcfg [tx_events_topic kcfg, auth_events_topic kcfg] ''rtace-detection-engine'' \<and>
    map fst (j_commits (sv_consumer s)) = map fst (j_commits (pr_consumer X)) @ map offsets_of bs \<and>
    prefix bs (batches (j_polls (pr_consumer X))) \<and>
    (\<forall>b\<in>set bs. \<exists>t t'. arrives E (pr_attempts X) (install_signal_handlers (pr_signal_after X) (fresh_service X)) b t \<and>
       handle_batch_with_retry E (pr_attempts X) b t = (Inr (Some ()), t') \<and>
       detections_settled E model_dump (P\<lparr>dp_redis := rc, dp_kafka_config := kcfg, dp_redis_config := rcfg\<rparr>)
         (set (delivered (p_client (prod_of s)))) b t t')"
proof -
  from enter_loop_entered [OF assms(2) [unfolded run_detection_engine_def start_engines]]
  obtain p kcfg rcfg where cfg: "kafka_config_from_env env = Some (Inr kcfg)" "redis_config_from_env env = Some (Inr rcfg)"
    and op: "opened = startup_plan p kcfg rcfg [tx_events_topic kcfg, auth_events_topic kcfg] ''rtace-detection-engine''"
    and E: "E = detection_engine K model_dump (P\<lparr>dp_redis := rc, dp_kafka_config := kcfg, dp_redis_config := rcfg\<rparr>)
        journal_poll journal_commit now str"
    and run: "run_consumer_loop E (pr_attempts X) (pr_rounds X) (install_signal_handlers (pr_signal_after X) (fresh_service X)) = (q, s)"
    unfolding topic_list_def by auto
  have dlq: "dlq_topic (dp_kafka_config (P\<lparr>dp_redis := rc, dp_kafka_config := kcfg, dp_redis_config := rcfg\<rparr>)) \<noteq> []"
    using assms(3) cfg by simp
  from detection_commits_delivered [OF assms(1) dlq E run] cfg op show ?thesis by (simp, blast)
qed

text \<open>
  (C5) At least once, for the containment engine as it is started: whenever the loop was entered, the
  configuration came from the environment, the consumer reads the detections topic and never commits by
  itself; and however the run ended, the offsets committed are those of a prefix of the polled
  batches, in order, and for every record of that prefix that carries a value either the audit
  record of its detection or a dead letter is among the messages delivered at the end.
\<close>

theorem containment_engine_at_least_once:
  assumes "kafka_producer K delivered pending"
    and "run_containment_engine cluster env K rc model_validate fuel journal_poll journal_commit now str X = (q, opened, Some (E, s))"
    and "\<forall>kcfg. kafka_config_from_env env = Some (Inr kcfg) \<longrightarrow> dlq_topic kcfg \<noteq> []"
  shows "\<exists>p kcfg rcfg bs. kafka_config_from_env env = Some (Inr kcfg) \<and> redis_config_from_env env = Some (Inr rcfg) \<and>
    opened = startup_plan p kcfg rcfg [detections_topic kcfg] ''rtace-containment-engine'' \<and>
    map fst (j_commits (sv_consumer s)) = map fst (j_commits (pr_consumer X)) @ map offsets_of bs \<and>
    prefix bs (batches (j_polls (pr_consumer X))) \<and>
    (\<forall>r\<in>set (concat bs). record_settled kcfg model_validate (dlq_msg E (dlq_topic kcfg))
       (set (delivered (p_client (prod_of s)))) r)"
proof -
  from enter_loop_entered [OF assms(2) [unfolded run_containment_engine_def start_engines]]
  obtain p kcfg rcfg where cfg: "kafka_config_from_env env = Some (Inr kcfg)" "redis_config_from_env env = Some (Inr rcfg)"
    and op: "opened = startup_plan p kcfg rcfg [detections_topic kcfg] ''rtace-containment-engine''"
    and E: "E = containment_engine K kcfg rcfg rc model_validate fuel journal_poll journal_commit now str"
    and run: "run_consumer_loop E (pr_attempts X) (pr_rounds X) (install_signal_handlers (pr_signal_after X) (fresh_service X)) = (q, s)"
    unfolding topic_list_def by auto
  have dlq: "dlq_topic kcfg \<noteq> []" using assms(3) cfg by simp
  from containment_commits_delivered [OF assms(1) dlq E run] cfg op show ?thesis by (simp, blast)
qed

subsection \<open>The control API\<close>

text \<open>
  \<open>lifespan\<close> of \<open>api/main.py\<close>, up to its \<open>yield\<close>: the application the requests are served by. The producer
  is opened by the first override.
\<close>

definition lifespan ::
  "(startup \<Rightarrow> exn option) \<Rightarrow> environment \<Rightarrow> 'r redis \<Rightarrow> 'k kafka_lib \<Rightarrow> (exn + 'k producer) \<Rightarrow> string \<Rightarrow> (exn \<Rightarrow> string) \<Rightarrow>
   ('r, 'k) api starting" where
  "lifespan cluster env rc K create now str =
     bindO (from_reading (redis_config_from_env env)) (\<lambda>redis_config.
     bindO (from_reading (kafka_config_from_env env)) (\<lambda>kafka_config.
     bindO (create_redis_client cluster env (Some redis_config)) (\<lambda>_.
     ret (Some \<lparr>api_redis = rc, api_lib = K, api_create = create, api_redis_config = redis_config,
       api_kafka_config = kafka_config, api_token = token_from_env env, api_now = now, api_str = str\<rparr>))))"

text \<open>Started without a token, or with an empty one, the API lets nobody change a rule.\<close>

lemma tokenless_api_is_read_only:
  assumes "lifespan cluster env rc K create now str opened = (Inr (Some A), opened')"
    and "env ''RTACE_API_TOKEN'' = None \<or> env ''RTACE_API_TOKEN'' = Some []" and "is_override req"
  shows "\<exists>d. serve A creds client req w = (Inl (HTTPException 503 d), w)"
proof -
  have "api_token A = None"
    using assms(1,2) by (auto simp: lifespan_def bindO_run ret_def token_from_env_def split: prod.splits sum.splits option.splits)
  with require_write_denied [of A creds] serve_guarded [OF assms(3)] show ?thesis by (metis option.distinct(1) raise_exn_def)
qed

subsection \<open>Concrete runs\<close>

lemma redis_defaults: "redis_config_from_env (\<lambda>_. None) = Some (Inr default_redis_config)"
  unfolding redis_config_from_env_def env_int_def env_float_def getenv_def option.case default_texts default_velocity
    default_receipt bind_reading_def
  by (simp add: default_redis_config_def)

lemma default_ports: "py_int ''9091'' = Some (Inr 9091)" "py_int ''9094'' = Some (Inr 9094)"
  by (simp_all add: read_simps)

lemma default_start:
  "start_engine (\<lambda>_. None) (\<lambda>_. None) pv topics g [] =
     (case py_int (snd pv) of None \<Rightarrow> (Inr None, []) | Some (Inl e) \<Rightarrow> (Inl e, [])
      | Some (Inr p) \<Rightarrow> (Inr (Some (default_kafka_config, default_redis_config)),
          startup_plan p default_kafka_config default_redis_config (topic_list (topics default_kafka_config)) g))"
  by (simp add: start_engine_def bindO_run from_reading_def calls_def create_consumer_def create_producer_def
      create_redis_client_def ret_def raise_exn_def Let_def startup_plan_def topic_list_def env_int_def getenv_def
      kafka_defaults redis_defaults split: option.splits sum.splits)

text \<open>The containment engine with nothing set in its environment, over a topic with one batch, until a signal.\<close>

definition sample_process :: "(conn, ledger, journal) process" where
  "sample_process = \<lparr>pr_redis = empty_conn, pr_producer = \<lparr>l_delivered = [], l_pending = [], l_fates = []\<rparr>,
     pr_consumer = \<lparr>j_polls = [Inr [sample_batch]], j_refusals = [], j_commits = []\<rparr>,
     pr_signal_after = Some 1, pr_attempts = 2, pr_rounds = 2\<rparr>"

lemma sample_fresh: "install_signal_handlers (pr_signal_after sample_process) (fresh_service sample_process) = sample_service"
  by (simp add: install_signal_handlers_def fresh_service_def sample_process_def sample_service_def empty_ledger_def)

lemma sample_loop:
  "\<exists>s. run_consumer_loop sample_engine 2 2 sample_service = (Inr (Some ()), s) \<and>
     map fst (j_commits (sv_consumer s)) = [offsets_of sample_batch]"
proof -
  let ?s = "sample_service\<lparr>sv_until := Some 0, sv_consumer := \<lparr>j_polls = [], j_refusals = [], j_commits = []\<rparr>\<rparr>"
  have poll: "is_set sample_service = (Inr False, sample_service\<lparr>sv_until := Some 0\<rparr>)"
    "on_consumer (le_poll sample_engine (settings_poll_timeout_ms (le_settings sample_engine))) (sample_service\<lparr>sv_until := Some 0\<rparr>) =
      (Inr [sample_batch], ?s)"
    by (simp_all add: is_set_def sample_service_def sample_engine_def on_consumer_def journal_poll_def)
  obtain t where t: "handle_batch_with_retry sample_engine 2 sample_batch ?s = (Inr (Some ()), t)"
    "sv_until t = Some 0" "sv_consumer t = sv_consumer ?s"
    unfolding handle_batch_with_retry_def sample_classify by (simp add: sample_simps loop_simps run_simps)
  obtain u where u: "commit sample_engine sample_batch t = (Inr (), u)" "sv_until u = Some 0"
    "map fst (j_commits (sv_consumer u)) = [offsets_of sample_batch]"
    using t(2,3) by (simp add: commit_def on_consumer_def journal_commit_def sample_engine_def sample_service_def)
  have "is_set u = (Inr True, u)" using u(2) by (simp add: is_set_def)
  then have "poll_loop sample_engine 2 2 sample_service = (Inr (Some ()), u)"
    using poll t(1) u(1) by (simp add: numeral_2_eq_2 bindE_def ret_def)
  then show ?thesis
    using u(3) by (simp add: run_consumer_loop_def stop_clients_def Let_def)
qed

theorem containment_engine_at_least_once_witness:
  "\<exists>opened s. run_containment_engine (\<lambda>_. None) (\<lambda>_. None) ledger_lib redis_step (\<lambda>_. Inr (sample_detection ''d1'' ''u'')) 1
       journal_poll journal_commit ''now'' (\<lambda>_. []) sample_process = (Inr (Some ()), opened, Some (sample_engine, s)) \<and>
     map fst (j_commits (sv_consumer s)) = [offsets_of sample_batch] \<and>
     (\<exists>bs. map offsets_of bs = [offsets_of sample_batch] \<and> prefix bs [sample_batch] \<and>
        (\<forall>r\<in>set (concat bs). record_settled default_kafka_config (\<lambda>_. Inr (sample_detection ''d1'' ''u''))
           (dlq_msg sample_engine ''rtace-dlq'') (set (l_delivered (p_client (prod_of s)))) r))"
proof -
  from sample_loop obtain s where s: "run_consumer_loop sample_engine 2 2 sample_service = (Inr (Some ()), s)"
    "map fst (j_commits (sv_consumer s)) = [offsets_of sample_batch]" by (elim exE conjE)
  let ?opened = "startup_plan 9094 default_kafka_config default_redis_config [detections_topic default_kafka_config] ''rtace-containment-engine''"
  have X: "pr_attempts sample_process = 2" "pr_rounds sample_process = 2"
    "pr_consumer sample_process = \<lparr>j_polls = [Inr [sample_batch]], j_refusals = [], j_commits = []\<rparr>"
    by (simp_all add: sample_process_def)
  have run: "run_containment_engine (\<lambda>_. None) (\<lambda>_. None) ledger_lib redis_step (\<lambda>_. Inr (sample_detection ''d1'' ''u'')) 1
       journal_poll journal_commit ''now'' (\<lambda>_. []) sample_process = (Inr (Some ()), ?opened, Some (sample_engine, s))"
    unfolding run_containment_engine_def start_engines default_start snd_conv default_ports option.case sum.case
      enter_loop_def prod.case sample_engine_def [symmetric] Let_def sample_fresh X s(1) topic_list_def topic_arg.case ..
  have dlq: "\<forall>kcfg. kafka_config_from_env (\<lambda>_. None) = Some (Inr kcfg) \<longrightarrow> dlq_topic kcfg \<noteq> []"
    by (simp add: kafka_defaults default_kafka_config_def)
  from containment_engine_at_least_once [OF ledger.kafka_producer_axioms run dlq] obtain bs where
    "map fst (j_commits (sv_consumer s)) = map offsets_of bs" "prefix bs [sample_batch]"
    "\<forall>r\<in>set (concat bs). record_settled default_kafka_config (\<lambda>_. Inr (sample_detection ''d1'' ''u''))
       (dlq_msg sample_engine (dlq_topic default_kafka_config)) (set (l_delivered (p_client (prod_of s)))) r"
    unfolding kafka_defaults X by auto
  moreover have "dlq_topic default_kafka_config = ''rtace-dlq''" by (simp add: default_kafka_config_def)
  ultimately show ?thesis using run s(2) by metis
qed

theorem engines_fail_closed_witness:
  "run_detection_engine (\<lambda>_. None) (\<lambda>n. if n = ''REDIS_PORT'' then Some ''six'' else None) ledger_lib redis_step
       (\<lambda>d. JStr (detection_id d)) trip_pipeline journal_poll journal_commit ''now'' (\<lambda>_. []) sample_process =
     (Inl (ValueError ''invalid literal for int() with base 10''), [ServesMetrics 9091], None) \<and>
   run_containment_engine (\<lambda>_. None) (\<lambda>n. if n = ''REDIS_PORT'' then Some ''six'' else None) ledger_lib redis_step
       (\<lambda>_. Inr (sample_detection ''d1'' ''u'')) 1 journal_poll journal_commit ''now'' (\<lambda>_. []) sample_process =
     (Inl (ValueError ''invalid literal for int() with base 10''), [ServesMetrics 9094], None)"
proof (rule engines_fail_closed)
  let ?env = "\<lambda>n. if n = ''REDIS_PORT'' then Some ''six'' else None"
  have "kafka_config_from_env ?env = Some (Inr default_kafka_config)"
    by (simp add: kafka_config_from_env_def env_int_def getenv_def default_texts bind_reading_def default_kafka_config_def)
  moreover have "py_int ''six'' = Some (Inl (ValueError ''invalid literal for int() with base 10''))"
    by (simp add: read_simps)
  then have "redis_config_from_env ?env = Some (Inl (ValueError ''invalid literal for int() with base 10''))"
    by (simp add: redis_config_from_env_def env_int_def getenv_def bind_reading_def)
  ultimately show "kafka_config_from_env ?env = Some (Inl (ValueError ''invalid literal for int() with base 10'')) \<or>
      (\<exists>kcfg. kafka_config_from_env ?env = Some (Inr kcfg)) \<and>
      redis_config_from_env ?env = Some (Inl (ValueError ''invalid literal for int() with base 10''))" by blast
  show "env_int ?env ''DETECTION_METRICS_PORT'' ''9091'' = Some (Inr 9091)"
    "env_int ?env ''CONTAINMENT_METRICS_PORT'' ''9094'' = Some (Inr 9094)"
    by (simp_all add: env_int_def getenv_def default_ports)
qed simp_all

text \<open>The detection engine with nothing set, over the traveller's batch, until a signal.\<close>

definition trip_process :: "(conn, ledger, journal) process" where
  "trip_process = \<lparr>pr_redis = conn_with settled, pr_producer = \<lparr>l_delivered = [], l_pending = [], l_fates = []\<rparr>,
     pr_consumer = \<lparr>j_polls = [Inr [trip_batch]], j_refusals = [], j_commits = []\<rparr>,
     pr_signal_after = Some 1, pr_attempts = 1, pr_rounds = 2\<rparr>"

lemma trip_fresh: "install_signal_handlers (pr_signal_after trip_process) (fresh_service trip_process) = trip_service\<lparr>sv_until := Some 1\<rparr>"
  by (simp add: install_signal_handlers_def fresh_service_def trip_process_def trip_service_def trip_world_def)

lemma trip_loop:
  "\<exists>s. run_consumer_loop trip_engine 1 2 (trip_service\<lparr>sv_until := Some 1\<rparr>) = (Inr (Some ()), s) \<and>
     map fst (j_commits (sv_consumer s)) = [offsets_of trip_batch]"
proof -
  let ?c = "\<lparr>j_polls = [], j_refusals = [], j_commits = []\<rparr>"
  let ?s = "trip_service\<lparr>sv_until := Some 0, sv_consumer := ?c\<rparr>"
  have poll: "is_set (trip_service\<lparr>sv_until := Some 1\<rparr>) = (Inr False, trip_service\<lparr>sv_until := Some 0\<rparr>)"
    "on_consumer (le_poll trip_engine (settings_poll_timeout_ms (le_settings trip_engine))) (trip_service\<lparr>sv_until := Some 0\<rparr>) =
      (Inr [trip_batch], ?s)"
    by (simp_all add: is_set_def trip_service_def trip_engine_def detection_engine_def on_consumer_def journal_poll_def)
  obtain t where t: "handle_batch_with_retry trip_engine 1 trip_batch ?s = (Inr (Some ()), t)"
    "sv_until t = Some 0" "sv_consumer t = ?c"
    using trip_runs [where u = "Some 0" and c = ?c] by blast
  obtain u where u: "commit trip_engine trip_batch t = (Inr (), u)" "sv_until u = Some 0"
    "map fst (j_commits (sv_consumer u)) = [offsets_of trip_batch]"
    using t(2,3) by (simp add: commit_def on_consumer_def journal_commit_def trip_engine_def detection_engine_def)
  have "is_set u = (Inr True, u)" using u(2) by (simp add: is_set_def)
  then have "poll_loop trip_engine 1 2 (trip_service\<lparr>sv_until := Some 1\<rparr>) = (Inr (Some ()), u)"
    using poll t(1) u(1) by (simp add: numeral_2_eq_2 bindE_def ret_def)
  then show ?thesis
    using u(3) by (simp add: run_consumer_loop_def stop_clients_def Let_def)
qed

theorem detection_engine_at_least_once_witness:
  "\<exists>opened s bs. run_detection_engine (\<lambda>_. None) (\<lambda>_. None) ledger_lib redis_step (\<lambda>d. JStr (detection_id d)) trip_pipeline
       journal_poll journal_commit ''now'' (\<lambda>_. []) trip_process = (Inr (Some ()), opened, Some (trip_engine, s)) \<and>
     map fst (j_commits (sv_consumer s)) = [offsets_of trip_batch] \<and> bs = [trip_batch] \<and>
     (\<forall>b\<in>set bs. \<exists>t t'. arrives trip_engine 1 (trip_service\<lparr>sv_until := Some 1\<rparr>) b t \<and>
        detections_settled trip_engine (\<lambda>d. JStr (detection_id d)) trip_pipeline (set (l_delivered (p_client (prod_of s)))) b t t')"
proof -
  from trip_loop obtain s where s: "run_consumer_loop trip_engine 1 2 (trip_service\<lparr>sv_until := Some 1\<rparr>) = (Inr (Some ()), s)"
    "map fst (j_commits (sv_consumer s)) = [offsets_of trip_batch]" by (elim exE conjE)
  have P: "trip_pipeline\<lparr>dp_redis := redis_step, dp_kafka_config := default_kafka_config, dp_redis_config := default_redis_config\<rparr> =
      trip_pipeline" by (simp add: trip_pipeline_def retarget_def sample_detector_def)
  have X: "pr_attempts trip_process = 1" "pr_rounds trip_process = 2"
    "pr_consumer trip_process = \<lparr>j_polls = [Inr [trip_batch]], j_refusals = [], j_commits = []\<rparr>"
    by (simp_all add: trip_process_def)
  obtain opened where run: "run_detection_engine (\<lambda>_. None) (\<lambda>_. None) ledger_lib redis_step (\<lambda>d. JStr (detection_id d)) trip_pipeline
       journal_poll journal_commit ''now'' (\<lambda>_. []) trip_process = (Inr (Some ()), opened, Some (trip_engine, s))"
    unfolding run_detection_engine_def start_engines default_start snd_conv default_ports option.case sum.case
      enter_loop_def prod.case P Let_def trip_engine_def [symmetric] trip_fresh X s(1) by blast
  have dlq: "\<forall>kcfg. kafka_config_from_env (\<lambda>_. None) = Some (Inr kcfg) \<longrightarrow> dlq_topic kcfg \<noteq> []"
    by (simp add: kafka_defaults default_kafka_config_def)
  obtain kcfg rcfg bs where cfg: "kafka_config_from_env (\<lambda>_. None) = Some (Inr kcfg)" "redis_config_from_env (\<lambda>_. None) = Some (Inr rcfg)"
    and bs: "map fst (j_commits (sv_consumer s)) = map fst (j_commits (pr_consumer trip_process)) @ map offsets_of bs"
    "prefix bs (batches (j_polls (pr_consumer trip_process)))"
    "\<forall>b\<in>set bs. \<exists>t t'. arrives trip_engine (pr_attempts trip_process)
        (install_signal_handlers (pr_signal_after trip_process) (fresh_service trip_process)) b t \<and>
      handle_batch_with_retry trip_engine (pr_attempts trip_process) b t = (Inr (Some ()), t') \<and>
      detections_settled trip_engine (\<lambda>d. JStr (detection_id d))
        (trip_pipeline\<lparr>dp_redis := redis_step, dp_kafka_config := kcfg, dp_redis_config := rcfg\<rparr>)
        (set (l_delivered (p_client (prod_of s)))) b t t'"
    using detection_engine_at_least_once [OF ledger.kafka_producer_axioms run dlq] by blast
  have d: "kcfg = default_kafka_config" "rcfg = default_redis_config"
    using cfg by (simp_all only: kafka_defaults redis_defaults option.inject sum.inject)
  note bs = bs [unfolded d P X trip_fresh]
  have "length bs = 1" using arg_cong [OF bs(1), of length] s(2) by simp
  then have one: "bs = [trip_batch]"
    using bs(2) by (cases bs) (simp_all add: concat.simps)
  have "\<exists>t t'. arrives trip_engine 1 (trip_service\<lparr>sv_until := Some 1\<rparr>) b t \<and>
      detections_settled trip_engine (\<lambda>d. JStr (detection_id d)) trip_pipeline (set (l_delivered (p_client (prod_of s)))) b t t'"
    if "b \<in> set bs" for b using bs(3) that by blast
  note settled = this
  show ?thesis
    by (intro exI [of _ opened] exI [of _ s] exI [of _ bs] conjI run s(2) one ballI settled)
qed

end
