(* ===== verification/CommandLine.thy ===== *)
theory CommandLine
  imports SimulatorProps Engines
begin

text \<open>
  The command line of \<open>simulator/transaction_simulator.py\<close> and the start of its process. Of \<open>argparse\<close> this
  is what ten options of one value each need: exact option names, \<open>--name value\<close> and \<open>--name=value\<close>,
  values that look like negative numbers, conversion by \<open>type=\<close> and the exit status 2 of a usage
  error. \<open>None\<close> stands for the command lines that use more of it (abbreviated names, \<open>--help\<close>,
  arguments that are not options).
\<close>

subsection \<open>Options\<close>

text \<open>An option stores its converted value, here in the settings themselves.\<close>

type_synonym option_action = "string \<Rightarrow> SimulatorSettings \<Rightarrow> SimulatorSettings reading"

definition float_option :: "((real \<Rightarrow> real) \<Rightarrow> SimulatorSettings \<Rightarrow> SimulatorSettings) \<Rightarrow> option_action" where
  "float_option update v st = bind_reading (py_float v) (\<lambda>x. Some (Inr (update (\<lambda>_. x) st)))"

definition int_option :: "((int \<Rightarrow> int) \<Rightarrow> SimulatorSettings \<Rightarrow> SimulatorSettings) \<Rightarrow> option_action" where
  "int_option update v st = bind_reading (py_int v) (\<lambda>i. Some (Inr (update (\<lambda>_. i) st)))"

definition OPTIONS :: "(string \<times> option_action) list" where
  "OPTIONS =
     [(''--interval'', float_option interval_seconds_update),
      (''--users'', int_option num_users_update),
      (''--replay-p'', float_option replay_probability_update),
      (''--travel-p'', float_option impossible_travel_probability_update),
      (''--auth-fail-p'', float_option auth_fail_probability_update),
      (''--burst-every'', int_option burst_every_update),
      (''--stuffing-user-every'', int_option stuffing_user_every_update),
      (''--stuffing-ip-every'', int_option stuffing_ip_every_update),
      (''--seed'', (\<lambda>v st. bind_reading (py_int v) (\<lambda>i. Some (Inr (st\<lparr>sim_seed := Some i\<rparr>))))),
      (''--decision-url'', (\<lambda>v st. Some (Inr (st\<lparr>decision_url := Some v\<rparr>))))]"

definition usage_error :: exn where
  "usage_error = OtherError ''SystemExit(2)''"

definition converted :: "'a reading \<Rightarrow> 'a reading" where
  "converted r = (case r of Some (Inl (ValueError _)) \<Rightarrow> Some (Inl usage_error) | _ \<Rightarrow> r)"

text \<open>An argument that can be the value of the option before it: no dash in front, or a negative number.\<close>

definition takes_as_value :: "string \<Rightarrow> bool" where
  "takes_as_value v \<longleftrightarrow>
     (case v of [] \<Rightarrow> True | c # r \<Rightarrow> c \<noteq> CHR ''-'' \<or> (\<forall>d\<in>set r. digit_of d \<noteq> None))"

fun parse_argv :: "string list \<Rightarrow> SimulatorSettings \<Rightarrow> SimulatorSettings reading" where
  "parse_argv [] st = Some (Inr st)"
| "parse_argv (a # rest) st =
     (let name = takeWhile (\<lambda>c. c \<noteq> CHR ''='') a
      in case map_of OPTIONS name of
           None \<Rightarrow> None
         | Some store \<Rightarrow>
             if name \<noteq> a then bind_reading (converted (store (drop (Suc (length name)) a) st)) (parse_argv rest)
             else (case rest of
                     [] \<Rightarrow> Some (Inl usage_error)
                   | v # rest' \<Rightarrow>
                       if takes_as_value v then bind_reading (converted (store v st)) (parse_argv rest') else None))"

definition parse_args :: "environment \<Rightarrow> string list \<Rightarrow> SimulatorSettings reading" where
  "parse_args env argv =
     bind_reading (simulator_settings_from_env env) (\<lambda>d.
     bind_reading (parse_argv argv d) (\<lambda>a.
     Some (Inr (a\<lparr>decision_url := (if decision_url a = Some [] then None else decision_url a)\<rparr>))))"

subsection \<open>The process\<close>

text \<open>
  \<open>run_simulator(_parse_args())\<close>: the settings, the Kafka configuration and the producer, then the
  publishing loop for \<open>n\<close> iterations. The second component is what was opened.
\<close>

definition start_simulator :: "(startup \<Rightarrow> exn option) \<Rightarrow> environment \<Rightarrow> string list \<Rightarrow> (SimulatorSettings \<times> KafkaConfig) starting" where
  "start_simulator cluster env argv =
     bindO (from_reading (parse_args env argv)) (\<lambda>settings.
     bindO (from_reading (kafka_config_from_env env)) (\<lambda>config.
     bindO (create_producer cluster env (Some config)) (\<lambda>_.
     ret (Some (settings, config)))))"

definition simulator_main ::
  "(startup \<Rightarrow> exn option) \<Rightarrow> environment \<Rightarrow> string list \<Rightarrow> ('h, 'k) simulator \<Rightarrow> nat \<Rightarrow> ('h, 'k) sim_state \<Rightarrow>
   (exn + unit option) \<times> startup list \<times> ('h, 'k) sim_state" where
  "simulator_main cluster env argv S n s =
     (case start_simulator cluster env argv [] of
        (Inl e, opened) \<Rightarrow> (Inl e, opened, s)
      | (Inr None, opened) \<Rightarrow> (Inr None, opened, s)
      | (Inr (Some (settings, config)), opened) \<Rightarrow>
          (case run_simulator (S\<lparr>si_kafka_config := config\<rparr>) settings n s of (r, s') \<Rightarrow> (map_sum id Some r, opened, s')))"

subsection \<open>What the options do\<close>

text \<open>An option in either spelling.\<close>

fun spelled :: "bool \<times> string \<times> string \<Rightarrow> string list" where
  "spelled (joined, name, v) = (if joined then [name @ CHR ''='' # v] else [name, v])"

definition given :: "bool \<times> string \<times> string \<Rightarrow> bool" where
  "given o' \<longleftrightarrow> (case o' of (joined, name, v) \<Rightarrow> name \<in> fst ` set OPTIONS \<and> (joined \<or> takes_as_value v))"

definition stores :: "string \<Rightarrow> option_action" where
  "stores name = (case map_of OPTIONS name of Some store \<Rightarrow> store | None \<Rightarrow> (\<lambda>_ _. None))"

lemma option_names: "name \<in> fst ` set OPTIONS \<Longrightarrow> CHR ''='' \<notin> set name"
  by (auto simp: OPTIONS_def)

lemma parse_option:
  assumes "given (joined, name, v)"
  shows "parse_argv (spelled (joined, name, v) @ rest) st = bind_reading (converted (stores name v st)) (parse_argv rest)"
proof -
  have name: "name \<in> fst ` set OPTIONS" and v: "joined \<or> takes_as_value v"
    using assms by (auto simp: given_def)
  obtain store where store: "map_of OPTIONS name = Some store"
    using name by (metis (no_types, lifting) map_of_eq_None_iff not_Some_eq)
  have "takeWhile (\<lambda>c. c \<noteq> CHR ''='') name = name" "takeWhile (\<lambda>c. c \<noteq> CHR ''='') (name @ CHR ''='' # v) = name"
    using option_names [OF name] by (auto simp: takeWhile_eq_all_conv takeWhile_append)
  note names = this
  show ?thesis
  proof (cases joined)
    case True
    then show ?thesis by (simp add: names store stores_def Let_def del: takeWhile.simps)
  next
    case False
    with v show ?thesis by (simp add: names store stores_def Let_def del: takeWhile.simps)
  qed
qed

text \<open>A list of options is carried out from left to right, so the last one given for a setting counts.\<close>

fun store_all :: "(bool \<times> string \<times> string) list \<Rightarrow> SimulatorSettings \<Rightarrow> SimulatorSettings reading" where
  "store_all [] st = Some (Inr st)"
| "store_all ((joined, name, v) # os) st = bind_reading (converted (stores name v st)) (store_all os)"

lemma parse_options: "list_all given os \<Longrightarrow> parse_argv (concat (map spelled os)) st = store_all os st"
proof (induction os arbitrary: st)
  case (Cons o' os)
  obtain joined name v where o': "o' = (joined, name, v)" by (cases o')
  have "parse_argv (concat (map spelled os)) = store_all os" using Cons by (intro ext) simp
  with Cons.prems parse_option [of joined name v "concat (map spelled os)" st] show ?case
    by (simp add: o' del: spelled.simps)
qed simp

lemma bind_reading_ok: "bind_reading x f = Some (Inr y) \<longleftrightarrow> (\<exists>v. x = Some (Inr v) \<and> f v = Some (Inr y))"
  by (auto simp: bind_reading_def split: option.splits sum.splits)

lemma text_or_none_proper: "text_or_none env name \<noteq> Some []"
  by (auto simp: text_or_none_def split: option.splits if_splits)

lemma env_url: "simulator_settings_from_env env = Some (Inr d) \<Longrightarrow> decision_url d \<noteq> Some []"
  unfolding simulator_settings_from_env_def Let_def bind_reading_ok
  by (elim exE conjE) (use text_or_none_proper in force)

lemma no_arguments: "parse_args env [] = simulator_settings_from_env env"
  using env_url [of env] by (auto simp: parse_args_def bind_reading_def split: option.splits sum.splits)

text \<open>
  The settings a list of options leaves: each field from the last option given for it, and from the
  settings before where there is none.
\<close>

fun last_given :: "string \<Rightarrow> (bool \<times> string \<times> string) list \<Rightarrow> string option" where
  "last_given name [] = None"
| "last_given name ((joined, n, v) # os) =
     (case last_given name os of Some w \<Rightarrow> Some w | None \<Rightarrow> if n = name then Some v else None)"

definition number :: "('a :: zero) reading \<Rightarrow> 'a" where
  "number r = (case r of Some (Inr x) \<Rightarrow> x | _ \<Rightarrow> 0)"

definition number_or :: "(string \<Rightarrow> ('a :: zero) reading) \<Rightarrow> 'a \<Rightarrow> string option \<Rightarrow> 'a" where
  "number_or read x t = (case t of None \<Rightarrow> x | Some v \<Rightarrow> number (read v))"

definition overridden :: "(bool \<times> string \<times> string) list \<Rightarrow> SimulatorSettings \<Rightarrow> SimulatorSettings" where
  "overridden os d = \<lparr>
     interval_seconds = number_or py_float (interval_seconds d) (last_given ''--interval'' os),
     num_users = number_or py_int (num_users d) (last_given ''--users'' os),
     replay_probability = number_or py_float (replay_probability d) (last_given ''--replay-p'' os),
     impossible_travel_probability = number_or py_float (impossible_travel_probability d) (last_given ''--travel-p'' os),
     auth_fail_probability = number_or py_float (auth_fail_probability d) (last_given ''--auth-fail-p'' os),
     burst_every = number_or py_int (burst_every d) (last_given ''--burst-every'' os),
     stuffing_user_every = number_or py_int (stuffing_user_every d) (last_given ''--stuffing-user-every'' os),
     stuffing_ip_every = number_or py_int (stuffing_ip_every d) (last_given ''--stuffing-ip-every'' os),
     sim_seed = (case last_given ''--seed'' os of
                   None \<Rightarrow> sim_seed d | Some v \<Rightarrow> Some (number (py_int v))),
     decision_url = (case last_given ''--decision-url'' os of None \<Rightarrow> decision_url d | Some v \<Rightarrow> Some v)\<rparr>"

text \<open>What an option's value is converted by, and whether the conversion succeeds or is refused.\<close>

definition FLOATS :: "string set" where
  "FLOATS = {''--interval'', ''--replay-p'', ''--travel-p'', ''--auth-fail-p''}"

definition INTS :: "string set" where
  "INTS = {''--users'', ''--burst-every'', ''--stuffing-user-every'', ''--stuffing-ip-every'', ''--seed''}"

fun readable_option :: "bool \<times> string \<times> string \<Rightarrow> bool" where
  "readable_option (joined, name, v) \<longleftrightarrow>
     (name \<in> FLOATS \<longrightarrow> (case py_float v of Some (Inr _) \<Rightarrow> True | _ \<Rightarrow> False)) \<and>
     (name \<in> INTS \<longrightarrow> (case py_int v of Some (Inr _) \<Rightarrow> True | _ \<Rightarrow> False))"

fun refused_option :: "bool \<times> string \<times> string \<Rightarrow> bool" where
  "refused_option (joined, name, v) \<longleftrightarrow>
     (name \<in> FLOATS \<and> (case py_float v of Some (Inl (ValueError _)) \<Rightarrow> True | _ \<Rightarrow> False)) \<or>
     (name \<in> INTS \<and> (case py_int v of Some (Inl (ValueError _)) \<Rightarrow> True | _ \<Rightarrow> False))"

lemma option_cases:
  assumes "name \<in> fst ` set OPTIONS"
  obtains "name = ''--interval''" | "name = ''--users''" | "name = ''--replay-p''" | "name = ''--travel-p''"
    | "name = ''--auth-fail-p''" | "name = ''--burst-every''" | "name = ''--stuffing-user-every''"
    | "name = ''--stuffing-ip-every''" | "name = ''--seed''" | "name = ''--decision-url''"
proof -
  have "name \<in> {''--interval'', ''--users'', ''--replay-p'', ''--travel-p'', ''--auth-fail-p'', ''--burst-every'',
      ''--stuffing-user-every'', ''--stuffing-ip-every'', ''--seed'', ''--decision-url''}"
    using assms unfolding OPTIONS_def by (simp only: list.set image_insert image_empty fst_conv)
  then show thesis
    using that unfolding insert_iff empty_iff by metis
qed

lemma store_one:
  assumes "given (joined, name, v)" and "readable_option (joined, name, v)"
  shows "converted (stores name v st) = Some (Inr (overridden [(joined, name, v)] st))"
proof -
  have "name \<in> fst ` set OPTIONS" using assms(1) by (simp add: given_def)
  then show ?thesis
    using assms(2)
    by (cases rule: option_cases)
      (auto simp: stores_def OPTIONS_def float_option_def int_option_def bind_reading_def converted_def overridden_def
        number_or_def number_def FLOATS_def INTS_def split: option.splits sum.splits)
qed

lemma later_wins:
  "number_or read x (case t of None \<Rightarrow> u | Some w \<Rightarrow> Some w) = number_or read (number_or read x u) t"
  "(case case t of None \<Rightarrow> u | Some w \<Rightarrow> Some w of None \<Rightarrow> y | Some v \<Rightarrow> f v) =
     (case t of None \<Rightarrow> (case u of None \<Rightarrow> y | Some v \<Rightarrow> f v) | Some w \<Rightarrow> f w)"
  by (simp_all add: number_or_def split: option.splits)

lemma overridden_Cons: "overridden (o' # os) d = overridden os (overridden [o'] d)"
proof (cases o')
  case (fields joined name v)
  then show ?thesis
    by (simp only: overridden_def last_given.simps later_wins SimulatorSettings.select_convs option.case)
qed

lemma overridden_Nil: "overridden [] d = d"
  by (simp add: overridden_def number_or_def)

lemma store_options: "list_all given os \<Longrightarrow> list_all readable_option os \<Longrightarrow> store_all os d = Some (Inr (overridden os d))"
proof (induction os arbitrary: d)
  case (Cons o' os)
  obtain joined name v where o': "o' = (joined, name, v)" by (cases o')
  with Cons store_one [of joined name v d] overridden_Cons [of o' os d] show ?case
    by (simp add: bind_reading_def)
qed (simp add: overridden_Nil)


text \<open>A value that is refused ends the process at the first of them.\<close>

lemma store_refused:
  assumes "given (joined, name, v)" and "refused_option (joined, name, v)"
  shows "converted (stores name v st) = Some (Inl usage_error)"
proof -
  have "name \<in> fst ` set OPTIONS" using assms(1) by (simp add: given_def)
  then show ?thesis
    using assms(2)
    by (cases rule: option_cases)
      (auto simp: stores_def OPTIONS_def float_option_def int_option_def bind_reading_def converted_def
        FLOATS_def INTS_def split: option.splits sum.splits exn.splits)
qed

lemma store_append: "store_all (xs @ ys) d = bind_reading (store_all xs d) (store_all ys)"
proof (induction xs arbitrary: d)
  case (Cons x xs)
  obtain joined name v where "x = (joined, name, v)" by (cases x)
  with Cons show ?case by (auto simp: bind_reading_def split: option.splits sum.splits)
qed (simp add: bind_reading_def)

text \<open>
  The command line of the simulator. Let its arguments be any options of the program in either
  spelling, in any order and with repetitions, and let the environment be readable. When every value
  can be converted, the settings are those of the environment with each setting that was given
  replaced by the last value given for it, and an empty decision URL unset. When the options before
  some option can be converted and its own value is refused by \<open>int\<close> or \<open>float\<close>, the process exits
  with status 2. In particular without arguments the settings are those of the environment.
\<close>

theorem arguments_override_environment:
  assumes "simulator_settings_from_env env = Some (Inr d)" and "list_all given os"
  shows "(list_all readable_option os \<longrightarrow>
      parse_args env (concat (map spelled os)) =
        Some (Inr ((overridden os d)\<lparr>decision_url :=
          (if decision_url (overridden os d) = Some [] then None else decision_url (overridden os d))\<rparr>))) \<and>
    (\<forall>os1 o' os2. os = os1 @ o' # os2 \<and> list_all readable_option os1 \<and> refused_option o' \<longrightarrow>
      parse_args env (concat (map spelled os)) = Some (Inl usage_error)) \<and>
    parse_args env [] = Some (Inr d)"
proof (intro conjI allI impI)
  show "list_all readable_option os \<Longrightarrow> parse_args env (concat (map spelled os)) =
        Some (Inr ((overridden os d)\<lparr>decision_url :=
          (if decision_url (overridden os d) = Some [] then None else decision_url (overridden os d))\<rparr>))"
    using assms by (simp add: parse_args_def parse_options store_options bind_reading_def)
  show "parse_args env [] = Some (Inr d)" using assms by (simp add: no_arguments)
next
  fix os1 o' os2
  assume "os = os1 @ o' # os2 \<and> list_all readable_option os1 \<and> refused_option o'"
  then have os: "os = os1 @ o' # os2" "list_all readable_option os1" "refused_option o'" by simp_all
  obtain joined name v where o': "o' = (joined, name, v)" by (cases o')
  have "converted (stores name v (overridden os1 d)) = Some (Inl usage_error)"
    using os(1,3) assms(2) by (intro store_refused [of joined]) (simp_all add: o')
  then have "store_all os d = Some (Inl usage_error)"
    using os(1,2) assms(2) by (simp add: store_append store_options bind_reading_def o')
  then show "parse_args env (concat (map spelled os)) = Some (Inl usage_error)"
    using assms by (simp add: parse_args_def parse_options bind_reading_def)
qed

text \<open>The process opens its producer only after it has read its settings and the Kafka configuration.\<close>

lemma simulator_started:
  assumes "start_simulator cluster env argv [] = (Inr (Some (st, cfg)), opened)"
  shows "parse_args env argv = Some (Inr st) \<and> kafka_config_from_env env = Some (Inr cfg) \<and>
    simulator_main cluster env argv S n s =
      (case run_simulator (S\<lparr>si_kafka_config := cfg\<rparr>) st n s of (r, s') \<Rightarrow> (map_sum id Some r, opened, s')) \<and>
    (\<exists>opts. opened = [OpensProducer opts] \<and> cluster (OpensProducer opts) = None \<and>
       po_acks opts = ''all'' \<and> po_enable_idempotence opts)"
proof -
  have "simulator_main cluster env argv S n s =
      (case run_simulator (S\<lparr>si_kafka_config := cfg\<rparr>) st n s of (r, s') \<Rightarrow> (map_sum id Some r, opened, s'))"
    by (simp add: simulator_main_def assms)
  with assms show ?thesis
    by (auto simp: start_simulator_def bindO_run from_reading_def create_producer_def calls_def ret_def raise_exn_def
        split: option.splits sum.splits prod.splits)
qed

lemma simulator_not_started:
  assumes "parse_args env argv = Some (Inl e) \<or> (\<exists>st. parse_args env argv = Some (Inr st)) \<and> kafka_config_from_env env = Some (Inl e)"
  shows "simulator_main cluster env argv S n s = (Inl e, [], s)"
  using assms by (auto simp: simulator_main_def start_simulator_def bindO_run from_reading_def ret_def raise_exn_def)

theorem arguments_override_environment_witness:
  "parse_args (\<lambda>n. if n = ''SIM_USERS'' then Some ''7'' else None)
     [''--seed'', ''-5'', ''--users=3'', ''--decision-url='', ''--users'', ''4''] =
   Some (Inr (default_simulator_settings\<lparr>num_users := 4, sim_seed := Some (- 5)\<rparr>)) \<and>
   parse_args (\<lambda>n. if n = ''SIM_USERS'' then Some ''7'' else None) [''--seed'', ''-5'', ''--users=many''] =
   Some (Inl (OtherError ''SystemExit(2)''))"
proof -
  let ?env = "\<lambda>n. if n = ''SIM_USERS'' then Some ''7'' else None"
  let ?os = "[(False, ''--seed'', ''-5''), (True, ''--users'', ''3''), (True, ''--decision-url'', []), (False, ''--users'', ''4'')]"
  let ?bad = "[(False, ''--seed'', ''-5''), (True, ''--users'', ''many'')]"
  have ints: "py_int ''7'' = Some (Inr 7)" "py_int ''-5'' = Some (Inr (- 5))" "py_int ''3'' = Some (Inr 3)"
    "py_int ''4'' = Some (Inr 4)"
    "py_int ''many'' = Some (Inl (ValueError ''invalid literal for int() with base 10''))"
    by (simp_all add: read_simps)
  have env: "simulator_settings_from_env ?env = Some (Inr (default_simulator_settings\<lparr>num_users := 7\<rparr>))"
    by (simp add: simulator_settings_from_env_def float_or_def int_or_def text_or_none_def bind_reading_def ints
        default_simulator_settings_def)
  have given: "list_all given ?os" "list_all given ?bad"
    by (simp_all add: given_def OPTIONS_def takes_as_value_def digit_of_def)
  have readable: "list_all readable_option ?os" "list_all readable_option [(False, ''--seed'', ''-5'')]"
    "refused_option (True, ''--users'', ''many'')"
    by (simp_all add: FLOATS_def INTS_def ints)
  have "parse_args ?env (concat (map spelled ?os)) =
      Some (Inr (default_simulator_settings\<lparr>num_users := 4, sim_seed := Some (- 5)\<rparr>))"
    using arguments_override_environment [OF env given(1)] readable(1)
    by (simp only: simp_thms)
      (simp add: overridden_def number_or_def number_def ints default_simulator_settings_def)
  moreover have "parse_args ?env (concat (map spelled ?bad)) = Some (Inl usage_error)"
    using arguments_override_environment [OF env given(2)] readable(2,3)
    by (metis append_Cons append_Nil)
  ultimately show ?thesis by (simp add: usage_error_def)
qed

end
