(* ===== verification/DecisionService.thy ===== *)
theory DecisionService
  imports DecisionProps
begin

text \<open>
  The decision service as a process: its configuration against that of the Python services, and the
  answers of its gRPC and HTTP entry points.
\<close>

subsection \<open>Configuration\<close>
















subsection \<open>The entry points\<close>

text \<open>An action that never ends with a given error.\<close>

definition avoids :: "exn \<Rightarrow> ('s, 'a) action \<Rightarrow> bool" where
  "avoids e m \<longleftrightarrow> (\<forall>s. fst (m s) \<noteq> Inl e)"

lemma avoids_ret [intro!]: "avoids e (ret x)"
  by (simp add: avoids_def ret_def)

lemma avoids_bindE [intro!]: "avoids e m \<Longrightarrow> (\<And>x. avoids e (f x)) \<Longrightarrow> avoids e (bindE m f)"
  unfolding avoids_def bindE_def by (auto split: prod.splits sum.splits) (metis fst_conv)

lemma avoids_if [intro!]: "(b \<Longrightarrow> avoids e m) \<Longrightarrow> (\<not> b \<Longrightarrow> avoids e n) \<Longrightarrow> avoids e (if b then m else n)"
  by simp

lemma avoids_run_commands:
  "\<forall>a\<in>set as. avoids e a \<Longrightarrow> run_commands as s = (r, t) \<Longrightarrow> r \<noteq> Inl e \<and> (\<forall>rs. r = Inr rs \<longrightarrow> Inl e \<notin> set rs)"
proof (induction as arbitrary: s r t)
  case Nil
  then show ?case by (auto simp: ret_def)
next
  case (Cons a as)
  obtain q s1 where a: "a s = (q, s1)" by fastforce
  then have q: "q \<noteq> Inl e" using Cons.prems(1) by (metis avoids_def fst_conv list.set_intros(1))
  obtain q' s2 where rest: "run_commands as s1 = (q', s2)" by fastforce
  from Cons.IH [OF _ rest] Cons.prems(1) have IH: "q' \<noteq> Inl e \<and> (\<forall>rs. q' = Inr rs \<longrightarrow> Inl e \<notin> set rs)" by simp
  show ?case
    using Cons.prems(2) IH q unfolding run_commands.simps
    by (cases q; cases q') (auto simp: a rest bindE_def ret_def split: if_splits)
qed

lemma raise_first_Inl: "raise_first rs = Inl e \<Longrightarrow> Inl e \<in> set rs"
  by (induction rs rule: raise_first.induct) (auto split: sum.splits)

lemma avoids_pipe:
  assumes "\<forall>a\<in>set as. avoids e a"
  shows "avoids e (pipe_execute as)"
  unfolding avoids_def pipe_execute_def bindE_def
proof
  fix s
  obtain r t where run: "run_commands as s = (r, t)" by fastforce
  from avoids_run_commands [OF assms run] raise_first_Inl
  show "fst (case run_commands as s of (r, s') \<Rightarrow> (case r of Inl e \<Rightarrow> (Inl e, s') | Inr x \<Rightarrow> (raise_first x, s'))) \<noteq> Inl e"
    unfolding run by (cases r) auto
qed

lemma avoids_tx_check:
  assumes "\<And>c. avoids e (rc c)"
  shows "avoids e (tx_check rc k a)"
  unfolding tx_check_def replay_check_def window_step_def session_write_def Let_def
  by (auto intro!: assms split: prod.splits)

lemma avoids_Decide:
  assumes "\<And>c. avoids e (eng_rdb E c)" and "named tx"
  shows "avoids e (Decide E tx)"
proof -
  have "avoids e (stored_verdict E tx)" by (simp add: avoids_def stored_verdict_def split_beta)
  moreover have "avoids e (pipe_execute (map (\<lambda>k. eng_rdb E (EXISTS k)) (lookup_keys tx)))"
    using assms(1) by (intro avoids_pipe) auto
  moreover have "\<not> (gx_EventID tx = [] \<or> gx_UserID tx = [])" using assms(2) by (simp add: named_def)
  ultimately show ?thesis
    unfolding Decide_def Let_def
    by (auto intro!: assms(1) avoids_tx_check split: option.splits)
qed

definition bad_request :: "('r, 'st) Server \<Rightarrow> string \<Rightarrow> bool" where
  "bad_request S body \<longleftrightarrow>
     (case srv_unmarshal S (take (2 ^ 20) body) of Inl _ \<Rightarrow> True | Inr None \<Rightarrow> True | Inr (Some tx) \<Rightarrow> \<not> named tx)"

lemma toProto_avoids:
  "\<forall>ds. ns ds \<noteq> Inl e \<Longrightarrow> toProto ns d \<noteq> Inl e"
proof -
  assume ns: "\<forall>ds. ns ds \<noteq> Inl e"
  have "reason_msgs ns rs \<noteq> Inl e" for rs
    using ns by (induction rs) (auto split: sum.splits)
  then show ?thesis by (auto simp: toProto_def split: sum.splits)
qed

lemma server_decide_unnamed:
  "\<not> named tx \<Longrightarrow> server_decide S tx w = (Inl errInvalid, w\<lparr>w_metrics := w_metrics w @ [(''decision_errors_total'', [])]\<rparr>)"
  by (auto simp: server_decide_def named_def bindE_def inc_def raise_exn_def)

lemma server_decide_named:
  assumes "named tx"
  shows "server_decide S tx w =
    (case Decide (srv_engine S) tx (w_redis w) of
       (Inl e, s) \<Rightarrow> (Inl e, w\<lparr>w_redis := s, w_metrics := w_metrics w @ [(''decision_errors_total'', [])]\<rparr>)
     | (Inr d, s) \<Rightarrow> (toProto (srv_new_struct S) d, w\<lparr>w_redis := s, w_metrics := w_metrics w @ decision_metrics d\<rparr>))"
  using assms
  by (auto simp: server_decide_def named_def bindE_def counting_errors_def on_redis_def inc_def raise_exn_def ret_def
      split: prod.splits sum.splits)

text \<open>
  (C17) What a caller of \<open>POST /v1/decide\<close> can rely on, when no error of Redis or of structpb is the service's own
  \<open>errInvalid\<close>: a body whose reading fails is answered with 400 and changes nothing; otherwise the
  answer is 400 exactly when the body cannot be read as a request, has no transaction, or names no event or no user, and then Redis is not touched; it is 200 with the marshalled response
  exactly when the decision was made and could be converted; every other answer is 503. For a
  request that was read, the gRPC entry point gives the same response, or the corresponding code
  (InvalidArgument for 400, Unavailable for 503), and both leave the same state and counters: one error counted
  for a failed decision, one decision and each of its reasons for one that was made.
\<close>

theorem decide_endpoints:
  assumes redis: "\<And>c. avoids errInvalid (eng_rdb (srv_engine S) c)" and struct: "\<forall>ds. srv_new_struct S ds \<noteq> Inl errInvalid"
  shows "(\<forall>e. post_decide S (Inl e) w = (reply_with 400 (srv_err_text S e @ newline), w)) \<and>
    (http_status (fst (post_decide S (Inr body) w)) = 400 \<longleftrightarrow> bad_request S body) \<and>
    (bad_request S body \<longrightarrow> w_redis (snd (post_decide S (Inr body) w)) = w_redis w) \<and>
    (\<forall>req. srv_unmarshal S (take (2 ^ 20) body) = Inr req \<longrightarrow>
       snd (post_decide S (Inr body) w) = snd (grpc_Decide S req w) \<and>
       (case fst (grpc_Decide S req w) of
          Inr resp \<Rightarrow> fst (post_decide S (Inr body) w) = reply_with 200 (srv_marshal S resp)
        | Inl code \<Rightarrow> http_status (fst (post_decide S (Inr body) w)) = (if code = InvalidArgument then 400 else 503))) \<and>
    (\<forall>tx q s. srv_unmarshal S (take (2 ^ 20) body) = Inr (Some tx) \<and> named tx \<and> Decide (srv_engine S) tx (w_redis w) = (q, s) \<longrightarrow>
       w_redis (snd (post_decide S (Inr body) w)) = s \<and>
       w_metrics (snd (post_decide S (Inr body) w)) = w_metrics w @
         (case q of Inl e \<Rightarrow> [(''decision_errors_total'', [])] | Inr d \<Rightarrow> decision_metrics d))"
proof (cases "srv_unmarshal S (take (2 ^ 20) body)")
  case (Inl e)
  then show ?thesis by (simp add: post_decide_def bad_request_def)
next
  case (Inr req)
  show ?thesis
  proof (cases req)
    case None
    with Inr show ?thesis by (simp add: post_decide_def bad_request_def grpc_Decide_def)
  next
    case (Some tx)
    show ?thesis
    proof (cases "named tx")
      case False
      then show ?thesis
        using Inr Some by (simp add: post_decide_def bad_request_def grpc_Decide_def server_decide_unnamed)
    next
      case True
      obtain r s where run: "Decide (srv_engine S) tx (w_redis w) = (r, s)" by fastforce
      have r: "r \<noteq> Inl errInvalid" using avoids_Decide [OF redis True] run by (metis avoids_def fst_conv)
      show ?thesis
      proof (cases r)
        case (Inl e)
        then show ?thesis
          using Inr Some True run r by (simp add: post_decide_def bad_request_def grpc_Decide_def server_decide_named)
      next
        case made: (Inr d)
        have p: "toProto (srv_new_struct S) d \<noteq> Inl errInvalid" by (rule toProto_avoids [OF struct])
        show ?thesis
          using Inr Some True run made p
          by (cases "toProto (srv_new_struct S) d")
            (simp_all add: post_decide_def bad_request_def grpc_Decide_def server_decide_named)
      qed
    qed
  qed
qed

text \<open>\<open>GET /healthz\<close> answers 200 exactly when there is no ping to make or Redis answers it.\<close>

lemma healthz_reports_redis:
  "http_status (fst (get_healthz S w)) = 200 \<longleftrightarrow>
     (srv_ping S \<longrightarrow> (\<exists>r. fst (eng_rdb (srv_engine S) PING (w_redis w)) = Inr r))"
  by (cases "fst (eng_rdb (srv_engine S) PING (w_redis w))") (auto simp: get_healthz_def on_redis_def split_beta split: sum.splits)

subsection \<open>Witness\<close>

lemma kv_avoids: "avoids errInvalid (kv_step c)"
  unfolding avoids_def errInvalid_def
  by (cases c) (auto simp: kv_simps wrongtype_def bad_expire_def split: option.splits rval.splits if_splits)

lemma redis_avoids: "avoids errInvalid (redis_step c)"
proof (cases "is_conn_cmd c")
  case True
  then consider keys where "c = WATCH keys" | "c = UNWATCH" | cs where "c = EXEC cs" by (cases c) simp_all
  then show ?thesis
  proof cases
    case (3 cs)
    have "avoids errInvalid (pipe_execute (map kv_step cs))" using kv_avoids by (intro avoids_pipe) auto
    then have p: "fst (pipe_execute (map kv_step cs) m) \<noteq> Inl errInvalid" for m by (simp add: avoids_def)
    have "fst (redis_step (EXEC cs) s) \<noteq> Inl errInvalid" for s
      using p [of "ks s"] by (cases "fst (pipe_execute (map kv_step cs) (ks s))") (auto simp: redis_step.simps split_beta errInvalid_def)
    then show ?thesis by (simp add: 3 avoids_def)
  qed (simp_all add: avoids_def redis_step.simps)
next
  case False
  then show ?thesis using kv_avoids [of c] by (simp add: avoids_def redis_step_plain)
qed

definition sample_server :: "(conn, unit) Server" where
  "sample_server = \<lparr>srv_engine = sample_decider, srv_ping = True, srv_new_struct = (\<lambda>_. Inr ()),
     srv_unmarshal = (\<lambda>body. if body = [] then Inl (ValueError ''unexpected end of JSON input'') else Inr (Some far_request)),
     srv_marshal = (\<lambda>_. ''response''), srv_err_text = (\<lambda>_. ''error'')\<rparr>"

lemma sample_server_sel [simp]:
  "srv_engine sample_server = sample_decider" "srv_new_struct sample_server = (\<lambda>_. Inr ())"
  by (simp_all add: sample_server_def)

theorem decide_endpoints_witness:
  "http_status (fst (post_decide sample_server (Inr []) (world_with settled))) = 400 \<and>
   http_status (fst (post_decide sample_server (Inr ''x'') (world_with settled))) \<noteq> 400"
proof -
  have r: "avoids errInvalid (eng_rdb (srv_engine sample_server) c)" for c by (simp add: redis_avoids)
  have n: "\<forall>ds. srv_new_struct sample_server ds \<noteq> Inl errInvalid" by simp
  have "bad_request sample_server []" "\<not> bad_request sample_server ''x''"
    using far_same(2) by (simp_all add: bad_request_def sample_server_def take_Cons')
  with decide_endpoints [OF r n, of "world_with settled" "[]"] decide_endpoints [OF r n, of "world_with settled" "''x''"]
  show ?thesis by blast
qed

end
