(* ===== verification/Spec2Isabelle.thy ===== *)
theory Spec2Isabelle
  imports Reachable Metrics CommandLine DecisionService
begin

text \<open>
  RTACE is a real-time fraud detection and containment pipeline. A simulator publishes transactions
  and logins to Kafka; the detection engine consumes them, refuses the traffic of quarantined users
  and blocked addresses, runs one Lua check per event inside Redis, turns the results into
  detections, suppresses repeats by a cooldown and publishes the rest; the containment engine
  consumes detections and writes quarantines, step-up demands and address blocks to Redis, each
  detection once; a control API lists these rules and lets an operator override them; a decision
  service, written in Go, scores a transaction synchronously with the same rules and the same Lua
  check before it comes through Kafka, and leaves its verdict for the detection engine. All services
  share one Redis server and nothing else.

  \<^bold>\<open>The model.\<close> Every effectful routine is an action (theory \<open>Prelude\<close>): a function from a state to an
  exception or a value, together with the state it leaves, also when it fails. Redis and Kafka
  client libraries are arguments, and what the code relies on is a locale for each:
  \<^item> \<open>Redis\<close>: the commands the sources send and their documented effect (\<open>kv_step\<close>, \<open>redis_step\<close> with
    WATCH and MULTI/EXEC); locales \<open>redis_client\<close> (replies are the documented ones, a failed call took
    effect or did not) and \<open>redis_up\<close> (no call fails), interpreted on an in-memory server and on
    one with outages. \<open>SharedRedis\<close>: locale \<open>redis_shared\<close>, where other clients write between any
    two commands, interpreted on a server with a list of disturbances and outages. \<open>Typing\<close>: locale
    \<open>typed_redis\<close>, where the other clients keep to the types of the keys, interpreted on such a server.
  \<^item> \<open>KafkaClient\<close>: \<open>common/kafka_client.py\<close> over the locale \<open>kafka_producer\<close> (an accepted message stays
    pending until it is delivered or its error callback fires), interpreted on a broker with a ledger.
  \<^item> \<open>Enforcement\<close> and \<open>Detectors\<close>: locale \<open>key_family\<close>, interpreted on every key layout of the sources.
  \<^item> \<open>World\<close>: the state of a service (Redis, producer, counter increments) and locale \<open>state_order\<close>,
    an order that every routine moves up; \<open>LoopOrder\<close> and \<open>DetectionService\<close> extend it to the consumer
    loop (\<open>loop_effects\<close>) and to the pipelines (\<open>pipeline_effects\<close>), interpreted on what is delivered,
    on what is counted and on the readings of the shutdown event; \<open>LoopProps\<close>: locales \<open>record_handler\<close>
    and \<open>batch_handler\<close>, the contract between the consumer loop and its handlers, interpreted on the
    handlers of both engines; \<open>SimulatorProps\<close>: locale \<open>traffic_host\<close>.
  \<^item> \<open>GoJson\<close>: locale \<open>float_printer\<close>, what Python must read where Go printed a \<open>float64\<close>, interpreted on
    the decimal printer the decision service is modelled with.

  \<^bold>\<open>Which theory models which source.\<close>
  \<^item> \<open>configs/\<close>: \<open>Config\<close> (the records) and \<open>Environment\<close> (\<open>from_env\<close>, Python's \<open>int()\<close> and \<open>float()\<close>).
  \<^item> \<open>common/models.py\<close>: \<open>Models\<close>; Python's \<open>json\<close> module: \<open>Json\<close>; \<open>common/enforcement.py\<close>: \<open>Enforcement\<close>.
  \<^item> \<open>lua/tx_check.lua\<close>, \<open>lua/auth_check.lua\<close>: \<open>LuaScripts\<close>; the four detectors: \<open>Detectors\<close>;
    \<open>detection_engine/cooldown.py\<close>: \<open>Cooldown\<close>; \<open>detection_engine/pipeline.py\<close>: \<open>Pipeline\<close>;
    \<open>detection_engine/consumer.py\<close>: \<open>DetectionService\<close> (its handler) and \<open>Engines\<close> (its start).
  \<^item> \<open>containment_engine/containment_actions.py\<close>, \<open>containment_engine/pipeline.py\<close>: \<open>Containment\<close>;
    \<open>containment_engine/consumer.py\<close>: \<open>ContainmentService\<close> and \<open>Engines\<close>.
  \<^item> \<open>common/consumer_loop.py\<close>: \<open>ConsumerLoop\<close>; \<open>common/metrics.py\<close>: \<open>Metrics\<close>; \<open>create_producer\<close>,
    \<open>create_consumer\<close> and \<open>common/redis_client.py\<close>: \<open>Engines\<close>.
  \<^item> \<open>api/main.py\<close>: \<open>Api\<close>, and its \<open>lifespan\<close> in \<open>Engines\<close>; \<open>simulator/transaction_simulator.py\<close>:
    \<open>Simulator\<close>, and its command line in \<open>CommandLine\<close>.
  \<^item> \<open>decision-service/internal/decision/\<close>: \<open>DecisionEngine\<close> (\<open>engine.go\<close> and \<open>server.go\<close>: the record \<open>Engine\<close> with its
    clock, id and hash as fields, \<open>Decide\<close>, \<open>engine_verdict\<close> for \<open>Engine.verdict\<close>, \<open>server_decide\<close>, \<open>grpc_Decide\<close>,
    \<open>post_decide\<close>, \<open>get_healthz\<close>); Go's \<open>encoding/json\<close>: \<open>GoJson\<close> (writing) and \<open>unmarshal_decision\<close> (reading).

  \<^bold>\<open>What is proved.\<close>
  \<^item> Containment (\<open>ContainmentProps\<close>, \<open>ContainmentRuns\<close>): against any interference and any outage
    \<open>apply_containment\<close> is one atomic step of the specification \<open>contain\<close> or none, so a detection is
    contained at most once however often it is delivered; the policy of each detection type; the
    retry loop ends when the disturbances do; a redelivery is audited with the same actions.
  \<^item> Consumer loop (\<open>LoopProps\<close>, \<open>LoopTheorems\<close>, \<open>LoopLiveness\<close>): a batch is reported as handled only when all it sent
    is delivered, offsets are committed only for handled batches and in order, every record is
    counted once, undecodable records become dead letters, delays double up to the maximum, and a
    shutdown ends the loop whatever its dependencies do.
  \<^item> Lua checks (\<open>ScriptProps\<close>): repeating a check for the same delivery changes nothing and reports
    the same, the trusted location moves on clean transactions only and never back in time, the
    windows count the events of the rolling window, the Haversine of both languages is the
    great-circle distance.
  \<^item> Detection (\<open>PipelineRun\<close>, \<open>PipelineProps\<close>, \<open>PipelineTheorems\<close>, \<open>DetectionTheorems\<close>): a batch computes
    \<open>batch_outcome\<close>, the same as its records one by one; refused events leave no trace; every detection
    names its record; invalid records are isolated; detections are delivered before input is
    committed and cooldowns are given back when delivery fails; two circumstances in which a retry
    loses a detection. \<open>Scenario\<close> holds the concrete run these use.
  \<^item> API (\<open>ApiProps\<close>): overrides need the token, an override has exactly its specified effect, reads
    change nothing, accepted overrides are audited as far as the producer lets them.
  \<^item> Configuration (\<open>Environment\<close>) and simulator (\<open>SimulatorProps\<close>): a printed configuration is read
    back; the simulated traffic has the documented shape whatever the random draws.
  \<^item> The engines as they are started (\<open>Engines\<close>, over \<open>AtLeastOnce\<close>): from any environment, an engine
    either reads its settings or opens no client, and what it has committed when it stops, however it
    stops, is a prefix of what it polled, of which every detection, audit message and dead letter is
    delivered. \<open>CommandLine\<close>: the options of the simulator override its environment.
  \<^item> The system (\<open>System\<close>): a detection ends in refused traffic, a manual quarantine is enforced and
    can be taken back, a lifted quarantine stays lifted when the detection is delivered again.
  \<^item> The decision service (\<open>DecisionRun\<close>, \<open>DecisionProps\<close>, \<open>DecisionService\<close>): \<open>Decide\<close> computes \<open>decide_outcome\<close>, branch by
    branch; its verdicts are the containment policy; a verdict is final while its keys live; what it
    stores is read back by Python and by Go; its settings are those of the Python services; the
    HTTP and gRPC entry points answer alike. \<open>Handover\<close>: a transaction decided first and delivered
    through Kafka later ends in the detections and the state it would have had without the decision.
  \<^item> Types (\<open>Typing\<close>, \<open>TypeSafety\<close>, \<open>Reachable\<close>): the step relation \<open>system_step\<close> lets the detection
    engine, the containment engine, the API, the decision service, other well-typed clients and time
    change the key space in any order. Every routine keeps every key to the type its name says, so from no reachable key space
    a service meets a WRONGTYPE error, no rule it finds is permanent, and a batch always has its outcome.
  \<^item> Counters (\<open>Metrics\<close>): every increment names a declared counter with its labels.

  \<^bold>\<open>Bounds.\<close> Three loops may run forever in the program and take a fuel, with \<open>None\<close> for a loop still
  running when it is used up: the WATCH retry of \<open>apply_containment\<close> (one turn suffices on an
  undisturbed server, and a server with \<open>n\<close> disturbances needs at most \<open>n + 1\<close>),
  the retry of a batch and the poll loop (both are over after \<open>j + 1\<close> rounds when the shutdown event
  is set after \<open>j\<close> readings; the safety theorems hold at any fuel). The simulator takes the number
  of iterations. The JSON parser's fuel exceeds the length
  of its text. Floats are real numbers, texts are UTF-8 bytes; integers are unbounded as in
  Python, and of 64 or 32 bits with their wrap-around where Go computes durations, counts and scores.
  Go prints a float with as many decimals as it has, at most 17 (the exponent form Go uses for
  very small and very large numbers is another text of the same number).

  \<^bold>\<open>Not modelled.\<close> Log lines, the observations of histograms (but for \<open>observe_redis_latency\<close>), the
  registration of the Lua scripts with the server, what the metrics servers and the \<open>/metrics\<close> route
  print, rebalancing of consumer groups, the parts of \<open>argparse\<close> beyond options spelled in full;
  of the decision service, the process around its handlers (\<open>cmd/decision-service/main.go\<close>, \<open>FindLuaDir\<close>,
  \<open>NewEngine\<close>), the generated protobuf code, the texts that wrap an error, and Go's case-insensitive matching of
  member names when it reads a stored decision. protojson and structpb are arguments.
  Pydantic's validation and serialisation, SHA-256, UUIDs and clocks are arguments. Within a routine
  time passes as a write of another client (an expiry is one of the writes others may make); between
  routines it is the step \<open>elapses\<close> of \<open>Reachable\<close>, which shortens times to live and drops what expired.
\<close>

end
